theory Spec2Isabelle
  imports Complex_Main "HOL-Library.Word" "HOL-Library.AList" "HOL-Library.Log_Nat"
begin

section \<open>The platform: numbers, strings, paths, files and buffers\<close>

text \<open>
  The program is JavaScript on Node.js. The model makes these choices.
  \<^item> A number is an IEEE 754 double: the rational a finite double denotes, one of the two
    infinities, or NaN. Every arithmetic operation of \<open>processVideo\<close> and
    \<open>mergeVideos\<close> rounds its exact result to the nearest double. Byte counts (file
    sizes, buffer lengths, offsets) are natural numbers: doubles add them exactly below
    \<open>2 ^ 53\<close>. The estimate of a duration is given as the exact quotient, and rounded
    where \<open>processVideo\<close> and \<open>mergeVideos\<close> use it.
  \<^item> Paths follow the POSIX variant of Node's \<^verbatim>\<open>path\<close> module.
  \<^item> A file system is an association list from path strings to file contents; different
    path strings name different files. What depends on the installation is a parameter,
    the \<open>platform\<close>: the longest buffer, and the paths the operating system refuses to
    open for writing. Memory and disk space do not run out.
  \<^item> \<^verbatim>\<open>Date.now()\<close>, the clock of a request, is a parameter.
\<close>

subsection \<open>Numbers\<close>

datatype number = Finite rat | PInf | NInf | NaN

text \<open>Rounding to the nearest integer, a tie to the even one.\<close>

definition rne :: "rat \<Rightarrow> int" where
  "rne x =
     (let f = \<lfloor>x\<rfloor>; d = x - of_int f
      in if d < 1 / 2 then f else if 1 / 2 < d then f + 1
         else if even f then f else f + 1)"

text \<open>The exponent of a positive rational \<open>a\<close>: \<open>2 powi ilog2 a \<le> a < 2 powi (ilog2 a + 1)\<close>.\<close>

definition ilog2 :: "rat \<Rightarrow> int" where
  "ilog2 a = (if 1 \<le> a then bitlen \<lfloor>a\<rfloor> - 1 else - bitlen (\<lceil>1 / a\<rceil> - 1))"

text \<open>
  The double nearest to a rational: 53 significant bits, the exponent of the last bit
  at least \<open>-1074\<close>, a tie to the even significand, and an infinity from
  \<open>2 ^ 1024\<close> on.
\<close>

definition round_double :: "rat \<Rightarrow> number" where
  "round_double x =
     (if x = 0 then Finite 0
      else
        let a = \<bar>x\<bar>;
            e = max (ilog2 a - 52) (- 1074);
            m = rne (a / 2 powi e);
            r = of_int m * 2 powi e
        in if 2 ^ 1024 \<le> r then (if 0 < x then PInf else NInf)
           else Finite (sgn x * r))"

text \<open>The operators \<^verbatim>\<open>-x\<close>, \<^verbatim>\<open>x + y\<close>, \<^verbatim>\<open>x - y\<close> and \<^verbatim>\<open>x * y\<close>.\<close>

fun fneg :: "number \<Rightarrow> number" where
  "fneg (Finite a) = Finite (- a)"
| "fneg PInf = NInf"
| "fneg NInf = PInf"
| "fneg NaN = NaN"

fun fadd :: "number \<Rightarrow> number \<Rightarrow> number" where
  "fadd (Finite a) (Finite b) = round_double (a + b)"
| "fadd NaN y = NaN"
| "fadd x NaN = NaN"
| "fadd PInf NInf = NaN"
| "fadd NInf PInf = NaN"
| "fadd PInf y = PInf"
| "fadd NInf y = NInf"
| "fadd x PInf = PInf"
| "fadd x NInf = NInf"

definition fsub :: "number \<Rightarrow> number \<Rightarrow> number" where
  "fsub x y = fadd x (fneg y)"

fun fsgn :: "number \<Rightarrow> int" where
  "fsgn (Finite a) = (if 0 < a then 1 else if a < 0 then - 1 else 0)"
| "fsgn PInf = 1"
| "fsgn NInf = - 1"
| "fsgn NaN = 0"

fun fmul :: "number \<Rightarrow> number \<Rightarrow> number" where
  "fmul (Finite a) (Finite b) = round_double (a * b)"
| "fmul NaN y = NaN"
| "fmul x NaN = NaN"
| "fmul x y =
     (if fsgn x * fsgn y = 0 then NaN else if 0 < fsgn x * fsgn y then PInf else NInf)"

text \<open>\<^verbatim>\<open>Math.floor\<close>.\<close>

fun Math_floor :: "number \<Rightarrow> number" where
  "Math_floor (Finite a) = Finite (of_int \<lfloor>a\<rfloor>)"
| "Math_floor x = x"

text \<open>The comparisons \<^verbatim>\<open>x < y\<close> and \<^verbatim>\<open>x <= y\<close>: false when one side is NaN.\<close>

fun flt :: "number \<Rightarrow> number \<Rightarrow> bool" where
  "flt (Finite a) (Finite b) = (a < b)"
| "flt NaN y = False"
| "flt x NaN = False"
| "flt PInf y = False"
| "flt x NInf = False"
| "flt x y = True"

definition fle :: "number \<Rightarrow> number \<Rightarrow> bool" where
  "fle x y = (flt x y \<or> (x = y \<and> x \<noteq> NaN))"

text \<open>A number is false in a condition when it is 0 or NaN.\<close>

definition truthy_number :: "number \<Rightarrow> bool" where
  "truthy_number x = (x \<noteq> Finite 0 \<and> x \<noteq> NaN)"

subsection \<open>Strings and paths\<close>

type_synonym byte = "8 word"

type_synonym buffer = "byte list"

type_synonym filesystem = "(string \<times> buffer) list"

text \<open>\<^verbatim>\<open>String.prototype.startsWith\<close> and \<^verbatim>\<open>String.prototype.endsWith\<close>.\<close>

definition startsWith :: "string \<Rightarrow> string \<Rightarrow> bool" where
  "startsWith s p = (take (length p) s = p)"

definition endsWith :: "string \<Rightarrow> string \<Rightarrow> bool" where
  "endsWith s p = (length p \<le> length s \<and> drop (length s - length p) s = p)"

text \<open>The decimal digits of a number, as a template literal prints a timestamp.\<close>

function string_of_nat :: "nat \<Rightarrow> string" where
  "string_of_nat n =
     (if n < 10 then [''0123456789'' ! n]
      else string_of_nat (n div 10) @ [''0123456789'' ! (n mod 10)])"
  by pat_completeness auto
termination
  by (relation "measure (\<lambda>n. n)") auto

declare string_of_nat.simps [simp del]

text \<open>
  \<^verbatim>\<open>path.basename(path)\<close>: trailing slashes are skipped, then the characters
  after the last remaining slash are returned.
\<close>

definition basename :: "string \<Rightarrow> string" where
  "basename p =
     rev (takeWhile (\<lambda>c. c \<noteq> CHR ''/'') (dropWhile (\<lambda>c. c = CHR ''/'') (rev p)))"

text \<open>
  \<^verbatim>\<open>path.extname(path)\<close>: from the last dot of the basename to its end; empty when
  the basename has no dot, when its only dot is its first character, or when it is
  \<^verbatim>\<open>..\<close>.
\<close>

definition extname :: "string \<Rightarrow> string" where
  "extname p =
     (let b = basename p;
          e = rev (takeWhile (\<lambda>c. c \<noteq> CHR ''.'') (rev b))
      in if CHR ''.'' \<notin> set b then []
         else if length b = Suc (length e) \<or> b = ''..'' then []
         else CHR ''.'' # e)"

text \<open>
  \<^verbatim>\<open>path.basename(path, suffix)\<close>: the basename without the suffix, when the
  basename ends with the suffix and is longer than it.
\<close>

definition basename_ext :: "string \<Rightarrow> string \<Rightarrow> string" where
  "basename_ext p suffix =
     (let b = basename p
      in if suffix \<noteq> [] \<and> p = suffix then []
         else if suffix \<noteq> [] \<and> endsWith b suffix \<and> b \<noteq> suffix
           then take (length b - length suffix) b
         else b)"

text \<open>
  \<^verbatim>\<open>path.dirname(path)\<close>: the path up to the slash before its basename;
  \<^verbatim>\<open>.\<close> or \<^verbatim>\<open>/\<close> when there is no such slash after the first character.
\<close>

definition dirname :: "string \<Rightarrow> string" where
  "dirname p =
     (if p = [] then ''.''
      else
        let r = dropWhile (\<lambda>c. c \<noteq> CHR ''/'') (dropWhile (\<lambda>c. c = CHR ''/'') (rev p));
            hasRoot = (hd p = CHR ''/'')
        in if length r \<le> 1 then (if hasRoot then ''/'' else ''.'')
           else if hasRoot \<and> length r = 2 then ''//''
           else rev (tl r))"

text \<open>
  \<^verbatim>\<open>path.join\<close> and \<^verbatim>\<open>path.normalize\<close>: the arguments are joined with
  slashes, then empty and \<^verbatim>\<open>.\<close> segments are dropped and a \<^verbatim>\<open>..\<close> segment
  removes the segment before it.
\<close>

fun split_slash :: "string \<Rightarrow> string list" where
  "split_slash [] = [[]]"
| "split_slash (c # cs) =
     (if c = CHR ''/'' then [] # split_slash cs
      else (case split_slash cs of
              [] \<Rightarrow> [[c]]
            | s # ss \<Rightarrow> (c # s) # ss))"

fun join_slash :: "string list \<Rightarrow> string" where
  "join_slash [] = []"
| "join_slash [s] = s"
| "join_slash (s # t # ss) = s @ CHR ''/'' # join_slash (t # ss)"

text \<open>The segments kept so far are held last segment first.\<close>

definition normalize_step :: "bool \<Rightarrow> string list \<Rightarrow> string \<Rightarrow> string list" where
  "normalize_step allowAboveRoot res seg =
     (if seg = [] \<or> seg = ''.'' then res
      else if seg = ''..'' then
        (case res of
           [] \<Rightarrow> (if allowAboveRoot then [''..''] else [])
         | seg0 # below \<Rightarrow>
             if seg0 = ''..'' then (if allowAboveRoot then ''..'' # res else res)
             else below)
      else seg # res)"

definition normalizeString :: "string \<Rightarrow> bool \<Rightarrow> string" where
  "normalizeString p allowAboveRoot =
     join_slash (rev (foldl (normalize_step allowAboveRoot) [] (split_slash p)))"

definition normalize :: "string \<Rightarrow> string" where
  "normalize p =
     (if p = [] then ''.''
      else
        let isAbsolute = (hd p = CHR ''/'');
            trailingSeparator = (last p = CHR ''/'');
            q = normalizeString p (\<not> isAbsolute)
        in if q = [] then
             (if isAbsolute then ''/'' else if trailingSeparator then ''./'' else ''.'')
           else (if isAbsolute then ''/'' else []) @ q
                  @ (if trailingSeparator then ''/'' else []))"

definition join :: "string list \<Rightarrow> string" where
  "join args =
     (let parts = filter (\<lambda>a. a \<noteq> []) args
      in if parts = [] then ''.'' else normalize (join_slash parts))"

subsection \<open>Errors\<close>

text \<open>
  The exceptions the program can raise. \<open>ENOENT\<close> is the system error of
  \<^verbatim>\<open>fs.statSync\<close> and \<^verbatim>\<open>fs.readFileSync\<close> on a path with no file (the
  not-found kind), \<open>ENAMETOOLONG\<close> the one of opening a path with too long a name,
  \<open>ERR_OUT_OF_RANGE\<close> the \<^verbatim>\<open>RangeError\<close> of \<^verbatim>\<open>Buffer.alloc\<close>,
  \<^verbatim>\<open>Buffer.copy\<close> and \<^verbatim>\<open>fs.writeSync\<close>, \<open>ERR_FS_FILE_TOO_LARGE\<close> the
  one of \<^verbatim>\<open>fs.readFileSync\<close>, \<open>ERR_INVALID_ARG_TYPE\<close> the
  \<^verbatim>\<open>TypeError\<close> of \<^verbatim>\<open>path.dirname(undefined)\<close>. \<open>Error m\<close> is
  \<^verbatim>\<open>new Error(m)\<close>, and \<open>Wrapped p e\<close> is
  \<^verbatim>\<open>new Error(p + e.message)\<close>.
\<close>

datatype error =
    ENOENT string
  | ENAMETOOLONG string
  | ERR_OUT_OF_RANGE
  | ERR_FS_FILE_TOO_LARGE
  | ERR_INVALID_ARG_TYPE
  | Error string
  | Wrapped string error

subsection \<open>Files\<close>

text \<open>
  What the installation decides: \<open>kMaxLength\<close> is
  \<^verbatim>\<open>buffer.constants.MAX_LENGTH\<close>, the longest buffer (\<open>2 ^ 31 - 1\<close>,
  \<open>2 ^ 32\<close> or \<open>2 ^ 53 - 1\<close> bytes with the version of Node.js), and
  \<open>open_error\<close> gives the error with which the operating system refuses to open a
  path for writing, when it does.
\<close>

record platform =
  kMaxLength :: nat
  open_error :: "string \<Rightarrow> error option"

text \<open>
  For closed instances: buffers of up to \<open>2 ^ 32\<close> bytes, and the file names of
  at most 255 bytes of the common Linux file systems.
\<close>

definition linux_platform :: platform where
  "linux_platform =
     \<lparr>kMaxLength = 4294967296,
      open_error = (\<lambda>p. if 255 < length (basename p) then Some (ENAMETOOLONG p) else None)\<rparr>"

text \<open>
  \<^verbatim>\<open>kIoMaxLength\<close>, \<open>2 ^ 31 - 1\<close>: the most bytes one read or one write
  moves, and the largest file \<^verbatim>\<open>fs.readFileSync\<close> accepts.
\<close>

definition kIoMaxLength :: nat where
  "kIoMaxLength = 2147483647"

definition statSync_size :: "filesystem \<Rightarrow> string \<Rightarrow> error + nat" where
  "statSync_size fs p =
     (case map_of fs p of None \<Rightarrow> Inl (ENOENT p) | Some b \<Rightarrow> Inr (length b))"

text \<open>
  \<^verbatim>\<open>fs.readFileSync(path)\<close>: the file's content in a buffer allocated for its
  size.
\<close>

definition readFileSync :: "platform \<Rightarrow> filesystem \<Rightarrow> string \<Rightarrow> error + buffer" where
  "readFileSync pf fs p =
     (case map_of fs p of
        None \<Rightarrow> Inl (ENOENT p)
      | Some b \<Rightarrow>
          if kIoMaxLength < length b then Inl ERR_FS_FILE_TOO_LARGE
          else if kMaxLength pf < length b then Inl ERR_OUT_OF_RANGE
          else Inr b)"

text \<open>
  \<^verbatim>\<open>fs.writeFileSync(path, buffer)\<close>: the path is opened with the flag
  \<^verbatim>\<open>w\<close>, which creates the file or empties the one that is there, then the
  buffer is written. \<^verbatim>\<open>fs.writeSync\<close> refuses a length over
  \<open>kIoMaxLength\<close>: the error leaves the file empty.
\<close>

definition writeFileSync ::
  "platform \<Rightarrow> filesystem \<Rightarrow> string \<Rightarrow> buffer \<Rightarrow> (error + unit) \<times> filesystem" where
  "writeFileSync pf fs p b =
     (case open_error pf p of
        Some e \<Rightarrow> (Inl e, fs)
      | None \<Rightarrow>
          if kIoMaxLength < length b then (Inl ERR_OUT_OF_RANGE, AList.update p [] fs)
          else (Inr (), AList.update p b fs))"

definition unlinkSync :: "filesystem \<Rightarrow> string \<Rightarrow> error + filesystem" where
  "unlinkSync fs p =
     (case map_of fs p of None \<Rightarrow> Inl (ENOENT p) | Some b \<Rightarrow> Inr (AList.delete p fs))"

subsection \<open>Buffers\<close>

text \<open>
  \<^verbatim>\<open>Buffer.alloc(size)\<close>: a buffer of zero bytes; a size that is negative, over
  \<open>kMaxLength\<close> or NaN is refused.
\<close>

definition Buffer_alloc :: "platform \<Rightarrow> number \<Rightarrow> error + buffer" where
  "Buffer_alloc pf n =
     (case n of
        Finite q \<Rightarrow>
          if q < 0 \<or> of_nat (kMaxLength pf) < q then Inl ERR_OUT_OF_RANGE
          else Inr (replicate (nat \<lfloor>q\<rfloor>) 0)
      | _ \<Rightarrow> Inl ERR_OUT_OF_RANGE)"

text \<open>
  How \<^verbatim>\<open>Buffer.copy\<close> reads an offset: an integer is taken as it is, another
  number is rounded down when it lies between \<^verbatim>\<open>Number.MIN_SAFE_INTEGER\<close> and
  \<^verbatim>\<open>Number.MAX_SAFE_INTEGER\<close>, and is the default otherwise.
\<close>

definition toInteger :: "number \<Rightarrow> int \<Rightarrow> int" where
  "toInteger n defaultVal =
     (case n of
        Finite q \<Rightarrow>
          if of_int \<lfloor>q\<rfloor> = q then \<lfloor>q\<rfloor>
          else if - 9007199254740991 \<le> q \<and> q \<le> 9007199254740991 then \<lfloor>q\<rfloor>
          else defaultVal
      | _ \<Rightarrow> defaultVal)"

text \<open>
  \<^verbatim>\<open>source.copy(target, targetStart, sourceStart, sourceEnd)\<close>, returning the
  target after the copy. A start before the source or after its end is refused; an
  end after the source's end is not: the copy stops at the end of the source and at the
  end of the target, whichever comes first. \<open>copy_bytes\<close> is the copy once the
  offsets are integers. Where the program leaves out \<^verbatim>\<open>sourceStart\<close> and
  \<^verbatim>\<open>sourceEnd\<close> they are 0 and the source's length.
\<close>

definition copy_bytes :: "buffer \<Rightarrow> buffer \<Rightarrow> int \<Rightarrow> int \<Rightarrow> int \<Rightarrow> error + buffer" where
  "copy_bytes source target targetStart sourceStart sourceEnd =
     (if targetStart < 0 then Inl ERR_OUT_OF_RANGE
      else if sourceStart < 0 \<or> sourceStart > int (length source) then Inl ERR_OUT_OF_RANGE
      else if sourceEnd < 0 then Inl ERR_OUT_OF_RANGE
      else if targetStart \<ge> int (length target) \<or> sourceStart \<ge> sourceEnd then Inr target
      else
        let sourceEnd' =
              (if sourceEnd - sourceStart > int (length target) - targetStart
               then sourceStart + int (length target) - targetStart else sourceEnd);
            nb = min (sourceEnd' - sourceStart) (int (length source) - sourceStart)
        in Inr (take (nat targetStart) target
                @ take (nat nb) (drop (nat sourceStart) source)
                @ drop (nat (targetStart + nb)) target))"

definition Buffer_copy ::
  "buffer \<Rightarrow> buffer \<Rightarrow> number \<Rightarrow> number \<Rightarrow> number \<Rightarrow> error + buffer" where
  "Buffer_copy source target targetStart sourceStart sourceEnd =
     copy_bytes source target
       (toInteger targetStart 0) (toInteger sourceStart 0) (toInteger sourceEnd 0)"

section \<open>videoProcessing.js\<close>

definition RAW_VIDEO_WIDTH :: int where "RAW_VIDEO_WIDTH = 320"
definition RAW_VIDEO_HEIGHT :: int where "RAW_VIDEO_HEIGHT = 240"
definition RAW_VIDEO_FPS :: int where "RAW_VIDEO_FPS = 30"
definition BYTES_PER_PIXEL :: int where "BYTES_PER_PIXEL = 3"
definition FRAME_SIZE :: int where
  "FRAME_SIZE = RAW_VIDEO_WIDTH * RAW_VIDEO_HEIGHT * BYTES_PER_PIXEL"

definition TEST_VIDEO_DURATION :: rat where "TEST_VIDEO_DURATION = 5"
definition LONG_VIDEO_DURATION :: rat where "LONG_VIDEO_DURATION = 360"

definition calculateRawVideoDuration :: "filesystem \<Rightarrow> string \<Rightarrow> error + rat" where
  "calculateRawVideoDuration fs filepath =
     (let filename = basename filepath
      in if startsWith filename ''test-video'' then Inr TEST_VIDEO_DURATION
         else if startsWith filename ''long-video'' then Inr LONG_VIDEO_DURATION
         else
           (case statSync_size fs filepath of
              Inl e \<Rightarrow> Inl e
            | Inr fileSize \<Rightarrow>
                let totalFrames = int fileSize div FRAME_SIZE
                in Inr (of_int totalFrames / of_int RAW_VIDEO_FPS)))"

text \<open>
  The request options of a trim: a field the caller left out is \<open>None\<close>, one that
  is there is a number. The program reads each with \<^verbatim>\<open>|| 0\<close>, and tests it for
  truth in the request handler: an absent field, 0 and NaN are false.
\<close>

record options =
  trimStart :: "number option"
  trimEnd :: "number option"

definition or_zero :: "number option \<Rightarrow> number" where
  "or_zero x = (case x of None \<Rightarrow> Finite 0 | Some v \<Rightarrow> if truthy_number v then v else Finite 0)"

definition truthy :: "number option \<Rightarrow> bool" where
  "truthy x = (case x of None \<Rightarrow> False | Some v \<Rightarrow> truthy_number v)"

text \<open>What \<open>processVideo\<close> and \<open>mergeVideos\<close> resolve to.\<close>

record result =
  outputPath :: string
  duration :: number

text \<open>
  The external transcoder (fluent-ffmpeg) is a parameter of the model: given the command
  the program builds and the file system, it ends with an error message or with success,
  and leaves a file system.
\<close>

record ffmpeg_command =
  cmd_input :: string
  cmd_startTime :: "number option"
  cmd_duration :: "number option"
  cmd_output :: string

type_synonym transcoder =
  "ffmpeg_command \<Rightarrow> filesystem \<Rightarrow> (string + unit) \<times> filesystem"

text \<open>A transcoder that fails on every command, for closed instances.\<close>

definition failing_transcoder :: transcoder where
  "failing_transcoder c fs = (Inl ''ffmpeg exited with code 1'', fs)"

text \<open>The frame numbers \<open>processVideo\<close> computes for a raw video.\<close>

definition startFrame :: "number \<Rightarrow> number" where
  "startFrame tStart = Math_floor (fmul tStart (Finite (of_int RAW_VIDEO_FPS)))"

definition endFrame :: "number \<Rightarrow> number \<Rightarrow> number" where
  "endFrame totalDuration tEnd =
     Math_floor (fmul (fsub totalDuration tEnd) (Finite (of_int RAW_VIDEO_FPS)))"

text \<open>
  \<open>processVideo\<close>, with \<^verbatim>\<open>Date.now()\<close> as the parameter \<open>now\<close>. It returns
  its result or the error it throws, and the file system it leaves. The number
  \<open>totalDuration\<close> is the double nearest to the quotient that
  \<open>calculateRawVideoDuration\<close> gives. Every error raised inside the
  \<^verbatim>\<open>try\<close> block is thrown again with the prefix
  \<^verbatim>\<open>Error processing video: \<close>.
\<close>

definition processVideo ::
  "platform \<Rightarrow> transcoder \<Rightarrow> filesystem \<Rightarrow> nat \<Rightarrow> string \<Rightarrow> options
     \<Rightarrow> (error + result) \<times> filesystem" where
  "processVideo pf ffmpeg fs now inputPath opts =
     (let dir = dirname inputPath;
          ext = extname inputPath;
          base = basename_ext inputPath ext;
          timestamp = now;
          outPath = join [dir, base @ ''-trimmed-'' @ string_of_nat timestamp @ ext];
          isRawVideo = endsWith inputPath ''.raw''
      in case calculateRawVideoDuration fs inputPath of
           Inl e \<Rightarrow> (Inl (Wrapped ''Error processing video: '' e), fs)
         | Inr estimate \<Rightarrow>
             let totalDuration = round_double estimate;
                 tStart = or_zero (trimStart opts);
                 tEnd = or_zero (trimEnd opts);
                 newDuration = fsub (fsub totalDuration tStart) tEnd
             in if fle newDuration (Finite 0) then
                  (Inl (Wrapped ''Error processing video: ''
                     (Error ''Invalid trim parameters: resulting video would be empty'')), fs)
                else if isRawVideo then
                  (let frameSize =
                         Finite (of_int (RAW_VIDEO_WIDTH * RAW_VIDEO_HEIGHT * BYTES_PER_PIXEL));
                       sFrame = startFrame tStart;
                       eFrame = endFrame totalDuration tEnd
                   in case readFileSync pf fs inputPath of
                        Inl e \<Rightarrow> (Inl (Wrapped ''Error processing video: '' e), fs)
                      | Inr inputBuffer \<Rightarrow>
                          let outputSize = fmul (fsub eFrame sFrame) frameSize
                          in case Buffer_alloc pf outputSize of
                               Inl e \<Rightarrow> (Inl (Wrapped ''Error processing video: '' e), fs)
                             | Inr outputBuffer \<Rightarrow>
                                 (case Buffer_copy inputBuffer outputBuffer (Finite 0)
                                         (fmul sFrame frameSize) (fmul eFrame frameSize) of
                                    Inl e \<Rightarrow> (Inl (Wrapped ''Error processing video: '' e), fs)
                                  | Inr written \<Rightarrow>
                                      (case writeFileSync pf fs outPath written of
                                         (Inl e, fs') \<Rightarrow>
                                           (Inl (Wrapped ''Error processing video: '' e), fs')
                                       | (Inr u, fs') \<Rightarrow>
                                           (Inr \<lparr>outputPath = outPath,
                                                 duration = newDuration\<rparr>, fs'))))
                else
                  (case ffmpeg \<lparr>cmd_input = inputPath,
                                 cmd_startTime =
                                   (if truthy_number tStart then Some tStart else None),
                                 cmd_duration =
                                   (if truthy_number tEnd then Some newDuration else None),
                                 cmd_output = outPath\<rparr> fs of
                     (Inl msg, fs') \<Rightarrow> (Inl (Error (''Error processing video: '' @ msg)), fs')
                   | (Inr u, fs') \<Rightarrow>
                       (Inr \<lparr>outputPath = outPath, duration = newDuration\<rparr>, fs')))"

text \<open>
  \<open>mergeVideos\<close>: the first loop adds up durations and sizes, the second copies each
  input to the next offset of the output buffer.
\<close>

fun merge_first_pass ::
  "filesystem \<Rightarrow> string list \<Rightarrow> number \<Rightarrow> nat \<Rightarrow> error + (number \<times> nat)" where
  "merge_first_pass fs [] totalDuration totalSize = Inr (totalDuration, totalSize)"
| "merge_first_pass fs (inputPath # rest) totalDuration totalSize =
     (case calculateRawVideoDuration fs inputPath of
        Inl e \<Rightarrow> Inl e
      | Inr estimate \<Rightarrow>
          (case statSync_size fs inputPath of
             Inl e \<Rightarrow> Inl e
           | Inr sz \<Rightarrow>
               merge_first_pass fs rest (fadd totalDuration (round_double estimate))
                 (totalSize + sz)))"

fun merge_second_pass ::
  "platform \<Rightarrow> filesystem \<Rightarrow> string list \<Rightarrow> buffer \<Rightarrow> nat \<Rightarrow> error + buffer" where
  "merge_second_pass pf fs [] outputBuffer offset = Inr outputBuffer"
| "merge_second_pass pf fs (inputPath # rest) outputBuffer offset =
     (case readFileSync pf fs inputPath of
        Inl e \<Rightarrow> Inl e
      | Inr inputBuffer \<Rightarrow>
          (case copy_bytes inputBuffer outputBuffer (int offset) 0 (int (length inputBuffer)) of
             Inl e \<Rightarrow> Inl e
           | Inr outputBuffer' \<Rightarrow>
               merge_second_pass pf fs rest outputBuffer' (offset + length inputBuffer)))"

definition mergeVideos ::
  "platform \<Rightarrow> filesystem \<Rightarrow> nat \<Rightarrow> string list \<Rightarrow> (error + result) \<times> filesystem" where
  "mergeVideos pf fs now inputPaths =
     (case inputPaths of
        [] \<Rightarrow> (Inl (Wrapped ''Error merging videos: '' ERR_INVALID_ARG_TYPE), fs)
      | first # others \<Rightarrow>
          let outputDir = dirname first;
              timestamp = now;
              outPath = join [outputDir, ''merged-'' @ string_of_nat timestamp @ ''.raw'']
          in case merge_first_pass fs inputPaths (Finite 0) 0 of
               Inl e \<Rightarrow> (Inl (Wrapped ''Error merging videos: '' e), fs)
             | Inr (totalDuration, totalSize) \<Rightarrow>
                 (case Buffer_alloc pf (Finite (of_nat totalSize)) of
                    Inl e \<Rightarrow> (Inl (Wrapped ''Error merging videos: '' e), fs)
                  | Inr outputBuffer \<Rightarrow>
                      (case merge_second_pass pf fs inputPaths outputBuffer 0 of
                         Inl e \<Rightarrow> (Inl (Wrapped ''Error merging videos: '' e), fs)
                       | Inr merged \<Rightarrow>
                           (case writeFileSync pf fs outPath merged of
                              (Inl e, fs') \<Rightarrow>
                                (Inl (Wrapped ''Error merging videos: '' e), fs')
                            | (Inr u, fs') \<Rightarrow>
                                (Inr \<lparr>outputPath = outPath, duration = totalDuration\<rparr>,
                                 fs')))))"

section \<open>The request handlers\<close>

subsection \<open>The catalog\<close>

text \<open>
  Modelled from the spec: the catalog store (the program's \<^verbatim>\<open>db\<close> module is not
  among the sources). It holds rows for clips (\<^verbatim>\<open>id, filename, filepath, size,
  duration\<close>) and for share links (\<^verbatim>\<open>video_id, token, expiry_timestamp\<close>), and
  offers point lookup and single-row insert with an identity it assigns itself, never
  one in use. The columns \<^verbatim>\<open>id\<close>, \<^verbatim>\<open>size\<close> and \<^verbatim>\<open>duration\<close>
  carry a prime here. An expiry timestamp is an instant in milliseconds since the epoch;
  the program stores it as the text \<^verbatim>\<open>toISOString\<close> prints, which has
  milliseconds.
\<close>

record video =
  id' :: nat
  filename :: string
  filepath :: string
  size' :: nat
  duration' :: rat

record share_link =
  video_id :: nat
  token :: string
  expiry_timestamp :: int

record db =
  videos :: "video list"
  share_links :: "share_link list"

definition lastInsertRowid :: "db \<Rightarrow> nat" where
  "lastInsertRowid d = Suc (fold max (map id' (videos d)) 0)"

definition insert_video :: "db \<Rightarrow> string \<Rightarrow> string \<Rightarrow> nat \<Rightarrow> rat \<Rightarrow> nat \<times> db" where
  "insert_video d name path sz dur =
     (let rowid = lastInsertRowid d
      in (rowid,
          d\<lparr>videos := videos d @
               [\<lparr>id' = rowid, filename = name, filepath = path, size' = sz, duration' = dur\<rparr>]\<rparr>))"

definition select_video :: "db \<Rightarrow> nat \<Rightarrow> video option" where
  "select_video d i = find (\<lambda>v. id' v = i) (videos d)"

text \<open>
  The duration column holds a rational: the value of a finite number. A raw trim that
  returns reports a finite duration (lemma \<open>raw_trim_duration\<close> below), and a sum
  of durations is finite unless it overflows. For an infinity or NaN the model
  records 0.
\<close>

definition finite_value :: "number \<Rightarrow> rat" where
  "finite_value x = (case x of Finite q \<Rightarrow> q | _ \<Rightarrow> 0)"

text \<open>
  SQLite's \<^verbatim>\<open>datetime()\<close> reads the text \<^verbatim>\<open>toISOString\<close> printed and
  prints the instant as \<^verbatim>\<open>YYYY-MM-DD HH:MM:SS\<close>, without the fraction of the
  second; two such texts compare as their whole seconds do. It has four digits for the
  year: for an instant before the year 0000 or after the year 9999, which
  \<^verbatim>\<open>toISOString\<close> prints with a sign and six digits, the result is
  \<^verbatim>\<open>NULL\<close>, and a comparison with \<^verbatim>\<open>NULL\<close> selects no row.
\<close>

definition sqlite_datetime :: "int \<Rightarrow> int option" where
  "sqlite_datetime t =
     (if - 62167219200000 \<le> t \<and> t \<le> 253402300799999 then Some (t div 1000) else None)"

text \<open>
  The query of \<^verbatim>\<open>GET /videos/share/:token\<close>: the share links joined with their
  videos, for the given token, not yet expired at \<open>now\<close>.
\<close>

definition select_share :: "db \<Rightarrow> int \<Rightarrow> string \<Rightarrow> (share_link \<times> video) list" where
  "select_share d now tok =
     concat (map (\<lambda>l. map (\<lambda>v. (l, v)) (filter (\<lambda>v. id' v = video_id l) (videos d)))
       (filter (\<lambda>l. token l = tok
                  \<and> (case (sqlite_datetime (expiry_timestamp l), sqlite_datetime now) of
                       (Some expiry, Some current) \<Rightarrow> expiry > current
                     | _ \<Rightarrow> False))
          (share_links d)))"

subsection \<open>Responses\<close>

text \<open>
  \<open>Json_error n m\<close> is \<^verbatim>\<open>res.status(n).json({ error: m })\<close>,
  \<open>Json_exception n e\<close> the same with the message of a caught exception,
  \<open>Json_video i f d\<close> is \<^verbatim>\<open>res.json({ id, filename, duration })\<close>, and
  \<open>Video_stream f p\<close> streams the file at \<open>p\<close> as an attachment named \<open>f\<close>.
\<close>

datatype response =
    Json_error nat string
  | Json_exception nat error
  | Json_video nat string rat
  | Video_stream string string

subsection \<open>POST /upload\<close>

text \<open>
  The request's file, when there is one, is given by the path and the name the upload
  middleware stored it under.
\<close>

definition post_upload ::
  "db \<Rightarrow> filesystem \<Rightarrow> (string \<times> string) option \<Rightarrow> response \<times> db \<times> filesystem" where
  "post_upload d fs file =
     (case file of
        None \<Rightarrow> (Json_error 400 ''No video file provided'', d, fs)
      | Some (path, name) \<Rightarrow>
          (case statSync_size fs path of
             Inl e \<Rightarrow> (Json_error 500 ''Internal server error'', d, fs)
           | Inr filesize \<Rightarrow>
               (case calculateRawVideoDuration fs path of
                  Inl e \<Rightarrow> (Json_error 500 ''Internal server error'', d, fs)
                | Inr dur \<Rightarrow>
                    if dur > 300 then
                      (case unlinkSync fs path of
                         Inl e \<Rightarrow> (Json_error 500 ''Internal server error'', d, fs)
                       | Inr fs' \<Rightarrow>
                           (Json_error 400
                              ''Video duration exceeds maximum allowed length (5 minutes)'',
                            d, fs'))
                    else
                      (let (rowid, d') = insert_video d name path filesize dur
                       in (Json_video rowid name dur, d', fs)))))"

subsection \<open>POST /videos/:id/trim\<close>

definition post_trim ::
  "platform \<Rightarrow> transcoder \<Rightarrow> db \<Rightarrow> filesystem \<Rightarrow> nat \<Rightarrow> nat \<Rightarrow> options
     \<Rightarrow> response \<times> db \<times> filesystem" where
  "post_trim pf ffmpeg d fs now videoId body =
     (if \<not> truthy (trimStart body) \<and> \<not> truthy (trimEnd body) then
        (Json_error 400 ''Must specify either trimStart or trimEnd'', d, fs)
      else if (truthy (trimStart body) \<and> flt (or_zero (trimStart body)) (Finite 0))
              \<or> (truthy (trimEnd body) \<and> flt (or_zero (trimEnd body)) (Finite 0)) then
        (Json_error 400 ''Trim values must be positive'', d, fs)
      else
        (case select_video d videoId of
           None \<Rightarrow> (Json_error 404 ''Video not found'', d, fs)
         | Some v \<Rightarrow>
             (case processVideo pf ffmpeg fs now (filepath v) body of
                (Inl e, fs') \<Rightarrow> (Json_exception 500 e, d, fs')
              | (Inr r, fs') \<Rightarrow>
                  (case statSync_size fs' (outputPath r) of
                     Inl e \<Rightarrow> (Json_exception 500 e, d, fs')
                   | Inr sz \<Rightarrow>
                       (let (rowid, d') =
                              insert_video d (basename (outputPath r)) (outputPath r) sz
                                (finite_value (duration r))
                        in (Json_video rowid (basename (outputPath r))
                              (finite_value (duration r)),
                            d', fs'))))))"

subsection \<open>POST /videos/merge\<close>

text \<open>
  The loop over the requested identities: the rows found, or the first identity with
  no row.
\<close>

fun select_videos :: "db \<Rightarrow> nat list \<Rightarrow> nat + video list" where
  "select_videos d [] = Inr []"
| "select_videos d (i # ids) =
     (case select_video d i of
        None \<Rightarrow> Inl i
      | Some v \<Rightarrow>
          (case select_videos d ids of
             Inl missing \<Rightarrow> Inl missing
           | Inr vs \<Rightarrow> Inr (v # vs)))"

text \<open>The body's \<^verbatim>\<open>videoIds\<close> is \<open>None\<close> when it is absent or not an array.\<close>

definition post_merge ::
  "platform \<Rightarrow> db \<Rightarrow> filesystem \<Rightarrow> nat \<Rightarrow> nat list option
     \<Rightarrow> response \<times> db \<times> filesystem" where
  "post_merge pf d fs now videoIds =
     (case videoIds of
        None \<Rightarrow> (Json_error 400 ''Must provide an array of video IDs'', d, fs)
      | Some ids \<Rightarrow>
          if length ids < 2 then
            (Json_error 400 ''Must provide at least two video IDs to merge'', d, fs)
          else
            (case select_videos d ids of
               Inl missing \<Rightarrow>
                 (Json_error 404 (''Video with ID '' @ string_of_nat missing @ '' not found''),
                  d, fs)
             | Inr vs \<Rightarrow>
                 (case mergeVideos pf fs now (map filepath vs) of
                    (Inl e, fs') \<Rightarrow> (Json_exception 500 e, d, fs')
                  | (Inr r, fs') \<Rightarrow>
                      (case statSync_size fs' (outputPath r) of
                         Inl e \<Rightarrow> (Json_exception 500 e, d, fs')
                       | Inr sz \<Rightarrow>
                           (let (rowid, d') =
                                  insert_video d (basename (outputPath r)) (outputPath r) sz
                                    (finite_value (duration r))
                            in (Json_video rowid (basename (outputPath r))
                                  (finite_value (duration r)),
                                d', fs'))))))"

subsection \<open>GET /videos/share/:token\<close>

definition get_share :: "db \<Rightarrow> int \<Rightarrow> string \<Rightarrow> response" where
  "get_share d now tok =
     (case select_share d now tok of
        [] \<Rightarrow> Json_error 404 ''Share link not found or expired''
      | (l, v) # others \<Rightarrow> Video_stream (filename v) (filepath v))"

section \<open>Duration estimation\<close>

lemma FRAME_SIZE_eq: "FRAME_SIZE = 230400"
  by (simp add: FRAME_SIZE_def RAW_VIDEO_WIDTH_def RAW_VIDEO_HEIGHT_def BYTES_PER_PIXEL_def)

lemma long_video_not_test_video:
  "startsWith f ''long-video'' \<Longrightarrow> \<not> startsWith f ''test-video''"
  by (cases f) (auto simp: startsWith_def)

text \<open>
  C1. A file of \<open>S\<close> bytes whose name starts with neither reserved prefix has the
  duration \<open>floor (S / 230400) / 30\<close>, where \<open>230400 = 320 * 240 * 3\<close>; a name
  starting with \<^verbatim>\<open>test-video\<close> gives 5 and one starting with
  \<^verbatim>\<open>long-video\<close> gives 360, whatever the file's size and whether or not it exists.
\<close>

theorem estimateDuration_value:
  "FRAME_SIZE = 320 * 240 * 3 \<and> FRAME_SIZE = 230400 \<and>
   (startsWith (basename p) ''test-video'' \<longrightarrow> calculateRawVideoDuration fs p = Inr 5) \<and>
   (startsWith (basename p) ''long-video'' \<longrightarrow> calculateRawVideoDuration fs p = Inr 360) \<and>
   (\<not> startsWith (basename p) ''test-video'' \<and> \<not> startsWith (basename p) ''long-video'' \<and>
      map_of fs p = Some bytes \<longrightarrow>
      calculateRawVideoDuration fs p
        = Inr (of_int \<lfloor>(of_nat (length bytes) :: rat) / 230400\<rfloor> / 30))"
proof -
  have "\<lfloor>(of_nat (length bytes) :: rat) / 230400\<rfloor> = int (length bytes) div 230400"
    using floor_divide_of_int_eq [of "int (length bytes)" 230400, where ?'a = rat]
    by simp
  then show ?thesis
    using long_video_not_test_video [of "basename p"]
    by (auto simp: calculateRawVideoDuration_def FRAME_SIZE_eq RAW_VIDEO_FPS_def
        TEST_VIDEO_DURATION_def LONG_VIDEO_DURATION_def statSync_size_def Let_def)
qed

theorem estimateDuration_value_witness:
  "startsWith (basename ''uploads/test-video-1.raw'') ''test-video'' \<and>
   calculateRawVideoDuration [] ''uploads/test-video-1.raw'' = Inr 5 \<and>
   startsWith (basename ''uploads/long-video.raw'') ''long-video'' \<and>
   calculateRawVideoDuration [] ''uploads/long-video.raw'' = Inr 360 \<and>
   calculateRawVideoDuration [(''uploads/17-5.raw'', replicate 691200 0)] ''uploads/17-5.raw''
     = Inr (1 / 10)"
  using estimateDuration_value [of "''uploads/test-video-1.raw''" "[]"]
    estimateDuration_value [of "''uploads/long-video.raw''" "[]"]
    estimateDuration_value [of "''uploads/17-5.raw''"
      "[(''uploads/17-5.raw'', replicate 691200 0)]" "replicate 691200 0"]
  by (simp add: basename_def startsWith_def)

lemma estimate_cases:
  "calculateRawVideoDuration fs p =
     (if startsWith (basename p) ''test-video'' then Inr 5
      else if startsWith (basename p) ''long-video'' then Inr 360
      else case map_of fs p of
             None \<Rightarrow> Inl (ENOENT p)
           | Some bytes \<Rightarrow> Inr (of_int (int (length bytes) div 230400) / 30))"
  by (simp add: calculateRawVideoDuration_def statSync_size_def Let_def FRAME_SIZE_eq
      RAW_VIDEO_FPS_def TEST_VIDEO_DURATION_def LONG_VIDEO_DURATION_def
      split: option.splits)

lemma estimate_existing:
  assumes "map_of fs p = Some bytes"
  shows "\<exists>d\<ge>0. calculateRawVideoDuration fs p = Inr d"
proof -
  let ?d = "rat_of_int (int (length bytes) div 230400) / 30"
  have "0 \<le> ?d"
    by (simp add: pos_imp_zdiv_nonneg_iff)
  moreover have "calculateRawVideoDuration fs p = Inr 5
      \<or> calculateRawVideoDuration fs p = Inr 360
      \<or> calculateRawVideoDuration fs p = Inr ?d"
    using assms by (simp add: estimate_cases)
  ultimately show ?thesis
    by fastforce
qed

section \<open>Failures of the estimate\<close>

text \<open>
  C8, as the program has it. For a name with neither reserved prefix, the estimate
  fails with the not-found error when the file does not exist and is 0 for an existing
  file of zero bytes. For a name with a reserved prefix the program returns the fixed
  duration without looking at the file, whether it exists or not. An existing file
  never makes the estimate fail, and the estimate is never negative.
\<close>

theorem estimateDuration_failure:
  "(\<not> startsWith (basename p) ''test-video'' \<and> \<not> startsWith (basename p) ''long-video'' \<longrightarrow>
      (map_of fs p = None \<longrightarrow> calculateRawVideoDuration fs p = Inl (ENOENT p)) \<and>
      (map_of fs p = Some [] \<longrightarrow> calculateRawVideoDuration fs p = Inr 0)) \<and>
   (startsWith (basename p) ''test-video'' \<longrightarrow> calculateRawVideoDuration fs p = Inr 5) \<and>
   (startsWith (basename p) ''long-video'' \<longrightarrow> calculateRawVideoDuration fs p = Inr 360) \<and>
   (map_of fs p \<noteq> None \<longrightarrow> (\<exists>d\<ge>0. calculateRawVideoDuration fs p = Inr d))"
  using long_video_not_test_video [of "basename p"] estimate_existing [of fs p]
  by (auto simp: calculateRawVideoDuration_def statSync_size_def Let_def
      TEST_VIDEO_DURATION_def LONG_VIDEO_DURATION_def)

theorem estimateDuration_failure_witness:
  "map_of [] ''uploads/17-5.raw'' = None \<and>
   calculateRawVideoDuration [] ''uploads/17-5.raw'' = Inl (ENOENT ''uploads/17-5.raw'') \<and>
   map_of [(''uploads/17-5.raw'', [])] ''uploads/17-5.raw'' = Some [] \<and>
   calculateRawVideoDuration [(''uploads/17-5.raw'', [])] ''uploads/17-5.raw'' = Inr 0 \<and>
   startsWith (basename ''uploads/long-video.raw'') ''long-video'' \<and>
   calculateRawVideoDuration [(''uploads/long-video.raw'', [])] ''uploads/long-video.raw'' = Inr 360"
  using estimateDuration_failure [of "''uploads/17-5.raw''" "[]"]
    estimateDuration_failure [of "''uploads/17-5.raw''" "[(''uploads/17-5.raw'', [])]"]
    estimateDuration_failure [of "''uploads/long-video.raw''" "[(''uploads/long-video.raw'', [])]"]
  by (simp add: basename_def startsWith_def)

text \<open>
  The claim as written fails on a reserved name: the file is missing and the estimate
  is 5, and the zero-byte file has the estimate 5, not 0.
\<close>

theorem estimateDuration_failure_counterexample:
  "map_of [] ''uploads/test-video.raw'' = None \<and>
   calculateRawVideoDuration [] ''uploads/test-video.raw'' = Inr 5 \<and>
   map_of [(''uploads/test-video.raw'', [])] ''uploads/test-video.raw'' = Some [] \<and>
   calculateRawVideoDuration [(''uploads/test-video.raw'', [])] ''uploads/test-video.raw'' = Inr 5"
  by (simp add: calculateRawVideoDuration_def basename_def startsWith_def TEST_VIDEO_DURATION_def)

section \<open>Upload\<close>

lemma map_of_delete_same: "map_of (AList.delete k al) k = None"
  by (simp add: delete_conv')

text \<open>
  C5. An uploaded file whose duration is over 300 seconds is rejected with status 400,
  the stored file is deleted and the catalog is unchanged; with a duration of at most 300
  seconds exactly one row is appended, holding the file's name, path, size in bytes and
  duration, and the file system is unchanged.
\<close>

theorem upload_duration_ceiling:
  assumes "map_of fs path = Some bytes" and "calculateRawVideoDuration fs path = Inr dur"
  shows "(dur > 300 \<longrightarrow>
           post_upload d fs (Some (path, name))
             = (Json_error 400 ''Video duration exceeds maximum allowed length (5 minutes)'',
                d, AList.delete path fs) \<and>
           map_of (AList.delete path fs) path = None) \<and>
         (dur \<le> 300 \<longrightarrow>
           post_upload d fs (Some (path, name))
             = (Json_video (lastInsertRowid d) name dur,
                d\<lparr>videos := videos d @
                   [\<lparr>id' = lastInsertRowid d, filename = name, filepath = path,
                     size' = length bytes, duration' = dur\<rparr>]\<rparr>,
                fs))"
  using assms
  by (simp add: post_upload_def statSync_size_def unlinkSync_def insert_video_def
      map_of_delete_same Let_def)

theorem upload_duration_ceiling_witness:
  "map_of [(''uploads/17-5.raw'', replicate 2073830400 0)] ''uploads/17-5.raw''
     = Some (replicate 2073830400 0) \<and>
   calculateRawVideoDuration [(''uploads/17-5.raw'', replicate 2073830400 0)] ''uploads/17-5.raw''
     = Inr (9001 / 30) \<and>
   post_upload \<lparr>videos = [], share_links = []\<rparr> [(''uploads/17-5.raw'', replicate 2073830400 0)]
       (Some (''uploads/17-5.raw'', ''17-5.raw''))
     = (Json_error 400 ''Video duration exceeds maximum allowed length (5 minutes)'',
        \<lparr>videos = [], share_links = []\<rparr>, []) \<and>
   calculateRawVideoDuration [(''uploads/18-6.raw'', replicate 2073600000 0)] ''uploads/18-6.raw''
     = Inr 300 \<and>
   post_upload \<lparr>videos = [], share_links = []\<rparr> [(''uploads/18-6.raw'', replicate 2073600000 0)]
       (Some (''uploads/18-6.raw'', ''18-6.raw''))
     = (Json_video 1 ''18-6.raw'' 300,
        \<lparr>videos = [\<lparr>id' = 1, filename = ''18-6.raw'', filepath = ''uploads/18-6.raw'',
                     size' = 2073600000, duration' = 300\<rparr>], share_links = []\<rparr>,
        [(''uploads/18-6.raw'', replicate 2073600000 0)])"
  using upload_duration_ceiling [of "[(''uploads/17-5.raw'', replicate 2073830400 0)]"
      "''uploads/17-5.raw''" "replicate 2073830400 0" "9001 / 30"
      "\<lparr>videos = [], share_links = []\<rparr>" "''17-5.raw''"]
    upload_duration_ceiling [of "[(''uploads/18-6.raw'', replicate 2073600000 0)]"
      "''uploads/18-6.raw''" "replicate 2073600000 0" "300"
      "\<lparr>videos = [], share_links = []\<rparr>" "''18-6.raw''"]
  by (simp add: estimate_cases basename_def startsWith_def lastInsertRowid_def)

section \<open>Merge requests that are refused\<close>

lemma select_videos_Inl:
  "select_videos d ids = Inl m \<Longrightarrow> find (\<lambda>i. select_video d i = None) ids = Some m"
  by (induction ids) (auto split: option.splits sum.splits)

lemma select_videos_Inr:
  "select_videos d ids = Inr vs \<Longrightarrow> i \<in> set ids \<Longrightarrow> select_video d i \<noteq> None"
  by (induction ids arbitrary: vs) (auto split: option.splits sum.splits)

lemma select_videos_missing:
  assumes "\<exists>i\<in>set ids. select_video d i = None"
  shows "\<exists>m. select_videos d ids = Inl m"
proof (cases "select_videos d ids")
  case (Inl m)
  then show ?thesis by blast
next
  case (Inr vs)
  with assms select_videos_Inr show ?thesis by blast
qed

lemma find_Some_set: "find P xs = Some x \<Longrightarrow> x \<in> set xs \<and> P x"
  by (induction xs) (auto split: if_splits)

text \<open>
  C6. A merge request with fewer than two identities is refused with status 400. With
  two or more, an identity with no row in the catalog makes the request fail with
  status 404 and a message naming the first such identity of the list. In both cases
  the catalog and the file system are as before: no row is added, no file is written.
\<close>

theorem merge_rejections:
  "(length ids < 2 \<longrightarrow>
      post_merge pf d fs now (Some ids)
        = (Json_error 400 ''Must provide at least two video IDs to merge'', d, fs)) \<and>
   (2 \<le> length ids \<and> (\<exists>i\<in>set ids. select_video d i = None) \<longrightarrow>
      (\<exists>m\<in>set ids. select_video d m = None \<and>
         find (\<lambda>i. select_video d i = None) ids = Some m \<and>
         post_merge pf d fs now (Some ids)
           = (Json_error 404 (''Video with ID '' @ string_of_nat m @ '' not found''), d, fs)))"
proof (intro conjI impI)
  assume "length ids < 2"
  then show "post_merge pf d fs now (Some ids)
        = (Json_error 400 ''Must provide at least two video IDs to merge'', d, fs)"
    by (simp add: post_merge_def)
next
  assume a: "2 \<le> length ids \<and> (\<exists>i\<in>set ids. select_video d i = None)"
  then obtain m where m: "select_videos d ids = Inl m"
    using select_videos_missing by blast
  have f: "find (\<lambda>i. select_video d i = None) ids = Some m"
    using m by (rule select_videos_Inl)
  have "post_merge pf d fs now (Some ids)
           = (Json_error 404 (''Video with ID '' @ string_of_nat m @ '' not found''), d, fs)"
    using a m by (simp add: post_merge_def)
  with f find_Some_set [OF f]
  show "\<exists>m\<in>set ids. select_video d m = None \<and>
         find (\<lambda>i. select_video d i = None) ids = Some m \<and>
         post_merge pf d fs now (Some ids)
           = (Json_error 404 (''Video with ID '' @ string_of_nat m @ '' not found''), d, fs)"
    by blast
qed

theorem merge_rejections_witness:
  "length [1::nat] < 2 \<and>
   post_merge linux_platform \<lparr>videos = [\<lparr>id' = 1, filename = ''a.raw'', filepath = ''uploads/a.raw'',
                   size' = 0, duration' = 0\<rparr>], share_links = []\<rparr>
       [(''uploads/a.raw'', [])] 1700000000000 (Some [1])
     = (Json_error 400 ''Must provide at least two video IDs to merge'',
        \<lparr>videos = [\<lparr>id' = 1, filename = ''a.raw'', filepath = ''uploads/a.raw'',
                   size' = 0, duration' = 0\<rparr>], share_links = []\<rparr>,
        [(''uploads/a.raw'', [])]) \<and>
   select_video \<lparr>videos = [\<lparr>id' = 1, filename = ''a.raw'', filepath = ''uploads/a.raw'',
                   size' = 0, duration' = 0\<rparr>], share_links = []\<rparr> 42 = None \<and>
   post_merge linux_platform \<lparr>videos = [\<lparr>id' = 1, filename = ''a.raw'', filepath = ''uploads/a.raw'',
                   size' = 0, duration' = 0\<rparr>], share_links = []\<rparr>
       [(''uploads/a.raw'', [])] 1700000000000 (Some [1, 42, 7])
     = (Json_error 404 ''Video with ID 42 not found'',
        \<lparr>videos = [\<lparr>id' = 1, filename = ''a.raw'', filepath = ''uploads/a.raw'',
                   size' = 0, duration' = 0\<rparr>], share_links = []\<rparr>,
        [(''uploads/a.raw'', [])])"
  using merge_rejections [of "[1]" linux_platform
      "\<lparr>videos = [\<lparr>id' = 1, filename = ''a.raw'', filepath = ''uploads/a.raw'',
                   size' = 0, duration' = 0\<rparr>], share_links = []\<rparr>"
      "[(''uploads/a.raw'', [])]" 1700000000000]
    merge_rejections [of "[1, 42, 7]" linux_platform
      "\<lparr>videos = [\<lparr>id' = 1, filename = ''a.raw'', filepath = ''uploads/a.raw'',
                   size' = 0, duration' = 0\<rparr>], share_links = []\<rparr>"
      "[(''uploads/a.raw'', [])]" 1700000000000]
  by (simp add: select_video_def string_of_nat.simps)

section \<open>Share links\<close>

lemma sqlite_datetime_range:
  "sqlite_datetime t \<noteq> None \<longleftrightarrow> - 62167219200000 \<le> t \<and> t \<le> 253402300799999"
  by (simp add: sqlite_datetime_def)

lemma sqlite_datetime_Some:
  "sqlite_datetime t \<noteq> None \<Longrightarrow> sqlite_datetime t = Some (t div 1000)"
  by (simp add: sqlite_datetime_def split: if_splits)

lemma select_share_Nil:
  assumes "sqlite_datetime now \<noteq> None"
  shows "select_share d now tok = [] \<longleftrightarrow>
     (\<forall>l\<in>set (share_links d).
        token l = tok \<and> (\<exists>v\<in>set (videos d). id' v = video_id l)
          \<and> sqlite_datetime (expiry_timestamp l) \<noteq> None
          \<longrightarrow> expiry_timestamp l div 1000 \<le> now div 1000)"
  using sqlite_datetime_Some [OF assms]
  by (auto simp: select_share_def filter_empty_conv not_less sqlite_datetime_def
      split: option.splits if_splits)

lemma select_share_no_clock:
  assumes "sqlite_datetime now = None"
  shows "select_share d now tok = []"
  using assms by (simp add: select_share_def split: option.splits)

lemma get_share_404:
  "get_share d now tok = Json_error 404 ''Share link not found or expired''
     \<longleftrightarrow> select_share d now tok = []"
  by (simp add: get_share_def split: list.splits prod.splits)

lemma get_share_stream:
  "select_share d now tok \<noteq> [] \<Longrightarrow> \<exists>f p. get_share d now tok = Video_stream f p"
  by (simp add: get_share_def split: list.splits prod.splits)

text \<open>
  C4, as the program has it. The query compares the two instants as
  \<^verbatim>\<open>datetime()\<close> prints them: in whole seconds, and only for instants of the
  years 0000 to 9999, from \<open>-62167219200000\<close> to \<open>253402300799999\<close> milliseconds.
  With the clock in this range, resolving a token fails with status 404 exactly when
  every share link with this token whose video is in the catalog and whose expiry is in
  the range has an expiry second at or before the current second (in particular when
  no link has the token). A token whose expiry is in the range and at least one second
  ahead resolves. The comparison is made on each request against the clock of that
  request, nothing is stored, and a token that failed to resolve fails at every later
  time. A link whose expiry is out of the range never resolves.
\<close>

theorem share_resolution:
  "(sqlite_datetime t \<noteq> None \<longleftrightarrow> - 62167219200000 \<le> t \<and> t \<le> 253402300799999) \<and>
   (sqlite_datetime now \<noteq> None \<longrightarrow>
      (get_share d now tok = Json_error 404 ''Share link not found or expired'' \<longleftrightarrow>
         (\<forall>l\<in>set (share_links d).
            token l = tok \<and> (\<exists>v\<in>set (videos d). id' v = video_id l)
              \<and> sqlite_datetime (expiry_timestamp l) \<noteq> None
              \<longrightarrow> expiry_timestamp l div 1000 \<le> now div 1000)) \<and>
      ((\<exists>l\<in>set (share_links d).
           token l = tok \<and> (\<exists>v\<in>set (videos d). id' v = video_id l)
             \<and> sqlite_datetime (expiry_timestamp l) \<noteq> None
             \<and> now + 1000 \<le> expiry_timestamp l)
         \<longrightarrow> (\<exists>f p. get_share d now tok = Video_stream f p)) \<and>
      (get_share d now tok = Json_error 404 ''Share link not found or expired'' \<and> now \<le> now'
         \<longrightarrow> get_share d now' tok = Json_error 404 ''Share link not found or expired'')) \<and>
   (sqlite_datetime now = None \<longrightarrow>
      get_share d now tok = Json_error 404 ''Share link not found or expired'')"
proof (intro conjI impI)
  show "sqlite_datetime t \<noteq> None \<longleftrightarrow> - 62167219200000 \<le> t \<and> t \<le> 253402300799999"
    by (rule sqlite_datetime_range)
next
  assume clock: "sqlite_datetime now \<noteq> None"
  show "get_share d now tok = Json_error 404 ''Share link not found or expired'' \<longleftrightarrow>
      (\<forall>l\<in>set (share_links d).
         token l = tok \<and> (\<exists>v\<in>set (videos d). id' v = video_id l)
           \<and> sqlite_datetime (expiry_timestamp l) \<noteq> None
           \<longrightarrow> expiry_timestamp l div 1000 \<le> now div 1000)"
    by (simp only: get_share_404 select_share_Nil [OF clock])
next
  assume clock: "sqlite_datetime now \<noteq> None"
  assume "\<exists>l\<in>set (share_links d).
        token l = tok \<and> (\<exists>v\<in>set (videos d). id' v = video_id l)
          \<and> sqlite_datetime (expiry_timestamp l) \<noteq> None
          \<and> now + 1000 \<le> expiry_timestamp l"
  then obtain l where l: "l \<in> set (share_links d)" "token l = tok"
      "\<exists>v\<in>set (videos d). id' v = video_id l"
      "sqlite_datetime (expiry_timestamp l) \<noteq> None" "now + 1000 \<le> expiry_timestamp l"
    by blast
  have "(now + 1000) div 1000 \<le> expiry_timestamp l div 1000"
    using l(5) by (rule zdiv_mono1) simp
  then have "\<not> expiry_timestamp l div 1000 \<le> now div 1000"
    by simp
  with l have "select_share d now tok \<noteq> []"
    unfolding select_share_Nil [OF clock] by blast
  then show "\<exists>f p. get_share d now tok = Video_stream f p"
    by (rule get_share_stream)
next
  assume clock: "sqlite_datetime now \<noteq> None"
  assume a: "get_share d now tok = Json_error 404 ''Share link not found or expired''
    \<and> now \<le> now'"
  show "get_share d now' tok = Json_error 404 ''Share link not found or expired''"
  proof (cases "sqlite_datetime now' = None")
    case True
    then show ?thesis
      by (simp add: get_share_404 select_share_no_clock)
  next
    case False
    from a have "now div 1000 \<le> now' div 1000"
      by (simp add: zdiv_mono1)
    moreover have "select_share d now tok = []"
      using a by (simp add: get_share_404)
    ultimately have "select_share d now' tok = []"
      unfolding select_share_Nil [OF clock] select_share_Nil [OF False] by force
    then show ?thesis
      by (simp add: get_share_404)
  qed
next
  assume "sqlite_datetime now = None"
  then show "get_share d now tok = Json_error 404 ''Share link not found or expired''"
    by (simp add: get_share_404 select_share_no_clock)
qed

text \<open>
  A link expiring on 2023-11-15 at 22:13:20.500 resolves a second before and fails a
  second after; an unknown token fails; a link expiring in the first second of the year
  10000 fails while it has a year to go.
\<close>

theorem share_resolution_witness:
  "sqlite_datetime 1700086399500 \<noteq> None \<and>
   get_share
     \<lparr>videos = [\<lparr>id' = 1, filename = ''17-5.raw'', filepath = ''uploads/17-5.raw'',
                 size' = 691200, duration' = 1 / 10\<rparr>],
      share_links = [\<lparr>video_id = 1, token = ''1700000000000-k3j9x'',
                      expiry_timestamp = 1700086400500\<rparr>]\<rparr>
     1700086399500 ''1700000000000-k3j9x''
     = Video_stream ''17-5.raw'' ''uploads/17-5.raw'' \<and>
   get_share
     \<lparr>videos = [\<lparr>id' = 1, filename = ''17-5.raw'', filepath = ''uploads/17-5.raw'',
                 size' = 691200, duration' = 1 / 10\<rparr>],
      share_links = [\<lparr>video_id = 1, token = ''1700000000000-k3j9x'',
                      expiry_timestamp = 1700086400500\<rparr>]\<rparr>
     1700086401500 ''1700000000000-k3j9x''
     = Json_error 404 ''Share link not found or expired'' \<and>
   get_share
     \<lparr>videos = [\<lparr>id' = 1, filename = ''17-5.raw'', filepath = ''uploads/17-5.raw'',
                 size' = 691200, duration' = 1 / 10\<rparr>],
      share_links = [\<lparr>video_id = 1, token = ''1700000000000-k3j9x'',
                      expiry_timestamp = 1700086400500\<rparr>]\<rparr>
     1700086399500 ''unknown''
     = Json_error 404 ''Share link not found or expired'' \<and>
   sqlite_datetime 253370764800000 \<noteq> None \<and>
   sqlite_datetime 253402300800000 = None \<and>
   get_share
     \<lparr>videos = [\<lparr>id' = 1, filename = ''17-5.raw'', filepath = ''uploads/17-5.raw'',
                 size' = 691200, duration' = 1 / 10\<rparr>],
      share_links = [\<lparr>video_id = 1, token = ''1700000000000-k3j9x'',
                      expiry_timestamp = 253402300800000\<rparr>]\<rparr>
     253370764800000 ''1700000000000-k3j9x''
     = Json_error 404 ''Share link not found or expired''"
  using share_resolution [of 1700086399500 1700086399500
     "\<lparr>videos = [\<lparr>id' = 1, filename = ''17-5.raw'', filepath = ''uploads/17-5.raw'',
                 size' = 691200, duration' = 1 / 10\<rparr>],
      share_links = [\<lparr>video_id = 1, token = ''1700000000000-k3j9x'',
                      expiry_timestamp = 1700086400500\<rparr>]\<rparr>"
     "''1700000000000-k3j9x''" 1700086401500]
   share_resolution [of 1700086399500 1700086399500
     "\<lparr>videos = [\<lparr>id' = 1, filename = ''17-5.raw'', filepath = ''uploads/17-5.raw'',
                 size' = 691200, duration' = 1 / 10\<rparr>],
      share_links = [\<lparr>video_id = 1, token = ''1700000000000-k3j9x'',
                      expiry_timestamp = 1700086400500\<rparr>]\<rparr>"
     "''unknown''" 1700086401500]
   share_resolution [of 253402300800000 253370764800000
     "\<lparr>videos = [\<lparr>id' = 1, filename = ''17-5.raw'', filepath = ''uploads/17-5.raw'',
                 size' = 691200, duration' = 1 / 10\<rparr>],
      share_links = [\<lparr>video_id = 1, token = ''1700000000000-k3j9x'',
                      expiry_timestamp = 253402300800000\<rparr>]\<rparr>"
     "''1700000000000-k3j9x''" 253370764800000]
  by (simp add: get_share_def select_share_def sqlite_datetime_def)

text \<open>
  The claim as written fails within the second of the expiry: at 100 ms past the second
  a token expiring at 500 ms past the same second is strictly before its expiry, and
  is refused.
\<close>

theorem share_resolution_counterexample:
  "(1700086400100 :: int) < 1700086400500 \<and>
   get_share
     \<lparr>videos = [\<lparr>id' = 1, filename = ''17-5.raw'', filepath = ''uploads/17-5.raw'',
                 size' = 691200, duration' = 1 / 10\<rparr>],
      share_links = [\<lparr>video_id = 1, token = ''1700000000000-k3j9x'',
                      expiry_timestamp = 1700086400500\<rparr>]\<rparr>
     1700086400100 ''1700000000000-k3j9x''
     = Json_error 404 ''Share link not found or expired''"
  by (simp add: get_share_def select_share_def sqlite_datetime_def)

section \<open>Arithmetic of doubles\<close>

lemma rne_of_int [simp]: "rne (of_int z) = z"
  by (simp add: rne_def)

lemma rne_near: "\<bar>of_int (rne x) - x\<bar> \<le> 1 / 2"
proof -
  have "of_int \<lfloor>x\<rfloor> \<le> x" "x < of_int \<lfloor>x\<rfloor> + 1"
    by linarith+
  then show ?thesis
    by (auto simp: rne_def Let_def abs_le_iff)
qed

lemma rne_nonneg: "0 \<le> x \<Longrightarrow> 0 \<le> rne x"
  by (auto simp: rne_def Let_def)

lemma of_int_le_pow2: "z \<le> 2 ^ n \<Longrightarrow> (of_int z :: rat) \<le> 2 ^ n" for z :: int
  using of_int_le_iff [of z "2 ^ n", where ?'a = rat] by simp

lemma pow2_le_of_int: "2 ^ n \<le> z \<Longrightarrow> (2::rat) ^ n \<le> of_int z" for z :: int
  using of_int_le_iff [of "2 ^ n" z, where ?'a = rat] by simp

lemma bitlen_pos: "0 < z \<Longrightarrow> 1 \<le> bitlen z"
  using bitlen_eq_zero_iff [of z] bitlen_nonneg [of z] by linarith

lemma ilog2_bounds:
  assumes "0 < a"
  shows "2 powi ilog2 a \<le> a \<and> a < 2 powi (ilog2 a + 1)"
proof (cases "1 \<le> a")
  case True
  define z where "z = \<lfloor>a\<rfloor>"
  have pos: "0 < z" using True unfolding z_def by linarith
  from bitlen_bounds [OF pos] have lo: "2 ^ nat (bitlen z - 1) \<le> z"
    and hi: "z < 2 ^ nat (bitlen z)" by auto
  note b1 = bitlen_pos [OF pos]
  have "of_int z \<le> a" unfolding z_def by simp
  with pow2_le_of_int [OF lo] have l: "(2::rat) ^ nat (bitlen z - 1) \<le> a"
    by linarith
  have "z + 1 \<le> 2 ^ nat (bitlen z)"
    using hi by simp
  from of_int_le_pow2 [OF this] have "(of_int z :: rat) + 1 \<le> 2 ^ nat (bitlen z)"
    by simp
  moreover have "a < of_int z + 1" unfolding z_def by linarith
  ultimately have h: "a < (2::rat) ^ nat (bitlen z)"
    by linarith
  have "ilog2 a = bitlen z - 1"
    using True by (simp add: ilog2_def z_def)
  then show ?thesis
    using l h b1 by (simp add: power_int_def)
next
  case False
  with assms have a: "0 < a" "a < 1" by auto
  define y where "y = 1 / a"
  define z where "z = \<lceil>y\<rceil> - 1"
  have y1: "1 < y" using a unfolding y_def by simp
  then have zpos: "0 < z" unfolding z_def by linarith
  from bitlen_bounds [OF zpos] have lo: "2 ^ nat (bitlen z - 1) \<le> z"
    and hi: "z < 2 ^ nat (bitlen z)" by auto
  note b1 = bitlen_pos [OF zpos]
  have zy: "of_int z < y" "y \<le> of_int z + 1"
    unfolding z_def by linarith+
  have "z + 1 \<le> 2 ^ nat (bitlen z)" using hi by simp
  from of_int_le_pow2 [OF this] have "(of_int z :: rat) + 1 \<le> 2 ^ nat (bitlen z)"
    by simp
  with zy(2) have yle: "y \<le> 2 ^ nat (bitlen z)"
    by linarith
  from pow2_le_of_int [OF lo] zy(1) have ylt: "2 ^ nat (bitlen z - 1) < y"
    by linarith
  have ay: "a = 1 / y" unfolding y_def by simp
  have ypos: "0 < y" using y1 by simp
  have p: "(0::rat) < 2 ^ nat (bitlen z)" "(0::rat) < 2 ^ nat (bitlen z - 1)" by simp_all
  have "1 / 2 ^ nat (bitlen z) \<le> 1 / y"
    by (rule divide_left_mono [OF yle _ mult_pos_pos [OF p(1) ypos]]) simp
  then have l: "1 / 2 ^ nat (bitlen z) \<le> a"
    by (simp only: ay)
  have "1 / y < 1 / 2 ^ nat (bitlen z - 1)"
    by (rule divide_strict_left_mono [OF ylt _ mult_pos_pos [OF ypos p(2)]]) simp
  then have h: "a < 1 / 2 ^ nat (bitlen z - 1)"
    by (simp only: ay)
  have e1: "(2::rat) powi (- bitlen z) = 1 / 2 ^ nat (bitlen z)"
    using b1 by (simp add: power_int_def inverse_eq_divide power_one_over)
  have "(2::rat) powi (- (bitlen z - 1)) = 1 / 2 ^ nat (bitlen z - 1)"
    using b1 by (simp add: power_int_def inverse_eq_divide power_one_over)
  then have e2: "(2::rat) powi (- bitlen z + 1) = 1 / 2 ^ nat (bitlen z - 1)"
    by simp
  have "ilog2 a = - bitlen z"
    using False by (simp add: ilog2_def z_def y_def)
  then show ?thesis
    using l h e1 e2 by simp
qed


lemma ilog2_unique:
  assumes "0 < a" "2 powi e \<le> a" "a < 2 powi (e + 1)"
  shows "ilog2 a = e"
proof (rule ccontr)
  assume ne: "ilog2 a \<noteq> e"
  from ilog2_bounds [OF assms(1)]
  have b: "2 powi ilog2 a \<le> a" "a < 2 powi (ilog2 a + 1)" by auto
  show False
  proof (cases "ilog2 a < e")
    case True
    then have "ilog2 a + 1 \<le> e" by simp
    then have "(2::rat) powi (ilog2 a + 1) \<le> 2 powi e"
      by (rule power_int_increasing) simp
    with b(2) assms(2) show False by linarith
  next
    case False
    with ne have "e + 1 \<le> ilog2 a" by simp
    then have "(2::rat) powi (e + 1) \<le> 2 powi ilog2 a"
      by (rule power_int_increasing) simp
    with b(1) assms(3) show False by linarith
  qed
qed

lemma round_double_normal:
  assumes "2 powi e \<le> \<bar>x\<bar>" "\<bar>x\<bar> < 2 powi (e + 1)" "- 1022 \<le> e"
  shows "round_double x =
     (let r = of_int (rne (\<bar>x\<bar> / 2 powi (e - 52))) * 2 powi (e - 52)
      in if 2 ^ 1024 \<le> r then (if 0 < x then PInf else NInf) else Finite (sgn x * r))"
proof -
  have "(0::rat) < 2 powi e" by simp
  with assms(1) have pos: "0 < \<bar>x\<bar>" by linarith
  then have nz: "x \<noteq> 0" by simp
  have i: "ilog2 \<bar>x\<bar> = e"
    by (rule ilog2_unique [OF pos assms(1,2)])
  have "max (e - 52) (- 1074) = e - 52"
    using assms(3) by simp
  then show ?thesis
    using nz by (simp add: round_double_def i Let_def)
qed

lemma round_double_of_int:
  assumes "\<bar>n\<bar> < 2 ^ 53"
  shows "round_double (of_int n) = Finite (of_int n)"
proof (cases "n = 0")
  case True
  then show ?thesis by (simp add: round_double_def)
next
  case False
  define a :: rat where "a = \<bar>of_int n\<bar>"
  have a: "a = of_int \<bar>n\<bar>" by (simp add: a_def)
  have a1: "1 \<le> a" using False unfolding a by simp
  have "\<bar>n\<bar> \<le> 2 ^ 53 - 1" using assms by simp
  then have "(of_int \<bar>n\<bar> :: rat) \<le> of_int (2 ^ 53 - 1)"
    by (simp only: of_int_le_iff)
  then have a53: "a < 2 ^ 53" unfolding a by simp
  define i where "i = ilog2 a"
  from ilog2_bounds [of a] a1
  have b: "2 powi i \<le> a" "a < 2 powi (i + 1)" by (auto simp: i_def)
  have i0: "0 \<le> i"
  proof (rule ccontr)
    assume "\<not> 0 \<le> i"
    then have "i + 1 \<le> 0" by simp
    then have "(2::rat) powi (i + 1) \<le> 2 powi 0"
      by (rule power_int_increasing) simp
    with b(2) a1 show False by simp
  qed
  have i52: "i \<le> 52"
  proof (rule ccontr)
    assume "\<not> i \<le> 52"
    then have "53 \<le> i" by simp
    then have "(2::rat) powi 53 \<le> 2 powi i"
      by (rule power_int_increasing) simp
    with b(1) a53 show False by simp
  qed
  define k where "k = nat (52 - i)"
  have ik: "i - 52 = - int k" using i52 by (simp add: k_def)
  have p: "(2::rat) powi (i - 52) = inverse (2 ^ k)"
    unfolding ik by (simp add: power_int_minus)
  have q: "a / 2 powi (i - 52) = of_int (\<bar>n\<bar> * 2 ^ k)"
    unfolding p a by (simp add: divide_inverse)
  have r: "of_int (rne (a / 2 powi (i - 52))) * 2 powi (i - 52) = a"
    unfolding q rne_of_int unfolding p a by simp
  have big: "\<not> (2::rat) ^ 1024 \<le> a"
  proof -
    have "(2::rat) ^ 53 \<le> 2 ^ 1024"
      by (rule power_increasing) simp_all
    with a53 show ?thesis by linarith
  qed
  have "round_double (of_int n) = Finite (sgn (of_int n) * a)"
    using round_double_normal [of i "of_int n"] b i0 big
    by (simp add: a_def [symmetric] r Let_def)
  also have "sgn (of_int n :: rat) * a = of_int n"
    unfolding a_def by (simp add: sgn_mult_abs)
  finally show ?thesis .
qed

lemma round_double_bound:
  assumes "round_double x = Finite y"
  shows "\<bar>x\<bar> \<le> 2 * \<bar>y\<bar> + 1"
proof (cases "x = 0")
  case True
  then show ?thesis by simp
next
  case False
  define a where "a = \<bar>x\<bar>"
  have apos: "0 < a" using False by (simp add: a_def)
  define i where "i = ilog2 a"
  define e where "e = max (i - 52) (- 1074)"
  define m where "m = rne (a / 2 powi e)"
  define r :: rat where "r = of_int m * 2 powi e"
  have pe: "(0::rat) < 2 powi e" by simp
  have "0 \<le> a / 2 powi e" using apos by simp
  then have m0: "0 \<le> m" unfolding m_def by (rule rne_nonneg)
  then have r0: "0 \<le> r" unfolding r_def by simp
  have rd: "round_double x =
      (if 2 ^ 1024 \<le> r then (if 0 < x then PInf else NInf) else Finite (sgn x * r))"
    using False
    by (simp add: round_double_def Let_def a_def [symmetric] i_def [symmetric]
        e_def [symmetric] m_def [symmetric] r_def [symmetric])
  with assms have y: "y = sgn x * r"
    by (auto split: if_splits)
  have ay: "\<bar>y\<bar> = r"
    unfolding y using False r0 by (simp add: abs_mult abs_sgn_eq)
  from rne_near [of "a / 2 powi e"] have "a / 2 powi e \<le> of_int m + 1 / 2"
    unfolding m_def by linarith
  then have "a / 2 powi e * 2 powi e \<le> (of_int m + 1 / 2) * 2 powi e"
    using pe by (simp only: mult_le_cancel_right_pos)
  then have le: "a \<le> r + 2 powi e / 2"
    by (simp add: r_def algebra_simps)
  from ilog2_bounds [OF apos] have lo: "2 powi i \<le> a"
    by (simp add: i_def)
  have "2 powi e \<le> a + 1"
  proof (cases "- 1074 \<le> i - 52")
    case True
    then have "e = i - 52" by (simp add: e_def)
    then have "(2::rat) powi e \<le> 2 powi i"
      by (simp add: power_int_increasing)
    with lo show ?thesis by linarith
  next
    case False
    then have "e = - 1074" by (simp add: e_def)
    then have "e \<le> 0" by simp
    then have "(2::rat) powi e \<le> 2 powi 0"
      by (rule power_int_increasing) simp
    with apos show ?thesis by simp
  qed
  with le have "a \<le> 2 * r + 1" by linarith
  then show ?thesis
    by (simp add: a_def ay)
qed


text \<open>How far a number is from the double nearest to it.\<close>

lemma round_double_error:
  assumes "x \<noteq> 0"
  shows "\<exists>r\<ge>0.
      round_double x
        = (if 2 ^ 1024 \<le> r then (if 0 < x then PInf else NInf) else Finite (sgn x * r)) \<and>
      \<bar>r - \<bar>x\<bar>\<bar> \<le> \<bar>x\<bar> / 2 ^ 53 + 1"
proof -
  define a where "a = \<bar>x\<bar>"
  have apos: "0 < a" using assms by (simp add: a_def)
  define i where "i = ilog2 a"
  define e where "e = max (i - 52) (- 1074)"
  define m where "m = rne (a / 2 powi e)"
  define r :: rat where "r = of_int m * 2 powi e"
  have pe: "(0::rat) < 2 powi e" by simp
  have "0 \<le> a / 2 powi e" using apos by simp
  then have m0: "0 \<le> m" unfolding m_def by (rule rne_nonneg)
  then have r0: "0 \<le> r" unfolding r_def by simp
  have rd: "round_double x =
      (if 2 ^ 1024 \<le> r then (if 0 < x then PInf else NInf) else Finite (sgn x * r))"
    using assms
    by (simp add: round_double_def Let_def a_def [symmetric] i_def [symmetric]
        e_def [symmetric] m_def [symmetric] r_def [symmetric])
  from rne_near [of "a / 2 powi e"] have "\<bar>of_int m - a / 2 powi e\<bar> \<le> 1 / 2"
    unfolding m_def .
  then have "\<bar>of_int m - a / 2 powi e\<bar> * 2 powi e \<le> 1 / 2 * 2 powi e"
    using pe by (simp only: mult_le_cancel_right_pos)
  moreover have "\<bar>of_int m - a / 2 powi e\<bar> * 2 powi e = \<bar>r - a\<bar>"
  proof -
    have "\<bar>of_int m - a / 2 powi e\<bar> * 2 powi e = \<bar>(of_int m - a / 2 powi e) * 2 powi e\<bar>"
      using pe by (simp add: abs_mult)
    also have "(of_int m - a / 2 powi e) * 2 powi e = r - a"
      by (simp add: r_def algebra_simps)
    finally show ?thesis .
  qed
  ultimately have err: "\<bar>r - a\<bar> \<le> 2 powi e / 2"
    by simp
  from ilog2_bounds [OF apos] have lo: "2 powi i \<le> a"
    by (simp add: i_def)
  have "2 powi e / 2 \<le> a / 2 ^ 53 + 1"
  proof (cases "- 1074 \<le> i - 52")
    case True
    then have "e = i - 52" by (simp add: e_def)
    then have "(2::rat) powi e = 2 powi i / 2 ^ 52"
      by (simp add: power_int_diff)
    with lo have "(2::rat) powi e / 2 \<le> a / 2 ^ 53"
      by simp
    then show ?thesis by linarith
  next
    case False
    then have "e = - 1074" by (simp add: e_def)
    then have "e \<le> 0" by simp
    then have "(2::rat) powi e \<le> 2 powi 0"
      by (rule power_int_increasing) simp
    moreover have "0 \<le> a / 2 ^ 53"
      using apos by simp
    ultimately show ?thesis by simp
  qed
  with err have "\<bar>r - a\<bar> \<le> a / 2 ^ 53 + 1"
    by linarith
  with r0 rd show ?thesis
    unfolding a_def by blast
qed

lemma round_double_Finite_less:
  assumes "round_double x = Finite y"
  shows "\<bar>y\<bar> < 2 ^ 1024 \<and> \<bar>y\<bar> \<le> 2 * \<bar>x\<bar> + 1"
proof (cases "x = 0")
  case True
  with assms show ?thesis by (simp add: round_double_def)
next
  case False
  from round_double_error [OF False] obtain r where r: "0 \<le> r"
    "round_double x
      = (if 2 ^ 1024 \<le> r then (if 0 < x then PInf else NInf) else Finite (sgn x * r))"
    "\<bar>r - \<bar>x\<bar>\<bar> \<le> \<bar>x\<bar> / 2 ^ 53 + 1"
    by blast
  from assms r(2) have small: "r < 2 ^ 1024" and y: "y = sgn x * r"
    by (auto split: if_splits)
  have ay: "\<bar>y\<bar> = r"
    unfolding y using False r(1) by (simp add: abs_mult abs_sgn_eq)
  have "\<bar>x\<bar> / 2 ^ 53 \<le> \<bar>x\<bar>"
    by (simp add: divide_le_eq)
  with r(3) have "r \<le> 2 * \<bar>x\<bar> + 1"
    by linarith
  with small ay show ?thesis by simp
qed

lemma round_double_PInf:
  assumes "round_double x = PInf"
  shows "2 ^ 1023 \<le> x"
proof -
  have nz: "x \<noteq> 0"
    using assms by (auto simp: round_double_def)
  from round_double_error [OF nz] obtain r where r: "0 \<le> r"
    "round_double x
      = (if 2 ^ 1024 \<le> r then (if 0 < x then PInf else NInf) else Finite (sgn x * r))"
    "\<bar>r - \<bar>x\<bar>\<bar> \<le> \<bar>x\<bar> / 2 ^ 53 + 1"
    by blast
  from assms r(2) have big: "2 ^ 1024 \<le> r" and pos: "0 < x"
    by (auto split: if_splits)
  define Q :: rat where "Q = 2 ^ 1023"
  have Q2: "2 \<le> Q"
    unfolding Q_def by simp
  have P: "(2::rat) ^ 1024 = 2 * Q"
    unfolding Q_def by simp
  have "x / 2 ^ 53 \<le> x / 2"
    using pos by (simp add: field_simps)
  with r(3) pos have "r \<le> x + x / 2 + 1"
    by linarith
  with big P Q2 have "Q \<le> x"
    by linarith
  then show ?thesis
    unfolding Q_def .
qed

lemma round_double_0 [simp]: "round_double 0 = Finite 0"
  by (simp add: round_double_def)

lemma round_double_1 [simp]: "round_double 1 = Finite 1"
  using round_double_of_int [of 1] by simp

lemma round_double_numeral [simp]:
  "(numeral k :: int) < 2 ^ 53 \<Longrightarrow> round_double (numeral k) = Finite (numeral k)"
  using round_double_of_int [of "numeral k"] by simp

lemma round_double_neg_numeral [simp]:
  "(numeral k :: int) < 2 ^ 53 \<Longrightarrow> round_double (- numeral k) = Finite (- numeral k)"
  using round_double_of_int [of "- numeral k"] by simp

lemma round_double_of_nat:
  "n < 2 ^ 53 \<Longrightarrow> round_double (of_nat n) = Finite (of_nat n)"
  using round_double_of_int [of "int n"] by simp

lemma floor_rat_numeral [simp]:
  "\<lfloor>numeral a / numeral b :: rat\<rfloor> = numeral a div numeral b"
  by (metis floor_divide_of_int_eq of_int_numeral)

text \<open>What a finite result says of the operands.\<close>

lemma fneg_Finite: "fneg x = Finite y \<Longrightarrow> x = Finite (- y)"
  by (cases x) auto

lemma fadd_Finite:
  "fadd x y = Finite z \<Longrightarrow> \<exists>a b. x = Finite a \<and> y = Finite b \<and> round_double (a + b) = Finite z"
  by (cases x; cases y) auto

lemma fsub_Finite:
  "fsub x y = Finite z \<Longrightarrow> \<exists>a b. x = Finite a \<and> y = Finite b \<and> round_double (a - b) = Finite z"
  unfolding fsub_def by (cases x; cases y) auto

lemma fmul_Finite:
  "fmul x y = Finite z \<Longrightarrow> \<exists>a b. x = Finite a \<and> y = Finite b \<and> round_double (a * b) = Finite z"
  by (cases x; cases y) (auto split: if_splits)

lemma Math_floor_Finite:
  "Math_floor x = Finite z \<Longrightarrow> \<exists>a. x = Finite a \<and> z = of_int \<lfloor>a\<rfloor>"
  by (cases x) auto

lemma fsub_ints:
  "\<bar>a - b\<bar> < 2 ^ 53 \<Longrightarrow> fsub (Finite (of_int a)) (Finite (of_int b)) = Finite (of_int (a - b))"
  using round_double_of_int [of "a - b"] by (simp add: fsub_def)

lemma fmul_ints:
  "\<bar>a * b\<bar> < 2 ^ 53 \<Longrightarrow> fmul (Finite (of_int a)) (Finite (of_int b)) = Finite (of_int (a * b))"
  using round_double_of_int [of "a * b"] by simp


lemma toInteger_of_int [simp]: "toInteger (Finite (of_int z)) d = z"
  by (simp add: toInteger_def)

lemma toInteger_0 [simp]: "toInteger (Finite 0) d = 0"
  by (simp add: toInteger_def)

lemma size_exact:
  assumes m: "fmul (fsub (Finite (of_int e)) (Finite (of_int s))) (Finite 230400) = Finite z"
    and z: "\<bar>z\<bar> < 2 ^ 32"
  shows "z = of_int ((e - s) * 230400)"
proof -
  from fmul_Finite [OF m] obtain y where
    y: "fsub (Finite (of_int e)) (Finite (of_int s)) = Finite y"
    and yz: "round_double (y * 230400) = Finite z"
    by auto
  from fsub_Finite [OF y] have d: "round_double (of_int e - of_int s) = Finite y"
    by auto
  from round_double_bound [OF yz] z have "\<bar>y * 230400\<bar> < 2 ^ 34"
    by simp
  then have "\<bar>y\<bar> * 230400 < 2 ^ 34"
    by (simp add: abs_mult)
  then have yb: "\<bar>y\<bar> < 2 ^ 17"
    by simp
  from round_double_bound [OF d] yb have "\<bar>(of_int e :: rat) - of_int s\<bar> < 2 ^ 19"
    by simp
  then have "(of_int \<bar>e - s\<bar> :: rat) < of_int (2 ^ 19)"
    by simp
  then have es: "\<bar>e - s\<bar> < 2 ^ 19"
    by (simp only: of_int_less_iff)
  then have "\<bar>e - s\<bar> < 2 ^ 53"
    by simp
  from round_double_of_int [OF this] d have y': "y = of_int (e - s)"
    by simp
  have "\<bar>(e - s) * 230400\<bar> = \<bar>e - s\<bar> * 230400"
    by (simp only: abs_mult)
  with es have "\<bar>(e - s) * 230400\<bar> < 2 ^ 53"
    by simp
  from round_double_of_int [OF this] yz show ?thesis
    unfolding y' by simp
qed

section \<open>Buffers and files\<close>

lemma copy_bytes_fresh:
  assumes "s \<le> e"
  shows "copy_bytes source (replicate (nat (e - s)) 0) 0 s e =
     (if s < 0 \<or> int (length source) < s then Inl ERR_OUT_OF_RANGE
      else Inr (take (nat (e - s)) (drop (nat s) source)
                @ replicate (nat (e - s) - (length source - nat s)) 0))"
proof (cases "s < 0 \<or> int (length source) < s")
  case True
  then show ?thesis by (auto simp: copy_bytes_def)
next
  case False
  then have s: "0 \<le> s" "s \<le> int (length source)" by auto
  show ?thesis
  proof (cases "s = e")
    case True
    with s show ?thesis by (simp add: copy_bytes_def)
  next
    case ne: False
    with assms have lt: "s < e" by simp
    let ?nb = "min (e - s) (int (length source) - s)"
    have nb: "take (nat ?nb) (drop (nat s) source) = take (nat (e - s)) (drop (nat s) source)"
      using s lt by (auto simp: min_def)
    have rest: "drop (nat ?nb) (replicate (nat (e - s)) (0::byte))
        = replicate (nat (e - s) - (length source - nat s)) 0"
      using s lt by (auto simp: min_def nat_diff_distrib)
    show ?thesis
      using s lt nb rest by (simp add: copy_bytes_def Let_def)
  qed
qed

lemma copy_bytes_length:
  assumes "copy_bytes source target a b c = Inr w"
  shows "length w = length target"
proof (cases "int (length target) \<le> a \<or> c \<le> b")
  case True
  with assms show ?thesis
    by (auto simp: copy_bytes_def split: if_splits)
next
  case False
  from assms have ok: "0 \<le> a" "0 \<le> b" "b \<le> int (length source)" "0 \<le> c"
    by (auto simp: copy_bytes_def split: if_splits)
  define c' where "c' = (if c - b > int (length target) - a then b + int (length target) - a else c)"
  define nb where "nb = min (c' - b) (int (length source) - b)"
  have w: "w = take (nat a) target @ take (nat nb) (drop (nat b) source)
      @ drop (nat (a + nb)) target"
    using assms False ok by (simp add: copy_bytes_def Let_def c'_def nb_def)
  have nb0: "0 \<le> nb" and nb1: "nb \<le> int (length target) - a"
    and nb2: "nb \<le> int (length source) - b"
    using False ok by (auto simp: nb_def c'_def min_def)
  have "length (take (nat nb) (drop (nat b) source)) = nat nb"
    using nb0 nb2 ok by simp
  then show ?thesis
    unfolding w using nb0 nb1 ok False by (simp add: nat_add_distrib)
qed

lemma Buffer_alloc_Inr:
  assumes "Buffer_alloc pf n = Inr b"
  shows "\<exists>q. n = Finite q \<and> 0 \<le> q \<and> q \<le> of_nat (kMaxLength pf) \<and> b = replicate (nat \<lfloor>q\<rfloor>) 0"
  using assms by (cases n) (auto simp: Buffer_alloc_def split: if_splits)

lemma Buffer_alloc_int:
  "Buffer_alloc pf (Finite (of_int n)) =
     (if n < 0 \<or> int (kMaxLength pf) < n then Inl ERR_OUT_OF_RANGE else Inr (replicate (nat n) 0))"
proof -
  have "(of_nat (kMaxLength pf) :: rat) < of_int n \<longleftrightarrow> int (kMaxLength pf) < n"
    using of_int_less_iff [of "int (kMaxLength pf)" n, where ?'a = rat] by simp
  then show ?thesis
    by (simp add: Buffer_alloc_def)
qed

lemma writeFileSync_Inr:
  assumes "writeFileSync pf fs p b = (Inr u, fs')"
  shows "open_error pf p = None \<and> length b \<le> kIoMaxLength \<and> fs' = AList.update p b fs"
  using assms by (auto simp: writeFileSync_def split: option.splits if_splits)

lemma writeFileSync_Inl:
  assumes "writeFileSync pf fs p b = (Inl e, fs')"
  shows "fs' = fs \<or> fs' = AList.update p [] fs"
  using assms by (auto simp: writeFileSync_def split: option.splits if_splits)

lemma writeFileSync_other:
  assumes "writeFileSync pf fs p b = (res, fs')" and "x \<noteq> p"
  shows "map_of fs' x = map_of fs x"
  using assms by (auto simp: writeFileSync_def update_conv' split: option.splits if_splits)

lemma writeFileSync_ok:
  assumes "open_error pf p = None" and "length b \<le> kIoMaxLength"
  shows "writeFileSync pf fs p b = (Inr (), AList.update p b fs)"
  using assms by (simp add: writeFileSync_def)

lemma writeFileSync_too_long:
  assumes "open_error pf p = None" and "kIoMaxLength < length b"
  shows "writeFileSync pf fs p b = (Inl ERR_OUT_OF_RANGE, AList.update p [] fs)"
  using assms by (simp add: writeFileSync_def)

lemma readFileSync_ok:
  assumes "map_of fs p = Some b" and "length b \<le> kIoMaxLength" and "length b \<le> kMaxLength pf"
  shows "readFileSync pf fs p = Inr b"
  using assms by (simp add: readFileSync_def)

lemma readFileSync_Inr:
  assumes "readFileSync pf fs p = Inr b"
  shows "map_of fs p = Some b \<and> length b \<le> kIoMaxLength \<and> length b \<le> kMaxLength pf"
  using assms by (auto simp: readFileSync_def split: option.splits if_splits)

section \<open>Trimming\<close>

subsection \<open>What processVideo does with a raw video\<close>

lemma frame_size: "RAW_VIDEO_WIDTH * RAW_VIDEO_HEIGHT * BYTES_PER_PIXEL = 230400"
  using FRAME_SIZE_eq by (simp add: FRAME_SIZE_def)

lemma processVideo_raw:
  assumes raw: "endsWith p ''.raw''"
    and total: "calculateRawVideoDuration fs p = Inr q"
    and out: "out = join [dirname p,
        basename_ext p (extname p) @ ''-trimmed-'' @ string_of_nat now @ extname p]"
    and nd: "nd = fsub (fsub (round_double q) (or_zero (trimStart opts))) (or_zero (trimEnd opts))"
    and sF: "sF = startFrame (or_zero (trimStart opts))"
    and eF: "eF = endFrame (round_double q) (or_zero (trimEnd opts))"
  shows "processVideo pf ffmpeg fs now p opts =
     (if fle nd (Finite 0) then
        (Inl (Wrapped ''Error processing video: ''
           (Error ''Invalid trim parameters: resulting video would be empty'')), fs)
      else
        case readFileSync pf fs p of
          Inl err \<Rightarrow> (Inl (Wrapped ''Error processing video: '' err), fs)
        | Inr input \<Rightarrow>
            (case Buffer_alloc pf (fmul (fsub eF sF) (Finite 230400)) of
               Inl err \<Rightarrow> (Inl (Wrapped ''Error processing video: '' err), fs)
             | Inr outputBuffer \<Rightarrow>
                 (case Buffer_copy input outputBuffer (Finite 0)
                         (fmul sF (Finite 230400)) (fmul eF (Finite 230400)) of
                    Inl err \<Rightarrow> (Inl (Wrapped ''Error processing video: '' err), fs)
                  | Inr written \<Rightarrow>
                      (case writeFileSync pf fs out written of
                         (Inl err, fs') \<Rightarrow> (Inl (Wrapped ''Error processing video: '' err), fs')
                       | (Inr u, fs') \<Rightarrow> (Inr \<lparr>outputPath = out, duration = nd\<rparr>, fs')))))"
  unfolding out nd sF eF
  by (simp add: processVideo_def Let_def raw total frame_size
      cong: sum.case_cong prod.case_cong)

lemma processVideo_empty:
  assumes "calculateRawVideoDuration fs p = Inr q"
    and "fle (fsub (fsub (round_double q) (or_zero (trimStart opts))) (or_zero (trimEnd opts)))
           (Finite 0)"
  shows "processVideo pf ffmpeg fs now p opts =
     (Inl (Wrapped ''Error processing video: ''
        (Error ''Invalid trim parameters: resulting video would be empty'')), fs)"
  using assms by (simp add: processVideo_def Let_def)

lemma processVideo_frames:
  assumes raw: "endsWith p ''.raw''"
    and total: "calculateRawVideoDuration fs p = Inr q"
    and out: "out = join [dirname p,
        basename_ext p (extname p) @ ''-trimmed-'' @ string_of_nat now @ extname p]"
    and nd: "nd = fsub (fsub (round_double q) (or_zero (trimStart opts))) (or_zero (trimEnd opts))"
    and pos: "\<not> fle nd (Finite 0)"
    and sF: "startFrame (or_zero (trimStart opts)) = Finite (of_int s)"
    and eF: "endFrame (round_double q) (or_zero (trimEnd opts)) = Finite (of_int e)"
    and se: "0 \<le> s" "s \<le> e" "e * 230400 < 2 ^ 53"
    and input: "map_of fs p = Some input" "length input \<le> kIoMaxLength"
      "length input \<le> kMaxLength pf"
  shows "processVideo pf ffmpeg fs now p opts =
     (if int (kMaxLength pf) < (e - s) * 230400 \<or> int (length input) < s * 230400 then
        (Inl (Wrapped ''Error processing video: '' ERR_OUT_OF_RANGE), fs)
      else
        case writeFileSync pf fs out
               (take (nat ((e - s) * 230400)) (drop (nat (s * 230400)) input)
                @ replicate (nat ((e - s) * 230400) - (length input - nat (s * 230400))) 0) of
          (Inl err, fs') \<Rightarrow> (Inl (Wrapped ''Error processing video: '' err), fs')
        | (Inr u, fs') \<Rightarrow> (Inr \<lparr>outputPath = out, duration = nd\<rparr>, fs'))"
proof -
  define n where "n = (e - s) * 230400"
  define a where "a = s * 230400"
  define b where "b = e * 230400"
  have b1: "\<bar>e - s\<bar> < 2 ^ 53" "\<bar>(e - s) * 230400\<bar> < 2 ^ 53"
    "\<bar>s * 230400\<bar> < 2 ^ 53" "\<bar>e * 230400\<bar> < 2 ^ 53"
    using se by simp_all
  have size: "fmul (fsub (Finite (of_int e)) (Finite (of_int s))) (Finite 230400)
      = Finite (of_int n)"
    using fsub_ints [OF b1(1)] fmul_ints [of "e - s" 230400] b1(2) by (simp add: n_def)
  have st: "fmul (Finite (of_int s)) (Finite 230400) = Finite (of_int a)"
    using fmul_ints [of s 230400] b1(3) by (simp add: a_def)
  have en: "fmul (Finite (of_int e)) (Finite 230400) = Finite (of_int b)"
    using fmul_ints [of e 230400] b1(4) by (simp add: b_def)
  have le: "a \<le> b"
    using se by (simp add: a_def b_def)
  have dif: "b - a = n"
    by (simp add: a_def b_def n_def algebra_simps)
  have n0: "\<not> n < 0" "\<not> a < 0"
    using se by (simp_all add: n_def a_def)
  note cp = copy_bytes_fresh [OF le, of input, unfolded dif]
  have pv: "processVideo pf ffmpeg fs now p opts =
     (case Buffer_alloc pf (Finite (of_int n)) of
        Inl err \<Rightarrow> (Inl (Wrapped ''Error processing video: '' err), fs)
      | Inr outputBuffer \<Rightarrow>
          (case copy_bytes input outputBuffer 0 a b of
             Inl err \<Rightarrow> (Inl (Wrapped ''Error processing video: '' err), fs)
           | Inr written \<Rightarrow>
               (case writeFileSync pf fs out written of
                  (Inl err, fs') \<Rightarrow> (Inl (Wrapped ''Error processing video: '' err), fs')
                | (Inr u, fs') \<Rightarrow> (Inr \<lparr>outputPath = out, duration = nd\<rparr>, fs'))))"
    unfolding processVideo_raw [OF raw total out nd refl refl] sF eF size st en
      readFileSync_ok [OF input] Buffer_copy_def toInteger_of_int toInteger_0
    using pos by simp
  have "processVideo pf ffmpeg fs now p opts =
     (if int (kMaxLength pf) < n \<or> int (length input) < a then
        (Inl (Wrapped ''Error processing video: '' ERR_OUT_OF_RANGE), fs)
      else
        case writeFileSync pf fs out
               (take (nat n) (drop (nat a) input)
                @ replicate (nat n - (length input - nat a)) 0) of
          (Inl err, fs') \<Rightarrow> (Inl (Wrapped ''Error processing video: '' err), fs')
        | (Inr u, fs') \<Rightarrow> (Inr \<lparr>outputPath = out, duration = nd\<rparr>, fs'))"
  proof (cases "int (kMaxLength pf) < n")
    case True
    then show ?thesis
      unfolding pv Buffer_alloc_int using n0 by simp
  next
    case False
    show ?thesis
    proof (cases "int (length input) < a")
      case True
      then show ?thesis
        unfolding pv Buffer_alloc_int using n0 False by (simp add: cp)
    next
      case nl: False
      then show ?thesis
        unfolding pv Buffer_alloc_int using n0 False by (simp add: cp)
    qed
  qed
  then show ?thesis
    unfolding n_def a_def .
qed

lemma processVideo_raw_cases:
  assumes raw: "endsWith p ''.raw''"
    and out: "out = join [dirname p,
        basename_ext p (extname p) @ ''-trimmed-'' @ string_of_nat now @ extname p]"
    and res: "processVideo pf ffmpeg fs now p opts = (res, fs')"
  shows "(fs' = fs \<and> (\<exists>err. res = Inl err))
     \<or> (\<exists>written err. writeFileSync pf fs out written = (Inl err, fs')
           \<and> res = Inl (Wrapped ''Error processing video: '' err))
     \<or> (\<exists>written u nd. writeFileSync pf fs out written = (Inr u, fs')
           \<and> res = Inr \<lparr>outputPath = out, duration = nd\<rparr>)"
proof (cases "calculateRawVideoDuration fs p")
  case (Inl err)
  with res show ?thesis by (auto simp: processVideo_def Let_def)
next
  case (Inr q)
  note pv = processVideo_raw [OF raw Inr out refl refl refl, of pf ffmpeg opts]
  show ?thesis
    using res unfolding pv
    by (auto split: if_splits sum.splits prod.splits)
qed

lemma processVideo_raw_Inr:
  assumes raw: "endsWith p ''.raw''"
    and total: "calculateRawVideoDuration fs p = Inr q"
    and out: "out = join [dirname p,
        basename_ext p (extname p) @ ''-trimmed-'' @ string_of_nat now @ extname p]"
    and nd: "nd = fsub (fsub (round_double q) (or_zero (trimStart opts))) (or_zero (trimEnd opts))"
    and res: "processVideo pf ffmpeg fs now p opts = (Inr r, fs')"
  shows "\<exists>input s e bytes.
      map_of fs p = Some input \<and> length input \<le> kIoMaxLength \<and>
      startFrame (or_zero (trimStart opts)) = Finite (of_int s) \<and>
      endFrame (round_double q) (or_zero (trimEnd opts)) = Finite (of_int e) \<and>
      \<not> fle nd (Finite 0) \<and>
      r = \<lparr>outputPath = out, duration = nd\<rparr> \<and>
      int (length bytes) = (e - s) * 230400 \<and>
      length bytes \<le> kIoMaxLength \<and>
      open_error pf out = None \<and>
      fs' = AList.update out bytes fs"
proof -
  define sF where "sF = startFrame (or_zero (trimStart opts))"
  define eF where "eF = endFrame (round_double q) (or_zero (trimEnd opts))"
  note pv = processVideo_raw [OF raw total out nd sF_def eF_def, of pf ffmpeg]
  from res pv have pos: "\<not> fle nd (Finite 0)"
    by (auto split: if_splits)
  from res pv pos obtain input where rd: "readFileSync pf fs p = Inr input"
    by (cases "readFileSync pf fs p") auto
  from res pv pos rd obtain ob where
    al: "Buffer_alloc pf (fmul (fsub eF sF) (Finite 230400)) = Inr ob"
    by (cases "Buffer_alloc pf (fmul (fsub eF sF) (Finite 230400))") auto
  from res pv pos rd al obtain w where
    cp: "Buffer_copy input ob (Finite 0) (fmul sF (Finite 230400)) (fmul eF (Finite 230400))
      = Inr w"
    by (cases "Buffer_copy input ob (Finite 0) (fmul sF (Finite 230400))
        (fmul eF (Finite 230400))") auto
  from res pv pos rd al cp obtain u where
    wr: "writeFileSync pf fs out w = (Inr u, fs')" and r: "r = \<lparr>outputPath = out, duration = nd\<rparr>"
    by (cases "writeFileSync pf fs out w") (auto split: sum.splits)
  from Buffer_alloc_Inr [OF al] obtain z where
    z: "fmul (fsub eF sF) (Finite 230400) = Finite z" "0 \<le> z" "ob = replicate (nat \<lfloor>z\<rfloor>) 0"
    by blast
  from cp have "length w = length ob"
    unfolding Buffer_copy_def by (rule copy_bytes_length)
  then have lw: "length w = nat \<lfloor>z\<rfloor>"
    using z(3) by simp
  from writeFileSync_Inr [OF wr] have op: "open_error pf out = None"
    and wl: "length w \<le> kIoMaxLength" and fs': "fs' = AList.update out w fs"
    by simp_all
  from wl lw have "nat \<lfloor>z\<rfloor> \<le> 2147483647"
    by (simp add: kIoMaxLength_def)
  then have "\<lfloor>z\<rfloor> < 2147483648"
    by (simp add: nat_le_iff)
  then have "z < 2147483648"
    using floor_less_iff [of z 2147483648] by simp
  with z(2) have zb: "\<bar>z\<bar> < 2 ^ 32"
    by simp
  from fmul_Finite [OF z(1)] obtain y where "fsub eF sF = Finite y"
    by blast
  from fsub_Finite [OF this] obtain a b where ab: "eF = Finite a" "sF = Finite b"
    by blast
  from Math_floor_Finite [OF ab(1) [unfolded eF_def endFrame_def]]
  obtain e where e: "a = of_int e"
    by blast
  from Math_floor_Finite [OF ab(2) [unfolded sF_def startFrame_def]]
  obtain s where s: "b = of_int s"
    by blast
  from size_exact [OF z(1) [unfolded ab e s] zb] have ze: "z = of_int ((e - s) * 230400)" .
  then have "0 \<le> (e - s) * 230400"
    using z(2) by simp
  then have "int (length w) = (e - s) * 230400"
    unfolding lw ze floor_of_int by simp
  moreover from rd have "map_of fs p = Some input" "length input \<le> kIoMaxLength"
    using readFileSync_Inr by blast+
  ultimately show ?thesis
    using ab e s pos r wl op fs' unfolding sF_def eF_def by blast
qed

lemma round_double_not_NaN: "round_double x \<noteq> NaN"
  by (simp add: round_double_def Let_def)

lemma estimate_bound:
  assumes "calculateRawVideoDuration fs p = Inr q" and "map_of fs p = Some input"
  shows "0 \<le> q \<and> q \<le> 360 + of_nat (length input)"
proof -
  have "int (length input) div 230400 = int (length input div 230400)"
    by (simp add: zdiv_int)
  also have "\<dots> \<le> int (length input)"
    using div_le_dividend [of "length input" 230400] by simp
  finally have "int (length input) div 230400 \<le> int (length input)" .
  then have "(of_int (int (length input) div 230400) :: rat) \<le> of_int (int (length input))"
    by (simp only: of_int_le_iff)
  then have a: "(of_int (int (length input) div 230400) :: rat) / 30 \<le> of_nat (length input)"
    by simp
  have b: "(0::rat) \<le> of_int (int (length input) div 230400) / 30"
    by (simp add: pos_imp_zdiv_nonneg_iff)
  from assms have "q = 5 \<or> q = 360 \<or> q = of_int (int (length input) div 230400) / 30"
    by (auto simp: estimate_cases split: if_splits)
  with a b show ?thesis
    by auto
qed

lemma twice_mono:
  fixes y d t a :: rat
  assumes "y \<le> 2 * d + 1" and "d \<le> t + a"
  shows "y \<le> 2 * t + 2 * a + 1"
  using assms by linarith

lemma no_overflow_1:
  fixes Q A T :: rat
  assumes "T \<le> 17179869184" "30 * A < 4 * Q + 1" "1099511627776 \<le> Q" "Q \<le> T + A"
  shows False
  using assms by linarith

lemma no_overflow_2:
  fixes Q A B T X Y :: rat
  assumes "Y \<le> 2 * T + 2 * A + 1" "B \<le> T + 2 * X + 1" "T \<le> 17179869184"
    "30 * A < 4 * Q + 1" "30 * X < 4 * Q + 1" "1099511627776 \<le> Q" "Q \<le> Y + B"
  shows False
  using assms by linarith

text \<open>A raw trim that returns reports a finite duration, more than 0.\<close>

lemma raw_trim_duration:
  assumes raw: "endsWith p ''.raw''"
    and res: "processVideo pf ffmpeg fs now p opts = (Inr r, fs')"
  shows "\<exists>x>0. duration r = Finite x"
proof -
  from res obtain q where total: "calculateRawVideoDuration fs p = Inr q"
    by (cases "calculateRawVideoDuration fs p") (auto simp: processVideo_def Let_def)
  define ts where "ts = or_zero (trimStart opts)"
  define te where "te = or_zero (trimEnd opts)"
  from processVideo_raw_Inr [OF raw total refl refl res] obtain input s e where
    input: "map_of fs p = Some input" "length input \<le> kIoMaxLength"
    and sF: "startFrame ts = Finite (of_int s)"
    and eF: "endFrame (round_double q) te = Finite (of_int e)"
    and pos0: "\<not> fle (fsub (fsub (round_double q) ts) te) (Finite 0)"
    and r0: "duration r = fsub (fsub (round_double q) ts) te"
    unfolding ts_def te_def by auto
  define nd where "nd = fsub (fsub (round_double q) ts) te"
  have pos: "\<not> fle nd (Finite 0)" and r: "duration r = nd"
    unfolding nd_def by (rule pos0, rule r0)
  define Q :: rat where "Q = 2 ^ 1023"
  have Q: "2 ^ 40 \<le> Q"
    unfolding Q_def by simp
  have P: "(2::rat) ^ 1024 = 2 * Q"
    unfolding Q_def by simp
  from estimate_bound [OF total input(1)] input(2) have q: "0 \<le> q" "q \<le> 2 ^ 32"
    by (simp_all add: kIoMaxLength_def)
  from Math_floor_Finite [OF eF [unfolded endFrame_def]] obtain u where
    "fmul (fsub (round_double q) te) (Finite (of_int RAW_VIDEO_FPS)) = Finite u"
    by blast
  from fmul_Finite [OF this] obtain X where X: "fsub (round_double q) te = Finite X"
    and X30: "round_double (X * 30) = Finite u"
    by (auto simp: RAW_VIDEO_FPS_def)
  from fsub_Finite [OF X] obtain t b where t: "round_double q = Finite t"
    and b: "te = Finite b" and tb: "round_double (t - b) = Finite X"
    by blast
  from Math_floor_Finite [OF sF [unfolded startFrame_def]] obtain v where
    "fmul ts (Finite (of_int RAW_VIDEO_FPS)) = Finite v"
    by blast
  from fmul_Finite [OF this] obtain a where a: "ts = Finite a"
    and a30: "round_double (a * 30) = Finite v"
    by (auto simp: RAW_VIDEO_FPS_def)
  from round_double_Finite_less [OF t] q have tB: "\<bar>t\<bar> \<le> 2 ^ 34"
    by simp
  from round_double_Finite_less [OF a30] have "\<bar>v\<bar> < 2 * Q"
    unfolding P by simp
  with round_double_bound [OF a30] have "\<bar>a * 30\<bar> < 4 * Q + 1"
    by linarith
  then have aB: "30 * \<bar>a\<bar> < 4 * Q + 1"
    by (simp add: abs_mult mult.commute)
  from round_double_Finite_less [OF X30] have "\<bar>u\<bar> < 2 * Q"
    unfolding P by simp
  with round_double_bound [OF X30] have "\<bar>X * 30\<bar> < 4 * Q + 1"
    by linarith
  then have XB: "30 * \<bar>X\<bar> < 4 * Q + 1"
    by (simp add: abs_mult mult.commute)
  from round_double_bound [OF tb] have bB: "\<bar>b\<bar> \<le> \<bar>t\<bar> + 2 * \<bar>X\<bar> + 1"
    by linarith
  have d: "nd = fsub (round_double (t - a)) (Finite b)"
    unfolding nd_def t a b by (simp add: fsub_def)
  show ?thesis
  proof (cases "round_double (t - a)")
    case (Finite Y)
    from round_double_Finite_less [OF Finite] have YB: "\<bar>Y\<bar> \<le> 2 * \<bar>t - a\<bar> + 1"
      by simp
    have d': "nd = round_double (Y - b)"
      unfolding d Finite by (simp add: fsub_def)
    show ?thesis
    proof (cases "round_double (Y - b)")
      case (Finite x)
      then have nx: "nd = Finite x"
        using d' by simp
      with pos have "0 < x"
        by (auto simp: fle_def)
      with nx r show ?thesis by simp
    next
      case PInf
      from round_double_PInf [OF this] have "Q \<le> Y - b"
        unfolding Q_def .
      then have "Q \<le> \<bar>Y\<bar> + \<bar>b\<bar>"
        by linarith
      moreover have "\<bar>Y\<bar> \<le> 2 * \<bar>t\<bar> + 2 * \<bar>a\<bar> + 1"
        using YB by (rule twice_mono) (rule abs_triangle_ineq4)
      ultimately have False
        using bB tB aB XB Q by (intro no_overflow_2 [of "\<bar>Y\<bar>" "\<bar>t\<bar>" "\<bar>a\<bar>" "\<bar>b\<bar>" "\<bar>X\<bar>" Q]) simp_all
      then show ?thesis ..
    next
      case NInf
      then have "nd = NInf"
        using d' by simp
      with pos show ?thesis by (simp add: fle_def)
    next
      case NaN
      then show ?thesis using round_double_not_NaN by blast
    qed
  next
    case PInf
    from round_double_PInf [OF this] have "Q \<le> t - a"
      unfolding Q_def .
    then have "Q \<le> \<bar>t\<bar> + \<bar>a\<bar>"
      by linarith
    then have False
      using tB aB Q by (intro no_overflow_1 [of "\<bar>t\<bar>" "\<bar>a\<bar>" Q]) simp_all
    then show ?thesis ..
  next
    case NInf
    then have "nd = NInf"
      using d by (simp add: fsub_def)
    with pos show ?thesis by (simp add: fle_def)
  next
    case NaN
    then show ?thesis using round_double_not_NaN by blast
  qed
qed

lemma frames_example:
  "startFrame (Finite 1) = Finite 30 \<and> endFrame (Finite 5) (Finite 1) = Finite 120"
  by (simp add: startFrame_def endFrame_def RAW_VIDEO_FPS_def fsub_def)

lemma trim_example:
  assumes raw: "endsWith p ''.raw''"
    and nl: "\<not> startsWith (basename p) ''long-video''"
    and ex: "map_of fs p = Some input"
    and len: "length input = 150 * 230400"
    and out: "out = join [dirname p,
        basename_ext p (extname p) @ ''-trimmed-'' @ string_of_nat now @ extname p]"
    and pf: "open_error pf out = None" "34560000 \<le> kMaxLength pf"
  shows "calculateRawVideoDuration fs p = Inr 5 \<and>
     processVideo pf ffmpeg fs now p \<lparr>trimStart = Some (Finite 1), trimEnd = Some (Finite 1)\<rparr>
       = (Inr \<lparr>outputPath = out, duration = Finite 3\<rparr>,
          AList.update out (take (90 * 230400) (drop (30 * 230400) input)) fs) \<and>
     length (take (90 * 230400) (drop (30 * 230400) input)) = 20736000"
proof -
  let ?opts = "\<lparr>trimStart = Some (Finite 1), trimEnd = Some (Finite 1)\<rparr>"
  have total: "calculateRawVideoDuration fs p = Inr 5"
    using nl ex len by (simp add: estimate_cases)
  have nd: "Finite 3 = fsub (fsub (round_double 5) (or_zero (trimStart ?opts)))
      (or_zero (trimEnd ?opts))"
    by (simp add: or_zero_def truthy_number_def fsub_def)
  have pos: "\<not> fle (Finite 3) (Finite 0)"
    by (simp add: fle_def)
  have sF: "startFrame (or_zero (trimStart ?opts)) = Finite (of_int 30)"
    using frames_example by (simp add: or_zero_def truthy_number_def)
  have eF: "endFrame (round_double 5) (or_zero (trimEnd ?opts)) = Finite (of_int 120)"
    using frames_example by (simp add: or_zero_def truthy_number_def)
  have input: "length input \<le> kIoMaxLength" "length input \<le> kMaxLength pf"
    using len pf(2) by (simp_all add: kIoMaxLength_def)
  have w: "writeFileSync pf fs out (take (90 * 230400) (drop (30 * 230400) input))
      = (Inr (), AList.update out (take (90 * 230400) (drop (30 * 230400) input)) fs)"
    by (rule writeFileSync_ok [OF pf(1)]) (simp add: kIoMaxLength_def)
  have "processVideo pf ffmpeg fs now p ?opts
       = (Inr \<lparr>outputPath = out, duration = Finite 3\<rparr>,
          AList.update out (take (90 * 230400) (drop (30 * 230400) input)) fs)"
    unfolding processVideo_frames [OF raw total out nd pos sF eF _ _ _ ex input, simplified]
    using len pf(2) w by simp
  with total len show ?thesis
    by simp
qed

text \<open>The doubles of a clip of 123 frames: 4.1, 3.0999999999999996 and 122.99999999999999.\<close>

lemma double_41_10: "round_double (41 / 10) = Finite (2308094809027379 / 562949953421312)"
  using round_double_normal [of 2 "41 / 10"] by (simp add: rne_def Let_def)

lemma double_41_10_idem: "round_double (2308094809027379 / 562949953421312) = Finite (2308094809027379 / 562949953421312)"
  using round_double_normal [of 2 "2308094809027379 / 562949953421312"] by (simp add: rne_def Let_def)

lemma double_41_10_minus_1: "round_double (1745144855606067 / 562949953421312) = Finite (1745144855606067 / 562949953421312)"
  using round_double_normal [of 1 "1745144855606067 / 562949953421312"] by (simp add: rne_def Let_def)

lemma double_31_10_idem: "round_double (1745144855606067 / 562949953421312) = Finite (1745144855606067 / 562949953421312)"
  using round_double_normal [of 1 "1745144855606067 / 562949953421312"] by (simp add: rne_def Let_def)

lemma double_41_10_times_30: "round_double (34621422135410685 / 281474976710656) = Finite (8655355533852671 / 70368744177664)"
  using round_double_normal [of 6 "34621422135410685 / 281474976710656"] by (simp add: rne_def Let_def)

lemma trim_run_123:
  "processVideo linux_platform failing_transcoder [(''uploads/clip.raw'', replicate 28339200 0)]
       1700000000000 ''uploads/clip.raw'' \<lparr>trimStart = Some (Finite 1), trimEnd = None\<rparr>
     = (Inr \<lparr>outputPath = ''uploads/clip-trimmed-1700000000000.raw'',
             duration = Finite (1745144855606067 / 562949953421312)\<rparr>,
        [(''uploads/clip.raw'', replicate 28339200 0),
         (''uploads/clip-trimmed-1700000000000.raw'', replicate 21196800 0)])"
proof -
  let ?opts = "\<lparr>trimStart = Some (Finite 1), trimEnd = None\<rparr>"
  let ?fs = "[(''uploads/clip.raw'', replicate 28339200 (0::byte))]"
  have raw: "endsWith ''uploads/clip.raw'' ''.raw''"
    by (simp add: endsWith_def)
  have total: "calculateRawVideoDuration ?fs ''uploads/clip.raw'' = Inr (41 / 10)"
    by (simp add: estimate_cases basename_def startsWith_def)
  have out: "''uploads/clip-trimmed-1700000000000.raw'' = join [dirname ''uploads/clip.raw'',
      basename_ext ''uploads/clip.raw'' (extname ''uploads/clip.raw'') @ ''-trimmed-''
        @ string_of_nat 1700000000000 @ extname ''uploads/clip.raw'']"
    by (simp add: join_def dirname_def extname_def basename_ext_def basename_def
        endsWith_def normalize_def normalizeString_def normalize_step_def
        string_of_nat.simps Let_def)
  have nd: "Finite (1745144855606067 / 562949953421312) = fsub (fsub (round_double (41 / 10)) (or_zero (trimStart ?opts)))
      (or_zero (trimEnd ?opts))"
    by (simp add: or_zero_def truthy_number_def fsub_def double_41_10 double_41_10_minus_1
        double_31_10_idem)
  have pos: "\<not> fle (Finite (1745144855606067 / 562949953421312)) (Finite 0)"
    by (simp add: fle_def)
  have sF: "startFrame (or_zero (trimStart ?opts)) = Finite (of_int 30)"
    by (simp add: or_zero_def truthy_number_def startFrame_def RAW_VIDEO_FPS_def)
  have eF: "endFrame (round_double (41 / 10)) (or_zero (trimEnd ?opts)) = Finite (of_int 122)"
    by (simp add: or_zero_def endFrame_def RAW_VIDEO_FPS_def fsub_def double_41_10
        double_41_10_idem double_41_10_times_30)
  have ex: "map_of ?fs ''uploads/clip.raw'' = Some (replicate 28339200 0)"
    by simp
  have op: "open_error linux_platform ''uploads/clip-trimmed-1700000000000.raw'' = None"
    by (simp add: linux_platform_def basename_def)
  show ?thesis
    by (subst processVideo_frames [OF raw total out nd pos sF eF _ _ _ ex])
      (simp_all add: linux_platform_def kIoMaxLength_def writeFileSync_def basename_def)
qed

lemma trim_result_length:
  assumes raw: "endsWith p ''.raw''"
    and total: "calculateRawVideoDuration fs p = Inr q"
    and res: "processVideo pf ffmpeg fs now p opts = (Inr r, fs')"
  shows "\<exists>s e bytes.
      startFrame (or_zero (trimStart opts)) = Finite (of_int s) \<and>
      endFrame (round_double q) (or_zero (trimEnd opts)) = Finite (of_int e) \<and>
      map_of fs' (outputPath r) = Some bytes \<and>
      int (length bytes) = (e - s) * 230400 \<and>
      duration r
        = fsub (fsub (round_double q) (or_zero (trimStart opts))) (or_zero (trimEnd opts))"
proof -
  from processVideo_raw_Inr [OF raw total refl refl res] obtain s e bytes where
    "startFrame (or_zero (trimStart opts)) = Finite (of_int s)"
    "endFrame (round_double q) (or_zero (trimEnd opts)) = Finite (of_int e)"
    "r = \<lparr>outputPath = join [dirname p,
        basename_ext p (extname p) @ ''-trimmed-'' @ string_of_nat now @ extname p],
      duration = fsub (fsub (round_double q) (or_zero (trimStart opts)))
        (or_zero (trimEnd opts))\<rparr>"
    "int (length bytes) = (e - s) * 230400"
    "fs' = AList.update (join [dirname p,
        basename_ext p (extname p) @ ''-trimmed-'' @ string_of_nat now @ extname p]) bytes fs"
    by blast
  then show ?thesis
    by (auto simp: update_conv')
qed

text \<open>
  C2. The frame numbers are \<open>startFrame = floor (trimStart * 30)\<close> and
  \<open>endFrame = floor ((total - trimEnd) * 30)\<close>, with the products and the
  difference of doubles the program computes. When the trim of a raw video returns, both
  are integers, the file it wrote has exactly \<open>(endFrame - startFrame) * 230400\<close>
  bytes, and the reported duration is \<open>total - trimStart - trimEnd\<close>, again in
  doubles. A clip of 150 frames trimmed by 1 second at each end gives start frame 30,
  end frame 120, 90 frames or 20736000 bytes, and the duration 3, provided the output
  path can be opened and a buffer can hold the clip.
\<close>

theorem trim_frame_aligned:
  "(endsWith p ''.raw'' \<and> calculateRawVideoDuration fs p = Inr q \<and>
      processVideo pf ffmpeg fs now p opts = (Inr r, fs') \<longrightarrow>
      (\<exists>s e bytes.
         startFrame (or_zero (trimStart opts)) = Finite (of_int s) \<and>
         endFrame (round_double q) (or_zero (trimEnd opts)) = Finite (of_int e) \<and>
         map_of fs' (outputPath r) = Some bytes \<and>
         int (length bytes) = (e - s) * 230400 \<and>
         duration r
           = fsub (fsub (round_double q) (or_zero (trimStart opts)))
               (or_zero (trimEnd opts)))) \<and>
   startFrame tStart = Math_floor (fmul tStart (Finite 30)) \<and>
   endFrame tot tEnd = Math_floor (fmul (fsub tot tEnd) (Finite 30)) \<and>
   (endsWith p ''.raw'' \<and> \<not> startsWith (basename p) ''long-video'' \<and>
      map_of fs p = Some input \<and> length input = 150 * 230400 \<and>
      out = join [dirname p,
        basename_ext p (extname p) @ ''-trimmed-'' @ string_of_nat now @ extname p] \<and>
      open_error pf out = None \<and> 34560000 \<le> kMaxLength pf \<longrightarrow>
      calculateRawVideoDuration fs p = Inr 5 \<and> round_double 5 = Finite 5 \<and>
      startFrame (Finite 1) = Finite 30 \<and> endFrame (Finite 5) (Finite 1) = Finite 120 \<and>
      processVideo pf ffmpeg fs now p \<lparr>trimStart = Some (Finite 1), trimEnd = Some (Finite 1)\<rparr>
        = (Inr \<lparr>outputPath = out, duration = Finite 3\<rparr>,
           AList.update out (take (90 * 230400) (drop (30 * 230400) input)) fs) \<and>
      length (take (90 * 230400) (drop (30 * 230400) input)) = 20736000)"
proof -
  have "startFrame tStart = Math_floor (fmul tStart (Finite 30))"
    and "endFrame tot tEnd = Math_floor (fmul (fsub tot tEnd) (Finite 30))"
    and "round_double 5 = Finite 5"
    by (simp_all add: startFrame_def endFrame_def RAW_VIDEO_FPS_def)
  then show ?thesis
    using trim_result_length [of p fs q pf ffmpeg now opts r fs']
      trim_example [of p fs input out now pf ffmpeg] frames_example
    by blast
qed

text \<open>
  A clip of 150 frames trimmed by 1 second at each end, and a clip of 123 frames trimmed by
  1 second at the start: its duration is the double nearest to 4.1, the product with 30
  is 122.99999999999999, the end frame is 122 and the output has 92 frames.
\<close>

theorem trim_frame_aligned_witness:
  "endsWith ''uploads/17-5.raw'' ''.raw'' \<and>
   \<not> startsWith (basename ''uploads/17-5.raw'') ''long-video'' \<and>
   map_of [(''uploads/17-5.raw'', replicate 34560000 0)] ''uploads/17-5.raw''
     = Some (replicate 34560000 0) \<and>
   length (replicate 34560000 (0::byte)) = 150 * 230400 \<and>
   open_error linux_platform ''uploads/17-5-trimmed-1700000000000.raw'' = None \<and>
   34560000 \<le> kMaxLength linux_platform \<and>
   processVideo linux_platform failing_transcoder [(''uploads/17-5.raw'', replicate 34560000 0)]
       1700000000000 ''uploads/17-5.raw'' \<lparr>trimStart = Some (Finite 1), trimEnd = Some (Finite 1)\<rparr>
     = (Inr \<lparr>outputPath = ''uploads/17-5-trimmed-1700000000000.raw'', duration = Finite 3\<rparr>,
        [(''uploads/17-5.raw'', replicate 34560000 0),
         (''uploads/17-5-trimmed-1700000000000.raw'', replicate 20736000 0)]) \<and>
   endsWith ''uploads/clip.raw'' ''.raw'' \<and>
   calculateRawVideoDuration [(''uploads/clip.raw'', replicate 28339200 0)] ''uploads/clip.raw''
     = Inr (41 / 10) \<and>
   processVideo linux_platform failing_transcoder [(''uploads/clip.raw'', replicate 28339200 0)]
       1700000000000 ''uploads/clip.raw'' \<lparr>trimStart = Some (Finite 1), trimEnd = None\<rparr>
     = (Inr \<lparr>outputPath = ''uploads/clip-trimmed-1700000000000.raw'',
             duration = Finite (1745144855606067 / 562949953421312)\<rparr>,
        [(''uploads/clip.raw'', replicate 28339200 0),
         (''uploads/clip-trimmed-1700000000000.raw'', replicate 21196800 0)]) \<and>
   startFrame (Finite 1) = Finite 30 \<and>
   endFrame (round_double (41 / 10)) (Finite 0) = Finite 122 \<and>
   (\<exists>s e bytes.
      startFrame (Finite 1) = Finite (of_int s) \<and>
      endFrame (round_double (41 / 10)) (Finite 0) = Finite (of_int e) \<and>
      map_of [(''uploads/clip.raw'', replicate 28339200 0),
              (''uploads/clip-trimmed-1700000000000.raw'', replicate 21196800 0)]
          ''uploads/clip-trimmed-1700000000000.raw'' = Some bytes \<and>
      int (length bytes) = (e - s) * 230400) \<and>
   length (replicate 21196800 (0::byte)) = (122 - 30) * 230400"
proof -
  let ?p = "''uploads/17-5.raw''"
  let ?fs = "[(''uploads/17-5.raw'', replicate 34560000 (0::byte))]"
  let ?out = "''uploads/17-5-trimmed-1700000000000.raw''"
  have out: "?out = join [dirname ?p,
      basename_ext ?p (extname ?p) @ ''-trimmed-'' @ string_of_nat 1700000000000 @ extname ?p]"
    by (simp add: join_def dirname_def extname_def basename_ext_def basename_def
        endsWith_def normalize_def normalizeString_def normalize_step_def
        string_of_nat.simps Let_def)
  have h: "endsWith ?p ''.raw''" "\<not> startsWith (basename ?p) ''long-video''"
    "map_of ?fs ?p = Some (replicate 34560000 0)"
    "length (replicate 34560000 (0::byte)) = 150 * 230400"
    "open_error linux_platform ?out = None" "34560000 \<le> kMaxLength linux_platform"
    by (simp_all add: endsWith_def basename_def startsWith_def linux_platform_def)
  have hyp: "endsWith ?p ''.raw'' \<and> \<not> startsWith (basename ?p) ''long-video'' \<and>
      map_of ?fs ?p = Some (replicate 34560000 0) \<and>
      length (replicate 34560000 (0::byte)) = 150 * 230400 \<and>
      ?out = join [dirname ?p,
        basename_ext ?p (extname ?p) @ ''-trimmed-'' @ string_of_nat 1700000000000 @ extname ?p] \<and>
      open_error linux_platform ?out = None \<and> 34560000 \<le> kMaxLength linux_platform"
    by (intro conjI h out)
  note a = trim_frame_aligned [of ?p ?fs _ linux_platform failing_transcoder 1700000000000
      _ _ _ _ _ _ "replicate 34560000 0" ?out,
      THEN conjunct2, THEN conjunct2, THEN conjunct2, THEN mp, OF hyp]
  have run150: "processVideo linux_platform failing_transcoder ?fs 1700000000000 ?p
       \<lparr>trimStart = Some (Finite 1), trimEnd = Some (Finite 1)\<rparr>
     = (Inr \<lparr>outputPath = ?out, duration = Finite 3\<rparr>,
        [(''uploads/17-5.raw'', replicate 34560000 0), (?out, replicate 20736000 0)])"
    using a by simp
  let ?q = "''uploads/clip.raw''"
  let ?gs = "[(''uploads/clip.raw'', replicate 28339200 (0::byte))]"
  let ?opts = "\<lparr>trimStart = Some (Finite 1), trimEnd = None\<rparr>"
  have raw: "endsWith ?q ''.raw''"
    by (simp add: endsWith_def)
  have total: "calculateRawVideoDuration ?gs ?q = Inr (41 / 10)"
    by (simp add: estimate_cases basename_def startsWith_def)
  have frames: "startFrame (Finite 1) = Finite 30"
    "endFrame (round_double (41 / 10)) (Finite 0) = Finite 122"
    by (simp_all add: startFrame_def endFrame_def RAW_VIDEO_FPS_def fsub_def double_41_10
        double_41_10_idem double_41_10_times_30)
  note b = trim_frame_aligned [of ?q ?gs "41 / 10" linux_platform failing_transcoder
      1700000000000 ?opts _ _, THEN conjunct1, THEN mp,
      OF conjI [OF raw conjI [OF total trim_run_123]]]
  have ex: "\<exists>s e bytes.
      startFrame (Finite 1) = Finite (of_int s) \<and>
      endFrame (round_double (41 / 10)) (Finite 0) = Finite (of_int e) \<and>
      map_of [(''uploads/clip.raw'', replicate 28339200 0),
              (''uploads/clip-trimmed-1700000000000.raw'', replicate 21196800 0)]
          ''uploads/clip-trimmed-1700000000000.raw'' = Some bytes \<and>
      int (length bytes) = (e - s) * 230400"
    using b by (auto simp: or_zero_def truthy_number_def)
  show ?thesis
    using h run150 raw total trim_run_123 frames ex
    by (intro conjI) simp_all
qed

text \<open>The doubles of a trim by 0.69 and 4.31 seconds.\<close>

lemma double_069: "round_double (69 / 100) = Finite (1553741871442821 / 2251799813685248)"
  using round_double_normal [of "- 1" "69 / 100"] by (simp add: rne_def Let_def)

lemma double_431: "round_double (431 / 100) = Finite (4852628598491709 / 1125899906842624)"
  using round_double_normal [of 2 "431 / 100"] by (simp add: rne_def Let_def)

lemma double_5_minus_069: "round_double (9705257196983419 / 2251799813685248) = Finite (2426314299245855 / 562949953421312)"
  using round_double_normal [of 2 "9705257196983419 / 2251799813685248"] by (simp add: rne_def Let_def)

lemma double_069_431_left: "round_double (1 / 1125899906842624) = Finite (1 / 1125899906842624)"
  using round_double_normal [of "- 50" "1 / 1125899906842624"] by (simp add: rne_def Let_def)

lemma double_069_times_30: "round_double (23306128071642315 / 1125899906842624) = Finite (5826532017910579 / 281474976710656)"
  using round_double_normal [of 4 "23306128071642315 / 1125899906842624"] by (simp add: rne_def Let_def)

lemma double_5_minus_431: "round_double (776870935721411 / 1125899906842624) = Finite (776870935721411 / 1125899906842624)"
  using round_double_normal [of "- 1" "776870935721411 / 1125899906842624"] by (simp add: rne_def Let_def)

lemma double_069_end: "round_double (11653064035821165 / 562949953421312) = Finite (2913266008955291 / 140737488355328)"
  using round_double_normal [of 4 "11653064035821165 / 562949953421312"] by (simp add: rne_def Let_def)

lemma frames_069_431:
  "fsub (fsub (Finite 5) (Finite (1553741871442821 / 2251799813685248))) (Finite (4852628598491709 / 1125899906842624)) = Finite (1 / 1125899906842624) \<and>
   startFrame (Finite (1553741871442821 / 2251799813685248)) = Finite 20 \<and>
   endFrame (Finite 5) (Finite (4852628598491709 / 1125899906842624)) = Finite 20"
  by (simp add: startFrame_def endFrame_def RAW_VIDEO_FPS_def fsub_def double_5_minus_069
      double_069_431_left double_069_times_30 double_5_minus_431 double_069_end)


lemma trim_run_069:
  "processVideo linux_platform failing_transcoder [(''uploads/17-5.raw'', replicate 34560000 0)]
       1700000000000 ''uploads/17-5.raw''
       \<lparr>trimStart = Some (Finite (1553741871442821 / 2251799813685248)), trimEnd = Some (Finite (4852628598491709 / 1125899906842624))\<rparr>
     = (Inr \<lparr>outputPath = ''uploads/17-5-trimmed-1700000000000.raw'',
             duration = Finite (1 / 1125899906842624)\<rparr>,
        [(''uploads/17-5.raw'', replicate 34560000 0),
         (''uploads/17-5-trimmed-1700000000000.raw'', [])])"
proof -
  let ?opts = "\<lparr>trimStart = Some (Finite (1553741871442821 / 2251799813685248)), trimEnd = Some (Finite (4852628598491709 / 1125899906842624))\<rparr>"
  let ?p = "''uploads/17-5.raw''"
  let ?fs = "[(''uploads/17-5.raw'', replicate 34560000 (0::byte))]"
  have raw: "endsWith ?p ''.raw''"
    by (simp add: endsWith_def)
  have total: "calculateRawVideoDuration ?fs ?p = Inr 5"
    by (simp add: estimate_cases basename_def startsWith_def)
  have out: "''uploads/17-5-trimmed-1700000000000.raw'' = join [dirname ?p,
      basename_ext ?p (extname ?p) @ ''-trimmed-'' @ string_of_nat 1700000000000 @ extname ?p]"
    by (simp add: join_def dirname_def extname_def basename_ext_def basename_def
        endsWith_def normalize_def normalizeString_def normalize_step_def
        string_of_nat.simps Let_def)
  have nd: "Finite (1 / 1125899906842624) = fsub (fsub (round_double 5) (or_zero (trimStart ?opts)))
      (or_zero (trimEnd ?opts))"
    using frames_069_431 by (simp add: or_zero_def truthy_number_def)
  have pos: "\<not> fle (Finite (1 / 1125899906842624)) (Finite 0)"
    by (simp add: fle_def)
  have sF: "startFrame (or_zero (trimStart ?opts)) = Finite (of_int 20)"
    using frames_069_431 by (simp add: or_zero_def truthy_number_def)
  have eF: "endFrame (round_double 5) (or_zero (trimEnd ?opts)) = Finite (of_int 20)"
    using frames_069_431 by (simp add: or_zero_def truthy_number_def)
  have ex: "map_of ?fs ?p = Some (replicate 34560000 0)"
    by simp
  show ?thesis
    by (subst processVideo_frames [OF raw total out nd pos sF eF _ _ _ ex])
      (simp_all add: linux_platform_def kIoMaxLength_def writeFileSync_def basename_def)
qed

lemma truthy_negative:
  assumes "truthy_number x" and "\<not> flt (Finite 0) x"
  shows "flt x (Finite 0)"
  using assms by (cases x) (auto simp: truthy_number_def)

lemma post_trim_not_positive:
  assumes "\<not> (\<exists>x. trimStart opts = Some x \<and> flt (Finite 0) x)"
    and "\<not> (\<exists>x. trimEnd opts = Some x \<and> flt (Finite 0) x)"
  shows "post_trim pf ffmpeg d fs now i opts
        = (Json_error 400 ''Must specify either trimStart or trimEnd'', d, fs)
     \<or> post_trim pf ffmpeg d fs now i opts
        = (Json_error 400 ''Trim values must be positive'', d, fs)"
proof (cases "\<not> truthy (trimStart opts) \<and> \<not> truthy (trimEnd opts)")
  case True
  then show ?thesis by (simp add: post_trim_def)
next
  case False
  then have "(truthy (trimStart opts) \<and> flt (or_zero (trimStart opts)) (Finite 0))
      \<or> (truthy (trimEnd opts) \<and> flt (or_zero (trimEnd opts)) (Finite 0))"
    using assms truthy_negative
    by (auto simp: truthy_def or_zero_def split: option.splits)
  with False show ?thesis by (simp add: post_trim_def)
qed

lemma post_trim_empty:
  assumes "select_video d i = Some v"
    and "calculateRawVideoDuration fs (filepath v) = Inr q"
    and "fle (fsub (fsub (round_double q) (or_zero (trimStart opts))) (or_zero (trimEnd opts)))
           (Finite 0)"
  shows "post_trim pf ffmpeg d fs now i opts =
     (if \<not> truthy (trimStart opts) \<and> \<not> truthy (trimEnd opts)
        then Json_error 400 ''Must specify either trimStart or trimEnd''
      else if (truthy (trimStart opts) \<and> flt (or_zero (trimStart opts)) (Finite 0))
              \<or> (truthy (trimEnd opts) \<and> flt (or_zero (trimEnd opts)) (Finite 0))
        then Json_error 400 ''Trim values must be positive''
      else Json_exception 500
             (Wrapped ''Error processing video: ''
                (Error ''Invalid trim parameters: resulting video would be empty'')),
      d, fs)"
  using assms(1) processVideo_empty [OF assms(2,3), of pf ffmpeg now]
  by (simp add: post_trim_def)

text \<open>
  C7, as the program has it. Absent trim amounts are read as 0, and
  \<open>newDuration = total - trimStart - trimEnd\<close> is computed in doubles. When
  \<open>newDuration \<le> 0\<close>, \<open>processVideo\<close> throws
  \<^verbatim>\<open>Invalid trim parameters: resulting video would be empty\<close> and leaves the
  file system as it was; the trim request then answers with status 500, not with the
  status 400 of its other refusals, and leaves the catalog and the file system
  unchanged. When neither amount is given and positive, the request is refused with
  status 400.
\<close>

theorem trim_preconditions:
  "(calculateRawVideoDuration fs p = Inr q \<and>
      fle (fsub (fsub (round_double q) (or_zero (trimStart opts))) (or_zero (trimEnd opts)))
        (Finite 0) \<longrightarrow>
      processVideo pf ffmpeg fs now p opts =
        (Inl (Wrapped ''Error processing video: ''
           (Error ''Invalid trim parameters: resulting video would be empty'')), fs)) \<and>
   (select_video d i = Some v \<and> calculateRawVideoDuration fs (filepath v) = Inr q \<and>
      fle (fsub (fsub (round_double q) (or_zero (trimStart opts))) (or_zero (trimEnd opts)))
        (Finite 0) \<longrightarrow>
      post_trim pf ffmpeg d fs now i opts =
        (if \<not> truthy (trimStart opts) \<and> \<not> truthy (trimEnd opts)
           then Json_error 400 ''Must specify either trimStart or trimEnd''
         else if (truthy (trimStart opts) \<and> flt (or_zero (trimStart opts)) (Finite 0))
                 \<or> (truthy (trimEnd opts) \<and> flt (or_zero (trimEnd opts)) (Finite 0))
           then Json_error 400 ''Trim values must be positive''
         else Json_exception 500
                (Wrapped ''Error processing video: ''
                   (Error ''Invalid trim parameters: resulting video would be empty'')),
         d, fs)) \<and>
   (\<not> (\<exists>x. trimStart opts = Some x \<and> flt (Finite 0) x) \<and>
    \<not> (\<exists>x. trimEnd opts = Some x \<and> flt (Finite 0) x) \<longrightarrow>
      post_trim pf ffmpeg d fs now i opts
        = (Json_error 400 ''Must specify either trimStart or trimEnd'', d, fs)
      \<or> post_trim pf ffmpeg d fs now i opts
        = (Json_error 400 ''Trim values must be positive'', d, fs))"
  using processVideo_empty [of fs p q opts pf ffmpeg now]
    post_trim_empty [of d i v fs q opts pf ffmpeg now]
    post_trim_not_positive [of opts pf ffmpeg d fs now i]
  by blast

text \<open>
  A clip of 5 seconds. Trimmed by 3 and 2 seconds, the request answers with status 500.
  Trimmed by 0.69 and 4.31 seconds, which add up to 5, the doubles give
  \<open>5 - 0.69 - 4.31 = 2 powi - 50\<close>: the request goes through, writes a file of no
  frame and adds a row for it.
\<close>

theorem trim_preconditions_witness:
  "calculateRawVideoDuration [(''uploads/17-5.raw'', replicate 34560000 0)] ''uploads/17-5.raw''
     = Inr 5 \<and>
   fle (fsub (fsub (round_double 5) (Finite 3)) (Finite 2)) (Finite 0) \<and>
   processVideo linux_platform failing_transcoder [(''uploads/17-5.raw'', replicate 34560000 0)]
       1700000000000 ''uploads/17-5.raw'' \<lparr>trimStart = Some (Finite 3), trimEnd = Some (Finite 2)\<rparr>
     = (Inl (Wrapped ''Error processing video: ''
          (Error ''Invalid trim parameters: resulting video would be empty'')),
        [(''uploads/17-5.raw'', replicate 34560000 0)]) \<and>
   select_video
       \<lparr>videos = [\<lparr>id' = 1, filename = ''17-5.raw'', filepath = ''uploads/17-5.raw'',
                   size' = 34560000, duration' = 5\<rparr>], share_links = []\<rparr> 1
     = Some \<lparr>id' = 1, filename = ''17-5.raw'', filepath = ''uploads/17-5.raw'',
                   size' = 34560000, duration' = 5\<rparr> \<and>
   post_trim linux_platform failing_transcoder
       \<lparr>videos = [\<lparr>id' = 1, filename = ''17-5.raw'', filepath = ''uploads/17-5.raw'',
                   size' = 34560000, duration' = 5\<rparr>], share_links = []\<rparr>
       [(''uploads/17-5.raw'', replicate 34560000 0)] 1700000000000 1
       \<lparr>trimStart = Some (Finite 3), trimEnd = Some (Finite 2)\<rparr>
     = (Json_exception 500
          (Wrapped ''Error processing video: ''
             (Error ''Invalid trim parameters: resulting video would be empty'')),
        \<lparr>videos = [\<lparr>id' = 1, filename = ''17-5.raw'', filepath = ''uploads/17-5.raw'',
                   size' = 34560000, duration' = 5\<rparr>], share_links = []\<rparr>,
        [(''uploads/17-5.raw'', replicate 34560000 0)]) \<and>
   post_trim linux_platform failing_transcoder
       \<lparr>videos = [\<lparr>id' = 1, filename = ''17-5.raw'', filepath = ''uploads/17-5.raw'',
                   size' = 34560000, duration' = 5\<rparr>], share_links = []\<rparr>
       [(''uploads/17-5.raw'', replicate 34560000 0)] 1700000000000 1
       \<lparr>trimStart = None, trimEnd = Some (Finite 0)\<rparr>
     = (Json_error 400 ''Must specify either trimStart or trimEnd'',
        \<lparr>videos = [\<lparr>id' = 1, filename = ''17-5.raw'', filepath = ''uploads/17-5.raw'',
                   size' = 34560000, duration' = 5\<rparr>], share_links = []\<rparr>,
        [(''uploads/17-5.raw'', replicate 34560000 0)]) \<and>
   post_trim linux_platform failing_transcoder
       \<lparr>videos = [\<lparr>id' = 1, filename = ''17-5.raw'', filepath = ''uploads/17-5.raw'',
                   size' = 34560000, duration' = 5\<rparr>], share_links = []\<rparr>
       [(''uploads/17-5.raw'', replicate 34560000 0)] 1700000000000 1
       \<lparr>trimStart = Some (Finite (- 1)), trimEnd = None\<rparr>
     = (Json_error 400 ''Trim values must be positive'',
        \<lparr>videos = [\<lparr>id' = 1, filename = ''17-5.raw'', filepath = ''uploads/17-5.raw'',
                   size' = 34560000, duration' = 5\<rparr>], share_links = []\<rparr>,
        [(''uploads/17-5.raw'', replicate 34560000 0)]) \<and>
   round_double (69 / 100) = Finite (1553741871442821 / 2251799813685248) \<and>
   round_double (431 / 100) = Finite (4852628598491709 / 1125899906842624) \<and>
   fsub (fsub (round_double 5) (Finite (1553741871442821 / 2251799813685248))) (Finite (4852628598491709 / 1125899906842624)) = Finite (1 / 1125899906842624) \<and>
   post_trim linux_platform failing_transcoder
       \<lparr>videos = [\<lparr>id' = 1, filename = ''17-5.raw'', filepath = ''uploads/17-5.raw'',
                   size' = 34560000, duration' = 5\<rparr>], share_links = []\<rparr>
       [(''uploads/17-5.raw'', replicate 34560000 0)] 1700000000000 1
       \<lparr>trimStart = Some (Finite (1553741871442821 / 2251799813685248)), trimEnd = Some (Finite (4852628598491709 / 1125899906842624))\<rparr>
     = (Json_video 2 ''17-5-trimmed-1700000000000.raw'' (1 / 1125899906842624),
        \<lparr>videos = [\<lparr>id' = 1, filename = ''17-5.raw'', filepath = ''uploads/17-5.raw'',
                   size' = 34560000, duration' = 5\<rparr>,
                  \<lparr>id' = 2, filename = ''17-5-trimmed-1700000000000.raw'',
                   filepath = ''uploads/17-5-trimmed-1700000000000.raw'',
                   size' = 0, duration' = 1 / 1125899906842624\<rparr>], share_links = []\<rparr>,
        [(''uploads/17-5.raw'', replicate 34560000 0),
         (''uploads/17-5-trimmed-1700000000000.raw'', [])])"
proof -
  let ?fs = "[(''uploads/17-5.raw'', replicate 34560000 (0::byte))]"
  let ?v = "\<lparr>id' = 1, filename = ''17-5.raw'', filepath = ''uploads/17-5.raw'',
                   size' = 34560000, duration' = 5\<rparr>"
  let ?d = "\<lparr>videos = [?v], share_links = []\<rparr>"
  note t1 = trim_preconditions [of ?fs "''uploads/17-5.raw''" 5
      "\<lparr>trimStart = Some (Finite 3), trimEnd = Some (Finite 2)\<rparr>"
      linux_platform failing_transcoder 1700000000000 ?d 1 ?v]
  note t2 = trim_preconditions [of ?fs "''uploads/17-5.raw''" 5
      "\<lparr>trimStart = None, trimEnd = Some (Finite 0)\<rparr>"
      linux_platform failing_transcoder 1700000000000 ?d 1 ?v]
  note t3 = trim_preconditions [of ?fs "''uploads/17-5.raw''" 5
      "\<lparr>trimStart = Some (Finite (- 1)), trimEnd = None\<rparr>"
      linux_platform failing_transcoder 1700000000000 ?d 1 ?v]
  have run: "post_trim linux_platform failing_transcoder ?d ?fs 1700000000000 1
       \<lparr>trimStart = Some (Finite (1553741871442821 / 2251799813685248)), trimEnd = Some (Finite (4852628598491709 / 1125899906842624))\<rparr>
     = (Json_video 2 ''17-5-trimmed-1700000000000.raw'' (1 / 1125899906842624),
        \<lparr>videos = [?v,
                  \<lparr>id' = 2, filename = ''17-5-trimmed-1700000000000.raw'',
                   filepath = ''uploads/17-5-trimmed-1700000000000.raw'',
                   size' = 0, duration' = 1 / 1125899906842624\<rparr>], share_links = []\<rparr>,
        [(''uploads/17-5.raw'', replicate 34560000 0),
         (''uploads/17-5-trimmed-1700000000000.raw'', [])])"
    by (simp add: post_trim_def truthy_def or_zero_def truthy_number_def select_video_def
        trim_run_069 statSync_size_def insert_video_def lastInsertRowid_def finite_value_def
        basename_def)
  have dbl: "fsub (fsub (round_double 5) (Finite (1553741871442821 / 2251799813685248))) (Finite (4852628598491709 / 1125899906842624)) = Finite (1 / 1125899906842624)"
    using frames_069_431 by simp
  show ?thesis
    using t1 t2 t3 run dbl double_069 double_431
    by (simp add: estimate_cases basename_def startsWith_def or_zero_def truthy_def
      truthy_number_def select_video_def post_trim_def fsub_def fle_def)
qed

subsection \<open>A byte range that passes the end of the file\<close>

lemma trimmed_length:
  assumes "0 \<le> n"
  shows "int (length (take (nat n) (drop s input) @ replicate (nat n - (length input - s)) (0::byte)))
     = n"
  using assms by (auto simp: min_def)




lemma trim_write_too_long:
  assumes raw: "endsWith p ''.raw''"
    and total: "calculateRawVideoDuration fs p = Inr q"
    and out: "out = join [dirname p,
        basename_ext p (extname p) @ ''-trimmed-'' @ string_of_nat now @ extname p]"
    and pos: "\<not> fle (fsub (fsub (round_double q) (or_zero (trimStart opts)))
        (or_zero (trimEnd opts))) (Finite 0)"
    and sF: "startFrame (or_zero (trimStart opts)) = Finite (of_int s)"
    and eF: "endFrame (round_double q) (or_zero (trimEnd opts)) = Finite (of_int e)"
    and se: "0 \<le> s" "s \<le> e" "e * 230400 < 2 ^ 53"
    and input: "map_of fs p = Some input" "length input \<le> kIoMaxLength"
      "length input \<le> kMaxLength pf"
    and start: "s * 230400 \<le> int (length input)"
    and size: "int kIoMaxLength < (e - s) * 230400" "(e - s) * 230400 \<le> int (kMaxLength pf)"
    and op: "open_error pf out = None"
  shows "processVideo pf ffmpeg fs now p opts
        = (Inl (Wrapped ''Error processing video: '' ERR_OUT_OF_RANGE), AList.update out [] fs)"
proof -
  let ?n = "(e - s) * 230400"
  let ?s = "nat (s * 230400)"
  let ?bytes = "take (nat ?n) (drop ?s input) @ replicate (nat ?n - (length input - ?s)) (0::byte)"
  have "0 \<le> ?n"
    using se by simp
  then have len: "int (length ?bytes) = ?n"
    by (rule trimmed_length)
  then have "kIoMaxLength < length ?bytes"
    using size(1) by linarith
  from writeFileSync_too_long [OF op this] show ?thesis
    unfolding processVideo_frames [OF raw total out refl pos sF eF se input]
    using start size(2) by simp
qed



lemma trim_run_long:
  "processVideo linux_platform failing_transcoder [(''uploads/long-video.raw'', replicate 13824000 1)]
       1700000000000 ''uploads/long-video.raw'' \<lparr>trimStart = None, trimEnd = Some (Finite 1)\<rparr>
     = (Inl (Wrapped ''Error processing video: '' ERR_OUT_OF_RANGE),
        [(''uploads/long-video.raw'', replicate 13824000 1),
         (''uploads/long-video-trimmed-1700000000000.raw'', [])])"
proof -
  let ?opts = "\<lparr>trimStart = None, trimEnd = Some (Finite 1)\<rparr>"
  let ?p = "''uploads/long-video.raw''"
  let ?fs = "[(''uploads/long-video.raw'', replicate 13824000 (1::byte))]"
  have raw: "endsWith ?p ''.raw''"
    by (simp add: endsWith_def)
  have total: "calculateRawVideoDuration ?fs ?p = Inr 360"
    by (simp add: estimate_cases basename_def startsWith_def)
  have out: "''uploads/long-video-trimmed-1700000000000.raw'' = join [dirname ?p,
      basename_ext ?p (extname ?p) @ ''-trimmed-'' @ string_of_nat 1700000000000 @ extname ?p]"
    by (simp add: join_def dirname_def extname_def basename_ext_def basename_def
        endsWith_def normalize_def normalizeString_def normalize_step_def
        string_of_nat.simps Let_def)
  have pos: "\<not> fle (fsub (fsub (round_double 360) (or_zero (trimStart ?opts)))
        (or_zero (trimEnd ?opts))) (Finite 0)"
    by (simp add: or_zero_def truthy_number_def fsub_def fle_def)
  have sF: "startFrame (or_zero (trimStart ?opts)) = Finite (of_int 0)"
    by (simp add: or_zero_def startFrame_def RAW_VIDEO_FPS_def)
  have eF: "endFrame (round_double 360) (or_zero (trimEnd ?opts)) = Finite (of_int 10770)"
    by (simp add: or_zero_def truthy_number_def endFrame_def RAW_VIDEO_FPS_def fsub_def)
  have ex: "map_of ?fs ?p = Some (replicate 13824000 1)"
    by simp
  have "processVideo linux_platform failing_transcoder ?fs 1700000000000 ?p ?opts
     = (Inl (Wrapped ''Error processing video: '' ERR_OUT_OF_RANGE),
        AList.update ''uploads/long-video-trimmed-1700000000000.raw'' [] ?fs)"
    by (rule trim_write_too_long [OF raw total out pos sF eF _ _ _ ex])
      (simp_all add: linux_platform_def kIoMaxLength_def basename_def)
  then show ?thesis
    by simp
qed



section \<open>Merging\<close>

text \<open>The doubles of the durations of one frame and of five frames.\<close>

lemma double_1_30: "round_double (1 / 30) = Finite (4803839602528529 / 144115188075855872)"
  using round_double_normal [of "- 5" "1 / 30"] by (simp add: rne_def Let_def)

lemma double_1_30_idem: "round_double (4803839602528529 / 144115188075855872) = Finite (4803839602528529 / 144115188075855872)"
  using round_double_normal [of "- 5" "4803839602528529 / 144115188075855872"] by (simp add: rne_def Let_def)

lemma double_1_6: "round_double (1 / 6) = Finite (6004799503160661 / 36028797018963968)"
  using round_double_normal [of "- 3" "1 / 6"] by (simp add: rne_def Let_def)

lemma double_1_30_plus_1_6: "round_double (28823037615171173 / 144115188075855872) = Finite (7205759403792793 / 36028797018963968)"
  using round_double_normal [of "- 3" "28823037615171173 / 144115188075855872"] by (simp add: rne_def Let_def)

lemma double_1_5: "round_double (1 / 5) = Finite (3602879701896397 / 18014398509481984)"
  using round_double_normal [of "- 3" "1 / 5"] by (simp add: rne_def Let_def)

lemma copy_bytes_append:
  assumes "length buf \<le> length rest"
  shows "copy_bytes buf (pre @ rest) (int (length pre)) 0 (int (length buf))
     = Inr (pre @ buf @ drop (length buf) rest)"
proof (cases "buf = []")
  case True
  then show ?thesis by (simp add: copy_bytes_def)
next
  case False
  then have "rest \<noteq> []" using assms by auto
  moreover have "nat (int (length pre) + int (length buf)) = length pre + length buf"
    by simp
  ultimately show ?thesis
    using assms False by (simp add: copy_bytes_def Let_def min_def)
qed

lemma merge_second_pass_concat:
  assumes "map (map_of fs) ps = map Some contents"
    and "\<forall>c\<in>set contents. length c \<le> kIoMaxLength \<and> length c \<le> kMaxLength pf"
    and "length (concat contents) \<le> length rest"
  shows "merge_second_pass pf fs ps (pre @ rest) (length pre)
     = Inr (pre @ concat contents @ drop (length (concat contents)) rest)"
  using assms
proof (induction ps arbitrary: contents pre rest)
  case Nil
  then show ?case by simp
next
  case (Cons p ps)
  from Cons.prems(1) obtain c cs where contents: "contents = c # cs"
    and c: "map_of fs p = Some c" and cs: "map (map_of fs) ps = map Some cs"
    by auto
  have rd: "readFileSync pf fs p = Inr c"
    using c Cons.prems(2) contents by (intro readFileSync_ok) simp_all
  have all: "\<forall>c\<in>set cs. length c \<le> kIoMaxLength \<and> length c \<le> kMaxLength pf"
    using Cons.prems(2) contents by simp
  have le: "length c \<le> length rest"
    using Cons.prems(3) contents by simp
  have le': "length (concat cs) \<le> length (drop (length c) rest)"
    using Cons.prems(3) contents by simp
  have "merge_second_pass pf fs (p # ps) (pre @ rest) (length pre)
      = merge_second_pass pf fs ps ((pre @ c) @ drop (length c) rest) (length (pre @ c))"
    using rd by (simp add: copy_bytes_append [OF le])
  also have "\<dots> = Inr ((pre @ c) @ concat cs
      @ drop (length (concat cs)) (drop (length c) rest))"
    by (rule Cons.IH [OF cs all le'])
  finally show ?case
    using contents by (simp add: add.commute)
qed

lemma merge_first_pass_sums:
  assumes "map (map_of fs) ps = map Some contents"
    and "map (calculateRawVideoDuration fs) ps = map Inr durations"
  shows "merge_first_pass fs ps d s
     = Inr (foldl fadd d (map round_double durations), s + length (concat contents))"
  using assms
proof (induction ps arbitrary: contents durations d s)
  case Nil
  then show ?case by simp
next
  case (Cons p ps)
  from Cons.prems(1) obtain c cs where contents: "contents = c # cs"
    and c: "map_of fs p = Some c" and cs: "map (map_of fs) ps = map Some cs"
    by auto
  from Cons.prems(2) obtain x xs where durations: "durations = x # xs"
    and x: "calculateRawVideoDuration fs p = Inr x"
    and xs: "map (calculateRawVideoDuration fs) ps = map Inr xs"
    by auto
  show ?case
    using c x Cons.IH [OF cs xs] contents durations
    by (simp add: statSync_size_def add.assoc)
qed

lemma durations_exist:
  assumes "map (map_of fs) ps = map Some contents"
  shows "\<exists>durations. map (calculateRawVideoDuration fs) ps = map Inr durations"
  using assms
proof (induction ps arbitrary: contents)
  case Nil
  then show ?case by simp
next
  case (Cons p ps)
  from Cons.prems obtain c cs where c: "map_of fs p = Some c"
    and cs: "map (map_of fs) ps = map Some cs"
    by auto
  from estimate_existing [OF c] obtain x where "calculateRawVideoDuration fs p = Inr x"
    by blast
  moreover from Cons.IH [OF cs] obtain xs where
    "map (calculateRawVideoDuration fs) ps = map Inr xs"
    by blast
  ultimately have "map (calculateRawVideoDuration fs) (p # ps) = map Inr (x # xs)"
    by simp
  then show ?case by blast
qed

lemma Buffer_alloc_nat:
  "n \<le> kMaxLength pf \<Longrightarrow> Buffer_alloc pf (Finite (of_nat n)) = Inr (replicate n 0)"
  by (simp add: Buffer_alloc_def)

lemma mergeVideos_concat:
  assumes ne: "ps \<noteq> []"
    and contents: "map (map_of fs) ps = map Some contents"
    and durations: "map (calculateRawVideoDuration fs) ps = map Inr durations"
    and readable: "\<forall>c\<in>set contents. length c \<le> kIoMaxLength \<and> length c \<le> kMaxLength pf"
    and fits: "length (concat contents) \<le> kMaxLength pf"
    and out: "out = join [dirname (hd ps), ''merged-'' @ string_of_nat now @ ''.raw'']"
  shows "mergeVideos pf fs now ps =
     (case writeFileSync pf fs out (concat contents) of
        (Inl err, fs') \<Rightarrow> (Inl (Wrapped ''Error merging videos: '' err), fs')
      | (Inr u, fs') \<Rightarrow>
          (Inr \<lparr>outputPath = out,
                duration = foldl fadd (Finite 0) (map round_double durations)\<rparr>, fs'))"
proof -
  from ne obtain p ps' where ps: "ps = p # ps'"
    by (cases ps) auto
  have first: "merge_first_pass fs ps (Finite 0) 0
      = Inr (foldl fadd (Finite 0) (map round_double durations), length (concat contents))"
    using merge_first_pass_sums [OF contents durations, of "Finite 0" 0] by simp
  have "merge_second_pass pf fs ps ([] @ replicate (length (concat contents)) 0)
        (length ([]::buffer))
      = Inr ([] @ concat contents
          @ drop (length (concat contents)) (replicate (length (concat contents)) 0))"
    by (rule merge_second_pass_concat [OF contents readable]) simp
  then have second: "merge_second_pass pf fs ps (replicate (length (concat contents)) 0) 0
      = Inr (concat contents)"
    by simp
  have "mergeVideos pf fs now (p # ps') =
     (case writeFileSync pf fs (join [dirname p, ''merged-'' @ string_of_nat now @ ''.raw''])
             (concat contents) of
        (Inl err, fs') \<Rightarrow> (Inl (Wrapped ''Error merging videos: '' err), fs')
      | (Inr u, fs') \<Rightarrow>
          (Inr \<lparr>outputPath = join [dirname p, ''merged-'' @ string_of_nat now @ ''.raw''],
                duration = foldl fadd (Finite 0) (map round_double durations)\<rparr>, fs'))"
    using first [unfolded ps] second [unfolded ps]
    by (simp add: mergeVideos_def Buffer_alloc_nat [OF fits] Let_def
        del: merge_first_pass.simps merge_second_pass.simps
        cong: sum.case_cong prod.case_cong)
  then show ?thesis
    unfolding out ps list.sel .
qed

lemma concat_readable:
  assumes "length (concat contents) \<le> n"
  shows "\<forall>c\<in>set contents. length c \<le> n"
  using assms by (induction contents) auto

lemma select_videos_length:
  "select_videos d ids = Inr vs \<Longrightarrow> length vs = length ids"
  by (induction ids arbitrary: vs) (auto split: option.splits sum.splits)

lemma post_merge_concat:
  assumes len: "2 \<le> length ids"
    and vs: "select_videos d ids = Inr vs"
    and contents: "map (map_of fs) (map filepath vs) = map Some contents"
    and durations: "map (calculateRawVideoDuration fs) (map filepath vs) = map Inr durations"
    and fits: "length (concat contents) \<le> kIoMaxLength"
      "length (concat contents) \<le> kMaxLength pf"
    and out: "out = join [dirname (hd (map filepath vs)),
        ''merged-'' @ string_of_nat now @ ''.raw'']"
    and op: "open_error pf out = None"
  shows "post_merge pf d fs now (Some ids) =
     (Json_video (lastInsertRowid d) (basename out)
        (finite_value (foldl fadd (Finite 0) (map round_double durations))),
      d\<lparr>videos := videos d @
         [\<lparr>id' = lastInsertRowid d, filename = basename out, filepath = out,
           size' = length (concat contents),
           duration' = finite_value (foldl fadd (Finite 0) (map round_double durations))\<rparr>]\<rparr>,
      AList.update out (concat contents) fs)"
proof -
  have "length vs = length ids"
    using vs by (rule select_videos_length)
  with len have ne: "map filepath vs \<noteq> []"
    by auto
  have readable: "\<forall>c\<in>set contents. length c \<le> kIoMaxLength \<and> length c \<le> kMaxLength pf"
    using concat_readable [OF fits(1)] concat_readable [OF fits(2)] by blast
  note m = mergeVideos_concat [OF ne contents durations readable fits(2) out,
      unfolded writeFileSync_ok [OF op fits(1)]]
  show ?thesis
    using len vs
    by (simp add: post_merge_def m statSync_size_def update_conv' insert_video_def Let_def)
qed

text \<open>
  C3, as the program has it. For a list of two or more input paths whose files all
  exist, whose sizes add up to at most \<open>kIoMaxLength = 2147483647\<close> bytes and fit a
  buffer, and an output path that can be opened, \<open>mergeVideos\<close> returns: the file it
  writes holds the inputs' contents one after the other in the order of the list, so its
  size is the sum of their sizes, and the reported duration is the sum of the inputs'
  estimated durations as the first loop adds them up: as doubles, in the order of the
  list, each sum rounded. The merge request then appends one row with that size and that
  duration, when it is finite. When the sizes add up to more than \<open>kIoMaxLength\<close> bytes, the write is
  refused after the output file was created: the merge fails and leaves an empty file.
\<close>

theorem merge_concatenates:
  "(2 \<le> length ps \<and> map (map_of fs) ps = map Some contents \<and>
      length (concat contents) \<le> kIoMaxLength \<and> length (concat contents) \<le> kMaxLength pf \<and>
      out = join [dirname (hd ps), ''merged-'' @ string_of_nat now @ ''.raw''] \<and>
      open_error pf out = None \<longrightarrow>
      (\<exists>durations.
         map (calculateRawVideoDuration fs) ps = map Inr durations \<and>
         mergeVideos pf fs now ps =
           (Inr \<lparr>outputPath = out,
                 duration = foldl fadd (Finite 0) (map round_double durations)\<rparr>,
            AList.update out (concat contents) fs) \<and>
         map_of (AList.update out (concat contents) fs) out = Some (concat contents) \<and>
         length (concat contents) = sum_list (map length contents))) \<and>
   (2 \<le> length ps \<and> map (map_of fs) ps = map Some contents \<and>
      (\<forall>c\<in>set contents. length c \<le> kIoMaxLength \<and> length c \<le> kMaxLength pf) \<and>
      kIoMaxLength < length (concat contents) \<and> length (concat contents) \<le> kMaxLength pf \<and>
      out = join [dirname (hd ps), ''merged-'' @ string_of_nat now @ ''.raw''] \<and>
      open_error pf out = None \<longrightarrow>
      mergeVideos pf fs now ps =
        (Inl (Wrapped ''Error merging videos: '' ERR_OUT_OF_RANGE), AList.update out [] fs)) \<and>
   (2 \<le> length ids \<and> select_videos d ids = Inr vs \<and>
      map (map_of fs) (map filepath vs) = map Some contents \<and>
      map (calculateRawVideoDuration fs) (map filepath vs) = map Inr durations \<and>
      foldl fadd (Finite 0) (map round_double durations) = Finite tot \<and>
      length (concat contents) \<le> kIoMaxLength \<and> length (concat contents) \<le> kMaxLength pf \<and>
      out = join [dirname (hd (map filepath vs)), ''merged-'' @ string_of_nat now @ ''.raw''] \<and>
      open_error pf out = None \<longrightarrow>
      post_merge pf d fs now (Some ids) =
        (Json_video (lastInsertRowid d) (basename out) tot,
         d\<lparr>videos := videos d @
            [\<lparr>id' = lastInsertRowid d, filename = basename out, filepath = out,
              size' = length (concat contents), duration' = tot\<rparr>]\<rparr>,
         AList.update out (concat contents) fs)) \<and>
   kIoMaxLength = 2147483647"
proof (intro conjI impI)
  assume a: "2 \<le> length ps \<and> map (map_of fs) ps = map Some contents \<and>
      length (concat contents) \<le> kIoMaxLength \<and> length (concat contents) \<le> kMaxLength pf \<and>
      out = join [dirname (hd ps), ''merged-'' @ string_of_nat now @ ''.raw''] \<and>
      open_error pf out = None"
  then have ne: "ps \<noteq> []" by auto
  from a durations_exist obtain durations where
    d: "map (calculateRawVideoDuration fs) ps = map Inr durations"
    by blast
  from a have fits1: "length (concat contents) \<le> kIoMaxLength"
    by (elim conjE) assumption
  from a have fits2: "length (concat contents) \<le> kMaxLength pf"
    by (elim conjE) assumption
  note fits = fits1 fits2
  from a have c: "map (map_of fs) ps = map Some contents"
    by (elim conjE) assumption
  from a have out: "out = join [dirname (hd ps), ''merged-'' @ string_of_nat now @ ''.raw'']"
    by (elim conjE) assumption
  from a have op: "open_error pf out = None"
    by (elim conjE) assumption
  have readable: "\<forall>c\<in>set contents. length c \<le> kIoMaxLength \<and> length c \<le> kMaxLength pf"
    using concat_readable [OF fits(1)] concat_readable [OF fits(2)] by blast
  have "mergeVideos pf fs now ps =
           (Inr \<lparr>outputPath = out,
                 duration = foldl fadd (Finite 0) (map round_double durations)\<rparr>,
            AList.update out (concat contents) fs)"
    unfolding mergeVideos_concat [OF ne c d readable fits(2) out]
      writeFileSync_ok [OF op fits(1)]
    by simp
  moreover have "length (concat contents) = sum_list (map length contents)"
    by (simp add: length_concat)
  ultimately show "\<exists>durations.
         map (calculateRawVideoDuration fs) ps = map Inr durations \<and>
         mergeVideos pf fs now ps =
           (Inr \<lparr>outputPath = out,
                 duration = foldl fadd (Finite 0) (map round_double durations)\<rparr>,
            AList.update out (concat contents) fs) \<and>
         map_of (AList.update out (concat contents) fs) out = Some (concat contents) \<and>
         length (concat contents) = sum_list (map length contents)"
    using d by (auto simp: update_conv')
next
  assume a: "2 \<le> length ps \<and> map (map_of fs) ps = map Some contents \<and>
      (\<forall>c\<in>set contents. length c \<le> kIoMaxLength \<and> length c \<le> kMaxLength pf) \<and>
      kIoMaxLength < length (concat contents) \<and> length (concat contents) \<le> kMaxLength pf \<and>
      out = join [dirname (hd ps), ''merged-'' @ string_of_nat now @ ''.raw''] \<and>
      open_error pf out = None"
  then have ne: "ps \<noteq> []" by auto
  from a durations_exist obtain durations where
    d: "map (calculateRawVideoDuration fs) ps = map Inr durations"
    by blast
  from a have big: "kIoMaxLength < length (concat contents)"
    by (elim conjE) assumption
  from a have fits: "length (concat contents) \<le> kMaxLength pf"
    by (elim conjE) assumption
  from a have readable:
    "\<forall>c\<in>set contents. length c \<le> kIoMaxLength \<and> length c \<le> kMaxLength pf"
    by (elim conjE) assumption
  from a have c: "map (map_of fs) ps = map Some contents"
    by (elim conjE) assumption
  from a have out: "out = join [dirname (hd ps), ''merged-'' @ string_of_nat now @ ''.raw'']"
    by (elim conjE) assumption
  from a have op: "open_error pf out = None"
    by (elim conjE) assumption
  show "mergeVideos pf fs now ps =
        (Inl (Wrapped ''Error merging videos: '' ERR_OUT_OF_RANGE), AList.update out [] fs)"
    unfolding mergeVideos_concat [OF ne c d readable fits out]
      writeFileSync_too_long [OF op big]
    by simp
next
  assume a: "2 \<le> length ids \<and> select_videos d ids = Inr vs \<and>
      map (map_of fs) (map filepath vs) = map Some contents \<and>
      map (calculateRawVideoDuration fs) (map filepath vs) = map Inr durations \<and>
      foldl fadd (Finite 0) (map round_double durations) = Finite tot \<and>
      length (concat contents) \<le> kIoMaxLength \<and> length (concat contents) \<le> kMaxLength pf \<and>
      out = join [dirname (hd (map filepath vs)), ''merged-'' @ string_of_nat now @ ''.raw''] \<and>
      open_error pf out = None"
  from a have tot: "foldl fadd (Finite 0) (map round_double durations) = Finite tot"
    by (elim conjE) assumption
  from a have "post_merge pf d fs now (Some ids) =
     (Json_video (lastInsertRowid d) (basename out)
        (finite_value (foldl fadd (Finite 0) (map round_double durations))),
      d\<lparr>videos := videos d @
         [\<lparr>id' = lastInsertRowid d, filename = basename out, filepath = out,
           size' = length (concat contents),
           duration' = finite_value (foldl fadd (Finite 0) (map round_double durations))\<rparr>]\<rparr>,
      AList.update out (concat contents) fs)"
    by (intro post_merge_concat) ((elim conjE, assumption)+)
  then show "post_merge pf d fs now (Some ids) =
        (Json_video (lastInsertRowid d) (basename out) tot,
         d\<lparr>videos := videos d @
            [\<lparr>id' = lastInsertRowid d, filename = basename out, filepath = out,
              size' = length (concat contents), duration' = tot\<rparr>]\<rparr>,
         AList.update out (concat contents) fs)"
    unfolding tot by (simp add: finite_value_def)
next
  show "kIoMaxLength = 2147483647"
    by (rule kIoMaxLength_def)
qed

lemma merged_path:
  "join [dirname (hd [''uploads/a.raw'', ''uploads/b.raw'']),
         ''merged-'' @ string_of_nat 1700000000000 @ ''.raw'']
     = ''uploads/merged-1700000000000.raw''"
  by (simp add: join_def dirname_def normalize_def normalizeString_def normalize_step_def
      string_of_nat.simps)

text \<open>
  Two files of half a frame each: the sum of their estimates is 0, while an estimate
  made from the merged file would be one frame, 1/30 of a second. A file of one frame
  and one of five frames: the sum of the doubles nearest to 1/30 and to 1/6 is
  0.19999999999999998.
\<close>

theorem merge_concatenates_witness:
  "2 \<le> length [''uploads/a.raw'', ''uploads/b.raw''] \<and>
   map (map_of [(''uploads/a.raw'', replicate 115200 (1::byte)),
                (''uploads/b.raw'', replicate 115200 2)])
       [''uploads/a.raw'', ''uploads/b.raw'']
     = map Some [replicate 115200 1, replicate 115200 2] \<and>
   open_error linux_platform ''uploads/merged-1700000000000.raw'' = None \<and>
   mergeVideos linux_platform
       [(''uploads/a.raw'', replicate 115200 1), (''uploads/b.raw'', replicate 115200 2)]
       1700000000000 [''uploads/a.raw'', ''uploads/b.raw'']
     = (Inr \<lparr>outputPath = ''uploads/merged-1700000000000.raw'', duration = Finite 0\<rparr>,
        [(''uploads/a.raw'', replicate 115200 1), (''uploads/b.raw'', replicate 115200 2),
         (''uploads/merged-1700000000000.raw'', replicate 115200 1 @ replicate 115200 2)]) \<and>
   calculateRawVideoDuration
       [(''uploads/a.raw'', replicate 115200 1), (''uploads/b.raw'', replicate 115200 2),
        (''uploads/merged-1700000000000.raw'', replicate 115200 1 @ replicate 115200 2)]
       ''uploads/merged-1700000000000.raw''
     = Inr (1 / 30) \<and>
   map (calculateRawVideoDuration
          [(''uploads/a.raw'', replicate 230400 (1::byte)),
           (''uploads/b.raw'', replicate 1152000 2)])
       [''uploads/a.raw'', ''uploads/b.raw'']
     = map Inr [1 / 30, 1 / 6] \<and>
   mergeVideos linux_platform
       [(''uploads/a.raw'', replicate 230400 1), (''uploads/b.raw'', replicate 1152000 2)]
       1700000000000 [''uploads/a.raw'', ''uploads/b.raw'']
     = (Inr \<lparr>outputPath = ''uploads/merged-1700000000000.raw'',
             duration = Finite (7205759403792793 / 36028797018963968)\<rparr>,
        [(''uploads/a.raw'', replicate 230400 1), (''uploads/b.raw'', replicate 1152000 2),
         (''uploads/merged-1700000000000.raw'', replicate 230400 1 @ replicate 1152000 2)])"
proof -
  let ?ps = "[''uploads/a.raw'', ''uploads/b.raw'']"
  let ?out = "''uploads/merged-1700000000000.raw''"
  let ?fs = "[(''uploads/a.raw'', replicate 115200 (1::byte)),
              (''uploads/b.raw'', replicate 115200 2)]"
  let ?gs = "[(''uploads/a.raw'', replicate 230400 (1::byte)),
              (''uploads/b.raw'', replicate 1152000 2)]"
  have op: "open_error linux_platform ?out = None"
    by (simp add: linux_platform_def basename_def)
  have dur: "map (calculateRawVideoDuration ?fs) ?ps = [Inr 0, Inr 0]"
    by (simp add: estimate_cases basename_def startsWith_def)
  have dur': "map (calculateRawVideoDuration ?gs) ?ps = [Inr (1 / 30), Inr (1 / 6)]"
    by (simp add: estimate_cases basename_def startsWith_def)
  have hyp: "2 \<le> length ?ps \<and>
      map (map_of ?fs) ?ps = map Some [replicate 115200 1, replicate 115200 2] \<and>
      length (concat [replicate 115200 (1::byte), replicate 115200 2]) \<le> kIoMaxLength \<and>
      length (concat [replicate 115200 (1::byte), replicate 115200 2])
        \<le> kMaxLength linux_platform \<and>
      ?out = join [dirname (hd ?ps), ''merged-'' @ string_of_nat 1700000000000 @ ''.raw''] \<and>
      open_error linux_platform ?out = None"
    by (intro conjI merged_path [symmetric] op)
      (simp_all add: kIoMaxLength_def linux_platform_def)
  from hyp merge_concatenates [of ?ps ?fs "[replicate 115200 1, replicate 115200 2]"
      linux_platform ?out 1700000000000, THEN conjunct1]
  obtain durations where
    d: "map (calculateRawVideoDuration ?fs) ?ps = map Inr durations"
    and m: "mergeVideos linux_platform ?fs 1700000000000 ?ps =
           (Inr \<lparr>outputPath = ?out,
                 duration = foldl fadd (Finite 0) (map round_double durations)\<rparr>,
            AList.update ?out (concat [replicate 115200 1, replicate 115200 2]) ?fs)"
    by blast
  from d dur have "durations = [0, 0]"
    by auto
  with m have run: "mergeVideos linux_platform ?fs 1700000000000 ?ps
     = (Inr \<lparr>outputPath = ?out, duration = Finite 0\<rparr>,
        [(''uploads/a.raw'', replicate 115200 1), (''uploads/b.raw'', replicate 115200 2),
         (?out, replicate 115200 1 @ replicate 115200 2)])"
    by simp
  have hyp': "2 \<le> length ?ps \<and>
      map (map_of ?gs) ?ps = map Some [replicate 230400 1, replicate 1152000 2] \<and>
      length (concat [replicate 230400 (1::byte), replicate 1152000 2]) \<le> kIoMaxLength \<and>
      length (concat [replicate 230400 (1::byte), replicate 1152000 2])
        \<le> kMaxLength linux_platform \<and>
      ?out = join [dirname (hd ?ps), ''merged-'' @ string_of_nat 1700000000000 @ ''.raw''] \<and>
      open_error linux_platform ?out = None"
    by (intro conjI merged_path [symmetric] op)
      (simp_all add: kIoMaxLength_def linux_platform_def)
  from hyp' merge_concatenates [of ?ps ?gs "[replicate 230400 1, replicate 1152000 2]"
      linux_platform ?out 1700000000000, THEN conjunct1]
  obtain durations' where
    d': "map (calculateRawVideoDuration ?gs) ?ps = map Inr durations'"
    and m': "mergeVideos linux_platform ?gs 1700000000000 ?ps =
           (Inr \<lparr>outputPath = ?out,
                 duration = foldl fadd (Finite 0) (map round_double durations')\<rparr>,
            AList.update ?out (concat [replicate 230400 1, replicate 1152000 2]) ?gs)"
    by blast
  from d' dur' have "durations' = [1 / 30, 1 / 6]"
    by auto
  with m' have run': "mergeVideos linux_platform ?gs 1700000000000 ?ps
     = (Inr \<lparr>outputPath = ?out, duration = Finite (7205759403792793 / 36028797018963968)\<rparr>,
        [(''uploads/a.raw'', replicate 230400 1), (''uploads/b.raw'', replicate 1152000 2),
         (?out, replicate 230400 1 @ replicate 1152000 2)])"
    by (simp add: double_1_30 double_1_6 double_1_30_idem double_1_30_plus_1_6)
  from op run run' dur' show ?thesis
    by (intro conjI) (simp_all add: estimate_cases basename_def startsWith_def)
qed

text \<open>
  The claim as written fails on three existing files of 800 MiB each: the merged
  content has 2516582400 bytes, the write is refused and the merge fails, leaving an
  empty file. It fails as well on the duration of a file of one frame merged with one of
  five frames: the program reports 0.19999999999999998, while the exact sum of the
  estimates is 1/5, whose nearest double is another.
\<close>

theorem merge_concatenates_counterexample:
  "map (map_of [(''uploads/a.raw'', replicate 838860800 (1::byte)),
                (''uploads/b.raw'', replicate 838860800 2),
                (''uploads/c.raw'', replicate 838860800 3)])
       [''uploads/a.raw'', ''uploads/b.raw'', ''uploads/c.raw'']
     = map Some [replicate 838860800 1, replicate 838860800 2, replicate 838860800 3] \<and>
   mergeVideos linux_platform
       [(''uploads/a.raw'', replicate 838860800 1), (''uploads/b.raw'', replicate 838860800 2),
        (''uploads/c.raw'', replicate 838860800 3)]
       1700000000000 [''uploads/a.raw'', ''uploads/b.raw'', ''uploads/c.raw'']
     = (Inl (Wrapped ''Error merging videos: '' ERR_OUT_OF_RANGE),
        [(''uploads/a.raw'', replicate 838860800 1), (''uploads/b.raw'', replicate 838860800 2),
         (''uploads/c.raw'', replicate 838860800 3),
         (''uploads/merged-1700000000000.raw'', [])]) \<and>
   map (calculateRawVideoDuration
          [(''uploads/a.raw'', replicate 230400 (1::byte)),
           (''uploads/b.raw'', replicate 1152000 2)])
       [''uploads/a.raw'', ''uploads/b.raw'']
     = map Inr [1 / 30, 1 / 6] \<and>
   fst (mergeVideos linux_platform
       [(''uploads/a.raw'', replicate 230400 1), (''uploads/b.raw'', replicate 1152000 2)]
       1700000000000 [''uploads/a.raw'', ''uploads/b.raw''])
     = Inr \<lparr>outputPath = ''uploads/merged-1700000000000.raw'',
            duration = Finite (7205759403792793 / 36028797018963968)\<rparr> \<and>
   (1 / 30 + 1 / 6 :: rat) = 1 / 5 \<and>
   round_double (1 / 5) = Finite (3602879701896397 / 18014398509481984) \<and>
   (7205759403792793 / 36028797018963968 :: rat) \<noteq> 1 / 5 \<and>
   (7205759403792793 / 36028797018963968 :: rat) \<noteq> 3602879701896397 / 18014398509481984"
proof -
  let ?ps = "[''uploads/a.raw'', ''uploads/b.raw'', ''uploads/c.raw'']"
  let ?fs = "[(''uploads/a.raw'', replicate 838860800 (1::byte)),
              (''uploads/b.raw'', replicate 838860800 2),
              (''uploads/c.raw'', replicate 838860800 3)]"
  let ?contents = "[replicate 838860800 (1::byte), replicate 838860800 2, replicate 838860800 3]"
  let ?out = "''uploads/merged-1700000000000.raw''"
  have c: "map (map_of ?fs) ?ps = map Some ?contents"
    by simp
  have d: "map (calculateRawVideoDuration ?fs) ?ps
      = map Inr [(3640 / 30 :: rat), 3640 / 30, 3640 / 30]"
    by (simp add: estimate_cases basename_def startsWith_def)
  have out: "?out = join [dirname (hd ?ps), ''merged-'' @ string_of_nat 1700000000000 @ ''.raw'']"
    by (simp add: join_def dirname_def normalize_def normalizeString_def normalize_step_def
        string_of_nat.simps)
  have op: "open_error linux_platform ?out = None"
    by (simp add: linux_platform_def basename_def)
  have big: "kIoMaxLength < length (concat ?contents)"
    by (simp add: kIoMaxLength_def)
  have "mergeVideos linux_platform ?fs 1700000000000 ?ps
      = (Inl (Wrapped ''Error merging videos: '' ERR_OUT_OF_RANGE), AList.update ?out [] ?fs)"
    unfolding writeFileSync_too_long [OF op big, of ?fs, symmetric]
    by (subst mergeVideos_concat [OF _ c d _ _ out])
      (simp_all add: kIoMaxLength_def linux_platform_def writeFileSync_def basename_def)
  then have large: "mergeVideos linux_platform ?fs 1700000000000 ?ps
      = (Inl (Wrapped ''Error merging videos: '' ERR_OUT_OF_RANGE),
         [(''uploads/a.raw'', replicate 838860800 1), (''uploads/b.raw'', replicate 838860800 2),
          (''uploads/c.raw'', replicate 838860800 3), (?out, [])])"
    by simp
  let ?qs = "[''uploads/a.raw'', ''uploads/b.raw'']"
  let ?gs = "[(''uploads/a.raw'', replicate 230400 (1::byte)),
              (''uploads/b.raw'', replicate 1152000 2)]"
  have c': "map (map_of ?gs) ?qs = map Some [replicate 230400 1, replicate 1152000 2]"
    by simp
  have d': "map (calculateRawVideoDuration ?gs) ?qs = map Inr [1 / 30, 1 / 6]"
    by (simp add: estimate_cases basename_def startsWith_def)
  have "fst (mergeVideos linux_platform ?gs 1700000000000 ?qs)
     = Inr \<lparr>outputPath = ?out, duration = Finite (7205759403792793 / 36028797018963968)\<rparr>"
    by (subst mergeVideos_concat [OF _ c' d' _ _ merged_path [symmetric]])
      (simp_all add: kIoMaxLength_def linux_platform_def writeFileSync_def basename_def
        double_1_30 double_1_6 double_1_30_idem double_1_30_plus_1_6)
  with large c d' double_1_5 show ?thesis
    by (intro conjI) simp_all
qed

section \<open>The path of a trimmed video\<close>

subsection \<open>Characters of names\<close>

lemma basename_no_slash: "CHR ''/'' \<notin> set (basename p)"
  using set_takeWhileD [of "CHR ''/''" "\<lambda>c. c \<noteq> CHR ''/''"]
  by (auto simp: basename_def)

lemma basename_length: "length (basename p) \<le> length p"
proof -
  have "length (takeWhile (\<lambda>c. c \<noteq> CHR ''/'') (dropWhile (\<lambda>c. c = CHR ''/'') (rev p)))
      \<le> length (dropWhile (\<lambda>c. c = CHR ''/'') (rev p))"
    by (rule length_takeWhile_le)
  also have "\<dots> \<le> length (rev p)"
    by (rule length_dropWhile_le)
  finally show ?thesis by (simp add: basename_def)
qed

lemma digit_no_slash: "n < 10 \<Longrightarrow> ''0123456789'' ! n \<notin> {CHR ''/'', CHR ''.''}"
proof -
  assume "n < 10"
  then have "n \<in> {0, 1, 2, 3, 4, 5, 6, 7, 8, 9}" by auto
  then show ?thesis by auto
qed

lemma string_of_nat_chars:
  "CHR ''/'' \<notin> set (string_of_nat n) \<and> CHR ''.'' \<notin> set (string_of_nat n)"
proof (induction n rule: string_of_nat.induct)
  case (1 n)
  show ?case
  proof (cases "n < 10")
    case True
    then have "string_of_nat n = [''0123456789'' ! n]"
      by (subst string_of_nat.simps) simp
    with digit_no_slash [OF True] show ?thesis
      by auto
  next
    case False
    then have "string_of_nat n = string_of_nat (n div 10) @ [''0123456789'' ! (n mod 10)]"
      by (subst string_of_nat.simps) simp
    moreover have "n mod 10 < 10" by simp
    ultimately show ?thesis
      using digit_no_slash [of "n mod 10"] 1 [OF False] by auto
  qed
qed

lemma dirname_nonempty: "dirname p \<noteq> []"
proof -
  define r where
    "r = dropWhile (\<lambda>c. c \<noteq> CHR ''/'') (dropWhile (\<lambda>c. c = CHR ''/'') (rev p))"
  have d: "dirname p =
     (if p = [] then ''.''
      else if length r \<le> 1 then (if hd p = CHR ''/'' then ''/'' else ''.'')
      else if hd p = CHR ''/'' \<and> length r = 2 then ''//''
      else rev (tl r))"
    unfolding r_def dirname_def Let_def by (rule refl)
  have "length r \<le> 1 \<or> tl r \<noteq> []"
    by (cases r) auto
  then show ?thesis
    unfolding d by auto
qed

subsection \<open>The last segment of a joined path\<close>

lemma split_slash_nonempty: "split_slash s \<noteq> []"
  by (induction s) (auto split: list.splits)

lemma split_slash_append:
  "split_slash (a @ CHR ''/'' # b) = split_slash a @ split_slash b"
proof (induction a)
  case Nil
  show ?case by simp
next
  case (Cons c a)
  obtain s ss where "split_slash a = s # ss"
    using split_slash_nonempty [of a] by (cases "split_slash a") auto
  with Cons show ?case by simp
qed

lemma split_slash_plain: "CHR ''/'' \<notin> set n \<Longrightarrow> split_slash n = [n]"
  by (induction n) auto

lemma join_slash_snoc:
  "join_slash (ys @ [n]) = (if ys = [] then n else join_slash ys @ CHR ''/'' # n)"
  by (induction ys rule: join_slash.induct) auto

lemma normalizeString_snoc:
  assumes "CHR ''/'' \<notin> set n" and "n \<noteq> []" and "n \<noteq> ''.''" and "n \<noteq> ''..''"
  shows "\<exists>X. normalizeString (d @ CHR ''/'' # n) allow = X @ n \<and> (X = [] \<or> last X = CHR ''/'')"
proof -
  let ?st = "foldl (normalize_step allow) [] (split_slash d)"
  have "foldl (normalize_step allow) [] (split_slash (d @ CHR ''/'' # n)) = n # ?st"
    using assms by (simp add: split_slash_append split_slash_plain normalize_step_def)
  then have "normalizeString (d @ CHR ''/'' # n) allow
      = (if rev ?st = [] then n else join_slash (rev ?st) @ CHR ''/'' # n)"
    by (simp add: normalizeString_def join_slash_snoc)
  then show ?thesis
    by (cases "rev ?st = []") (auto intro: exI [of _ "join_slash (rev ?st) @ ''/''"])
qed

lemma join_dir_name:
  assumes d: "d \<noteq> []"
    and n: "CHR ''/'' \<notin> set n" "n \<noteq> []" "n \<noteq> ''.''" "n \<noteq> ''..''"
  shows "\<exists>X. join [d, n] = X @ n \<and> (X = [] \<or> last X = CHR ''/'')"
proof -
  let ?p = "d @ CHR ''/'' # n"
  from normalizeString_snoc [OF n, of d "hd ?p \<noteq> CHR ''/''"] obtain X where
    X: "normalizeString ?p (hd ?p \<noteq> CHR ''/'') = X @ n" "X = [] \<or> last X = CHR ''/''"
    by blast
  have last: "last ?p \<noteq> CHR ''/''"
    using n by (cases n rule: rev_cases) auto
  have j: "join [d, n] = normalize ?p"
    using d n by (simp add: join_def)
  have "normalize ?p = (if hd ?p = CHR ''/'' then ''/'' else []) @ X @ n"
    using X(1) n(2) last by (simp add: normalize_def Let_def)
  then have "join [d, n] = ((if hd ?p = CHR ''/'' then ''/'' else []) @ X) @ n"
    using j by simp
  moreover have "(if hd ?p = CHR ''/'' then ''/'' else []) @ X = []
      \<or> last ((if hd ?p = CHR ''/'' then ''/'' else []) @ X) = CHR ''/''"
    using X(2) by auto
  ultimately show ?thesis by blast
qed

lemma basename_suffix:
  assumes "CHR ''/'' \<notin> set n" and "n \<noteq> []" and "X = [] \<or> last X = CHR ''/''"
  shows "basename (X @ n) = n"
proof -
  obtain c cs where rn: "rev n = c # cs"
    using assms(2) by (cases "rev n") auto
  have c: "c \<noteq> CHR ''/''"
    using assms(1) rn by (metis list.set_intros(1) set_rev)
  have dw: "dropWhile (\<lambda>c. c = CHR ''/'') (rev (X @ n)) = rev n @ rev X"
    using rn c by simp
  have all: "\<forall>x\<in>set (rev n). x \<noteq> CHR ''/''"
    using assms(1) by auto
  have tw: "takeWhile (\<lambda>c. c \<noteq> CHR ''/'') (rev X) = []"
    using assms(3) by (cases X rule: rev_cases) auto
  have "takeWhile (\<lambda>c. c \<noteq> CHR ''/'') (rev n @ rev X)
      = rev n @ takeWhile (\<lambda>c. c \<noteq> CHR ''/'') (rev X)"
    by (rule takeWhile_append2) (use all in auto)
  then have "takeWhile (\<lambda>c. c \<noteq> CHR ''/'') (rev n @ rev X) = rev n"
    using tw by simp
  then show ?thesis
    unfolding basename_def dw by simp
qed

lemma basename_join:
  assumes "d \<noteq> []" and "CHR ''/'' \<notin> set n" "n \<noteq> []" "n \<noteq> ''.''" "n \<noteq> ''..''"
  shows "basename (join [d, n]) = n"
proof -
  from join_dir_name [OF assms] obtain X where
    "join [d, n] = X @ n" "X = [] \<or> last X = CHR ''/''"
    by blast
  then show ?thesis
    using basename_suffix [OF assms(2,3)] by simp
qed

subsection \<open>The output path of a raw trim\<close>

lemma raw_basename:
  assumes "endsWith p ''.raw''"
  shows "\<exists>x. basename p = x @ ''.raw''"
proof -
  from assms have d: "drop (length p - length ''.raw'') p = ''.raw''"
    unfolding endsWith_def by blast
  have "take (length p - length ''.raw'') p @ drop (length p - length ''.raw'') p = p"
    by (rule append_take_drop_id)
  then have "p = take (length p - length ''.raw'') p @ ''.raw''"
    unfolding d by (rule sym)
  then obtain q where p: "p = q @ ''.raw''" ..
  have "basename (q @ ''.raw'')
      = rev (takeWhile (\<lambda>c. c \<noteq> CHR ''/'') (rev q)) @ ''.raw''"
    by (simp add: basename_def)
  with p show ?thesis by blast
qed

lemma extname_raw:
  assumes "basename p = x @ ''.raw''"
  shows "extname p = (if x = [] then [] else ''.raw'')"
  using assms by (simp add: extname_def Let_def)

lemma extname_dot_first:
  assumes "basename p = CHR ''.'' # e" and "CHR ''.'' \<notin> set e"
  shows "extname p = []"
proof -
  have "takeWhile (\<lambda>c. c \<noteq> CHR ''.'') (rev e @ ''.'')
      = rev e @ takeWhile (\<lambda>c. c \<noteq> CHR ''.'') ''.''"
    by (rule takeWhile_append2) (use assms(2) in auto)
  then have "takeWhile (\<lambda>c. c \<noteq> CHR ''.'') (rev e @ ''.'') = rev e"
    by simp
  then show ?thesis
    using assms(1) by (simp add: extname_def Let_def)
qed

lemma basename_ext_raw:
  assumes "basename p = x @ ''.raw''"
  shows "basename_ext p (extname p) = (if x = [] then ''.raw'' else x)"
proof (cases "x = []")
  case True
  with assms show ?thesis by (simp add: extname_raw basename_ext_def)
next
  case False
  have "length (basename p) \<le> length p"
    by (rule basename_length)
  with assms False have "p \<noteq> ''.raw''"
    by auto
  with assms False show ?thesis
    by (simp add: extname_raw [OF assms] basename_ext_def endsWith_def)
qed

lemma trimmed_path:
  assumes raw: "endsWith p ''.raw''"
  shows "basename (join [dirname p,
            basename_ext p (extname p) @ ''-trimmed-'' @ string_of_nat now @ extname p])
           = basename_ext p (extname p) @ ''-trimmed-'' @ string_of_nat now @ extname p \<and>
         basename_ext p (extname p) @ extname p = basename p \<and>
         extname (join [dirname p,
            basename_ext p (extname p) @ ''-trimmed-'' @ string_of_nat now @ extname p])
           = extname p \<and>
         join [dirname p,
            basename_ext p (extname p) @ ''-trimmed-'' @ string_of_nat now @ extname p] \<noteq> p"
proof -
  from raw_basename [OF raw] obtain x where b: "basename p = x @ ''.raw''" ..
  define ext where "ext = extname p"
  define base where "base = basename_ext p ext"
  define n where "n = base @ ''-trimmed-'' @ string_of_nat now @ ext"
  define out where "out = join [dirname p, n]"
  have e: "ext = (if x = [] then [] else ''.raw'')"
    unfolding ext_def by (rule extname_raw [OF b])
  have be: "base = (if x = [] then ''.raw'' else x)"
    unfolding base_def ext_def by (rule basename_ext_raw [OF b])
  have x: "CHR ''/'' \<notin> set x"
    using basename_no_slash [of p] b by simp
  have n: "n = (if x = [] then ''.raw-trimmed-'' @ string_of_nat now
                 else (x @ ''-trimmed-'' @ string_of_nat now) @ ''.raw'')"
    unfolding n_def be e by simp
  have ns: "CHR ''/'' \<notin> set n"
    unfolding n using x string_of_nat_chars [of now] by simp
  have nl: "9 \<le> length n"
    unfolding n_def by simp
  then have ne: "n \<noteq> []" "n \<noteq> ''.''" "n \<noteq> ''..''"
    by force+
  have bn: "basename out = n"
    unfolding out_def by (rule basename_join [OF dirname_nonempty ns ne])
  have ext: "extname out = ext"
  proof (cases "x = []")
    case True
    have "basename out = CHR ''.'' # (''raw-trimmed-'' @ string_of_nat now)"
      unfolding bn n using True by simp
    moreover have "CHR ''.'' \<notin> set (''raw-trimmed-'' @ string_of_nat now)"
      using string_of_nat_chars [of now] by simp
    ultimately have "extname out = []"
      by (rule extname_dot_first)
    then show ?thesis
      using True e by simp
  next
    case False
    have "basename out = (x @ ''-trimmed-'' @ string_of_nat now) @ ''.raw''"
      unfolding bn n using False by simp
    from extname_raw [OF this] False show ?thesis
      using e by simp
  qed
  have parts: "base @ ext = basename p"
    unfolding be e b by simp
  have neq: "out \<noteq> p"
  proof
    assume "out = p"
    then have "basename p = n"
      using bn by simp
    then have "length (base @ ext) = length n"
      unfolding parts by simp
    then show False
      unfolding n_def by simp
  qed
  from bn parts ext neq show ?thesis
    unfolding out_def n_def base_def ext_def by blast
qed


lemma trim_files:
  assumes raw: "endsWith p ''.raw''"
    and out: "out = join [dirname p,
        basename_ext p (extname p) @ ''-trimmed-'' @ string_of_nat now @ extname p]"
    and res: "processVideo pf ffmpeg fs now p opts = (res, fs')"
  shows "out \<noteq> p \<and>
     map_of fs' p = map_of fs p \<and>
     (\<forall>x. x \<noteq> out \<longrightarrow> map_of fs' x = map_of fs x) \<and>
     (\<forall>r. res = Inr r \<longrightarrow>
        outputPath r = out \<and> map_of fs p \<noteq> None \<and> (\<exists>bytes. map_of fs' out = Some bytes)) \<and>
     (\<forall>err. res = Inl err \<longrightarrow> map_of fs' out = map_of fs out \<or> map_of fs' out = Some [])"
proof -
  have ne: "out \<noteq> p"
    unfolding out using trimmed_path [OF raw, of now] by blast
  have other: "\<forall>x. x \<noteq> out \<longrightarrow> map_of fs' x = map_of fs x"
    using processVideo_raw_cases [OF raw out res] writeFileSync_other
    by blast
  then have src: "map_of fs' p = map_of fs p"
    using ne by simp
  have ok: "\<forall>r. res = Inr r \<longrightarrow>
        outputPath r = out \<and> map_of fs p \<noteq> None \<and> (\<exists>bytes. map_of fs' out = Some bytes)"
  proof (intro allI impI)
    fix r
    assume r: "res = Inr r"
    from res r obtain q where total: "calculateRawVideoDuration fs p = Inr q"
      by (cases "calculateRawVideoDuration fs p") (auto simp: processVideo_def Let_def)
    from processVideo_raw_Inr [OF raw total out refl res [unfolded r]]
    obtain input bytes where "map_of fs p = Some input" "outputPath r = out"
      "fs' = AList.update out bytes fs"
      by auto
    then show "outputPath r = out \<and> map_of fs p \<noteq> None \<and> (\<exists>bytes. map_of fs' out = Some bytes)"
      by (simp add: update_conv')
  qed
  have bad: "\<forall>err. res = Inl err \<longrightarrow> map_of fs' out = map_of fs out \<or> map_of fs' out = Some []"
  proof (intro allI impI)
    fix err
    assume e: "res = Inl err"
    from processVideo_raw_cases [OF raw out res] e
    have "fs' = fs \<or> (\<exists>written err'. writeFileSync pf fs out written = (Inl err', fs'))"
      by auto
    then have "fs' = fs \<or> fs' = AList.update out [] fs"
      using writeFileSync_Inl by blast
    then show "map_of fs' out = map_of fs out \<or> map_of fs' out = Some []"
      by (auto simp: update_conv')
  qed
  from ne src other ok bad show ?thesis
    by (intro conjI)
qed

text \<open>
  C9, as the program has it. A raw trim writes to the path made of the source's
  directory and the source's name with \<^verbatim>\<open>-trimmed-\<close> and the timestamp put
  before the extension: the suffix is the timestamp alone, the program adds no random
  component. This path keeps the source's extension and differs from the source's path,
  but it need not be new: a file that is there is replaced. When the trim returns, the
  output is at this path. Whether the trim returns or fails, every file but the one at
  the output path, the source among them, is as it was; a trim that fails leaves the
  output path as it was or holding an empty file.
\<close>

theorem trim_output_path:
  "endsWith p ''.raw'' \<and>
   out = join [dirname p,
     basename_ext p (extname p) @ ''-trimmed-'' @ string_of_nat now @ extname p] \<and>
   processVideo pf ffmpeg fs now p opts = (res, fs') \<longrightarrow>
     basename_ext p (extname p) @ extname p = basename p \<and>
     basename out
       = basename_ext p (extname p) @ ''-trimmed-'' @ string_of_nat now @ extname p \<and>
     extname out = extname p \<and>
     out \<noteq> p \<and>
     map_of fs' p = map_of fs p \<and>
     (\<forall>x. x \<noteq> out \<longrightarrow> map_of fs' x = map_of fs x) \<and>
     (\<forall>r. res = Inr r \<longrightarrow>
        outputPath r = out \<and> map_of fs p \<noteq> None \<and> (\<exists>bytes. map_of fs' out = Some bytes)) \<and>
     (\<forall>err. res = Inl err \<longrightarrow> map_of fs' out = map_of fs out \<or> map_of fs' out = Some [])"
proof (intro impI)
  assume a: "endsWith p ''.raw'' \<and>
   out = join [dirname p,
     basename_ext p (extname p) @ ''-trimmed-'' @ string_of_nat now @ extname p] \<and>
   processVideo pf ffmpeg fs now p opts = (res, fs')"
  from a have raw: "endsWith p ''.raw''"
    by (elim conjE) assumption
  from a have out: "out = join [dirname p,
     basename_ext p (extname p) @ ''-trimmed-'' @ string_of_nat now @ extname p]"
    by (elim conjE) assumption
  from a have res: "processVideo pf ffmpeg fs now p opts = (res, fs')"
    by (elim conjE) assumption
  note tp = trimmed_path [OF raw, of now, folded out]
  note tf = trim_files [OF raw out res]
  from tp have 1: "basename_ext p (extname p) @ extname p = basename p"
    by (elim conjE) assumption
  from tp have 2: "basename out
       = basename_ext p (extname p) @ ''-trimmed-'' @ string_of_nat now @ extname p"
    by (elim conjE) assumption
  from tp have 3: "extname out = extname p"
    by (elim conjE) assumption
  from 1 2 3 tf
  show "basename_ext p (extname p) @ extname p = basename p \<and>
     basename out
       = basename_ext p (extname p) @ ''-trimmed-'' @ string_of_nat now @ extname p \<and>
     extname out = extname p \<and>
     out \<noteq> p \<and>
     map_of fs' p = map_of fs p \<and>
     (\<forall>x. x \<noteq> out \<longrightarrow> map_of fs' x = map_of fs x) \<and>
     (\<forall>r. res = Inr r \<longrightarrow>
        outputPath r = out \<and> map_of fs p \<noteq> None \<and> (\<exists>bytes. map_of fs' out = Some bytes)) \<and>
     (\<forall>err. res = Inl err \<longrightarrow> map_of fs' out = map_of fs out \<or> map_of fs' out = Some [])"
    by (intro conjI) ((elim conjE, assumption)+)
qed

text \<open>Two trims of one source within the same millisecond, the second after the first.\<close>

lemma trimmed_17_5:
  "''uploads/17-5-trimmed-1700000000000.raw'' = join [dirname ''uploads/17-5.raw'',
      basename_ext ''uploads/17-5.raw'' (extname ''uploads/17-5.raw'') @ ''-trimmed-''
        @ string_of_nat 1700000000000 @ extname ''uploads/17-5.raw'']"
  by (simp add: join_def dirname_def extname_def basename_ext_def basename_def
      endsWith_def normalize_def normalizeString_def normalize_step_def
      string_of_nat.simps Let_def)

lemma trim_run_1:
  "processVideo linux_platform failing_transcoder [(''uploads/17-5.raw'', replicate 34560000 7)]
       1700000000000 ''uploads/17-5.raw'' \<lparr>trimStart = Some (Finite 1), trimEnd = Some (Finite 1)\<rparr>
     = (Inr \<lparr>outputPath = ''uploads/17-5-trimmed-1700000000000.raw'', duration = Finite 3\<rparr>,
        [(''uploads/17-5.raw'', replicate 34560000 7),
         (''uploads/17-5-trimmed-1700000000000.raw'', replicate 20736000 7)])"
proof -
  let ?opts = "\<lparr>trimStart = Some (Finite 1), trimEnd = Some (Finite 1)\<rparr>"
  let ?p = "''uploads/17-5.raw''"
  let ?fs = "[(''uploads/17-5.raw'', replicate 34560000 (7::byte))]"
  have raw: "endsWith ?p ''.raw''"
    by (simp add: endsWith_def)
  have total: "calculateRawVideoDuration ?fs ?p = Inr 5"
    by (simp add: estimate_cases basename_def startsWith_def)
  have nd: "Finite 3 = fsub (fsub (round_double 5) (or_zero (trimStart ?opts)))
      (or_zero (trimEnd ?opts))"
    by (simp add: or_zero_def truthy_number_def fsub_def)
  have pos: "\<not> fle (Finite 3) (Finite 0)"
    by (simp add: fle_def)
  have sF: "startFrame (or_zero (trimStart ?opts)) = Finite (of_int 30)"
    by (simp add: or_zero_def truthy_number_def startFrame_def RAW_VIDEO_FPS_def)
  have eF: "endFrame (round_double 5) (or_zero (trimEnd ?opts)) = Finite (of_int 120)"
    by (simp add: or_zero_def truthy_number_def endFrame_def RAW_VIDEO_FPS_def fsub_def)
  have ex: "map_of ?fs ?p = Some (replicate 34560000 7)"
    by simp
  show ?thesis
    by (subst processVideo_frames [OF raw total trimmed_17_5 nd pos sF eF _ _ _ ex])
      (simp_all add: linux_platform_def kIoMaxLength_def writeFileSync_def basename_def)
qed

lemma trim_run_2:
  "processVideo linux_platform failing_transcoder
       [(''uploads/17-5.raw'', replicate 34560000 7),
        (''uploads/17-5-trimmed-1700000000000.raw'', replicate 20736000 7)]
       1700000000000 ''uploads/17-5.raw'' \<lparr>trimStart = Some (Finite 2), trimEnd = Some (Finite 1)\<rparr>
     = (Inr \<lparr>outputPath = ''uploads/17-5-trimmed-1700000000000.raw'', duration = Finite 2\<rparr>,
        [(''uploads/17-5.raw'', replicate 34560000 7),
         (''uploads/17-5-trimmed-1700000000000.raw'', replicate 13824000 7)])"
proof -
  let ?opts = "\<lparr>trimStart = Some (Finite 2), trimEnd = Some (Finite 1)\<rparr>"
  let ?p = "''uploads/17-5.raw''"
  let ?fs = "[(''uploads/17-5.raw'', replicate 34560000 (7::byte)),
        (''uploads/17-5-trimmed-1700000000000.raw'', replicate 20736000 7)]"
  have raw: "endsWith ?p ''.raw''"
    by (simp add: endsWith_def)
  have total: "calculateRawVideoDuration ?fs ?p = Inr 5"
    by (simp add: estimate_cases basename_def startsWith_def)
  have nd: "Finite 2 = fsub (fsub (round_double 5) (or_zero (trimStart ?opts)))
      (or_zero (trimEnd ?opts))"
    by (simp add: or_zero_def truthy_number_def fsub_def)
  have pos: "\<not> fle (Finite 2) (Finite 0)"
    by (simp add: fle_def)
  have sF: "startFrame (or_zero (trimStart ?opts)) = Finite (of_int 60)"
    by (simp add: or_zero_def truthy_number_def startFrame_def RAW_VIDEO_FPS_def)
  have eF: "endFrame (round_double 5) (or_zero (trimEnd ?opts)) = Finite (of_int 120)"
    by (simp add: or_zero_def truthy_number_def endFrame_def RAW_VIDEO_FPS_def fsub_def)
  have ex: "map_of ?fs ?p = Some (replicate 34560000 7)"
    by simp
  show ?thesis
    by (subst processVideo_frames [OF raw total trimmed_17_5 nd pos sF eF _ _ _ ex])
      (simp_all add: linux_platform_def kIoMaxLength_def writeFileSync_def basename_def)
qed

theorem trim_output_path_witness:
  "endsWith ''uploads/17-5.raw'' ''.raw'' \<and>
   processVideo linux_platform failing_transcoder [(''uploads/17-5.raw'', replicate 34560000 7)]
       1700000000000 ''uploads/17-5.raw'' \<lparr>trimStart = Some (Finite 1), trimEnd = Some (Finite 1)\<rparr>
     = (Inr \<lparr>outputPath = ''uploads/17-5-trimmed-1700000000000.raw'', duration = Finite 3\<rparr>,
        [(''uploads/17-5.raw'', replicate 34560000 7),
         (''uploads/17-5-trimmed-1700000000000.raw'', replicate 20736000 7)]) \<and>
   basename ''uploads/17-5-trimmed-1700000000000.raw''
     = basename_ext ''uploads/17-5.raw'' (extname ''uploads/17-5.raw'') @ ''-trimmed-''
         @ string_of_nat 1700000000000 @ extname ''uploads/17-5.raw'' \<and>
   extname ''uploads/17-5-trimmed-1700000000000.raw'' = extname ''uploads/17-5.raw'' \<and>
   extname ''uploads/17-5.raw'' = ''.raw'' \<and>
   ''uploads/17-5-trimmed-1700000000000.raw'' \<noteq> ''uploads/17-5.raw'' \<and>
   map_of [(''uploads/17-5.raw'', replicate 34560000 (7::byte)),
           (''uploads/17-5-trimmed-1700000000000.raw'', replicate 20736000 7)]
       ''uploads/17-5.raw''
     = map_of [(''uploads/17-5.raw'', replicate 34560000 7)] ''uploads/17-5.raw'' \<and>
   (\<exists>bytes.
      map_of [(''uploads/17-5.raw'', replicate 34560000 (7::byte)),
              (''uploads/17-5-trimmed-1700000000000.raw'', replicate 20736000 7)]
          ''uploads/17-5-trimmed-1700000000000.raw'' = Some bytes) \<and>
   processVideo linux_platform failing_transcoder [(''uploads/long-video.raw'', replicate 13824000 1)]
       1700000000000 ''uploads/long-video.raw'' \<lparr>trimStart = None, trimEnd = Some (Finite 1)\<rparr>
     = (Inl (Wrapped ''Error processing video: '' ERR_OUT_OF_RANGE),
        [(''uploads/long-video.raw'', replicate 13824000 1),
         (''uploads/long-video-trimmed-1700000000000.raw'', [])]) \<and>
   map_of [(''uploads/long-video.raw'', replicate 13824000 (1::byte)),
           (''uploads/long-video-trimmed-1700000000000.raw'', [])] ''uploads/long-video.raw''
     = map_of [(''uploads/long-video.raw'', replicate 13824000 1)] ''uploads/long-video.raw''"
proof -
  have raw: "endsWith ''uploads/17-5.raw'' ''.raw''"
    by (simp add: endsWith_def)
  have ext: "extname ''uploads/17-5.raw'' = ''.raw''"
    by (simp add: extname_def basename_def)
  note t = trim_output_path [of "''uploads/17-5.raw''"
      "''uploads/17-5-trimmed-1700000000000.raw''" 1700000000000
      linux_platform failing_transcoder
      "[(''uploads/17-5.raw'', replicate 34560000 7)]"
      "\<lparr>trimStart = Some (Finite 1), trimEnd = Some (Finite 1)\<rparr>"
      "Inr \<lparr>outputPath = ''uploads/17-5-trimmed-1700000000000.raw'', duration = Finite 3\<rparr>"
      "[(''uploads/17-5.raw'', replicate 34560000 7),
        (''uploads/17-5-trimmed-1700000000000.raw'', replicate 20736000 7)]",
      THEN mp, OF conjI [OF raw conjI [OF trimmed_17_5 trim_run_1]]]
  from t have b: "basename ''uploads/17-5-trimmed-1700000000000.raw''
     = basename_ext ''uploads/17-5.raw'' (extname ''uploads/17-5.raw'') @ ''-trimmed-''
         @ string_of_nat 1700000000000 @ extname ''uploads/17-5.raw''"
    by (elim conjE) assumption
  from t have e: "extname ''uploads/17-5-trimmed-1700000000000.raw''
      = extname ''uploads/17-5.raw''"
    by (elim conjE) assumption
  from t have n: "''uploads/17-5-trimmed-1700000000000.raw'' \<noteq> ''uploads/17-5.raw''"
    by (elim conjE) assumption
  from t have m: "map_of [(''uploads/17-5.raw'', replicate 34560000 (7::byte)),
           (''uploads/17-5-trimmed-1700000000000.raw'', replicate 20736000 7)]
       ''uploads/17-5.raw''
     = map_of [(''uploads/17-5.raw'', replicate 34560000 7)] ''uploads/17-5.raw''"
    by (elim conjE) assumption
  from t have x: "\<exists>bytes.
      map_of [(''uploads/17-5.raw'', replicate 34560000 (7::byte)),
              (''uploads/17-5-trimmed-1700000000000.raw'', replicate 20736000 7)]
          ''uploads/17-5-trimmed-1700000000000.raw'' = Some bytes"
    by blast
  have raw': "endsWith ''uploads/long-video.raw'' ''.raw''"
    by (simp add: endsWith_def)
  have out': "''uploads/long-video-trimmed-1700000000000.raw'' = join [dirname ''uploads/long-video.raw'',
      basename_ext ''uploads/long-video.raw'' (extname ''uploads/long-video.raw'') @ ''-trimmed-''
        @ string_of_nat 1700000000000 @ extname ''uploads/long-video.raw'']"
    by (simp add: join_def dirname_def extname_def basename_ext_def basename_def
        endsWith_def normalize_def normalizeString_def normalize_step_def
        string_of_nat.simps Let_def)
  note u = trim_output_path [of "''uploads/long-video.raw''"
      "''uploads/long-video-trimmed-1700000000000.raw''" 1700000000000
      linux_platform failing_transcoder
      "[(''uploads/long-video.raw'', replicate 13824000 1)]"
      "\<lparr>trimStart = None, trimEnd = Some (Finite 1)\<rparr>"
      "Inl (Wrapped ''Error processing video: '' ERR_OUT_OF_RANGE)"
      "[(''uploads/long-video.raw'', replicate 13824000 1),
        (''uploads/long-video-trimmed-1700000000000.raw'', [])]",
      THEN mp, OF conjI [OF raw' conjI [OF out' trim_run_long]]]
  from u have m': "map_of [(''uploads/long-video.raw'', replicate 13824000 (1::byte)),
           (''uploads/long-video-trimmed-1700000000000.raw'', [])] ''uploads/long-video.raw''
     = map_of [(''uploads/long-video.raw'', replicate 13824000 1)] ''uploads/long-video.raw''"
    by (elim conjE) assumption
  from raw trim_run_1 b e ext n m x trim_run_long m' show ?thesis
    by (intro conjI)
qed

text \<open>
  The claim as written fails: the output name is the source's name, \<^verbatim>\<open>-trimmed-\<close>,
  the timestamp and the extension, with nothing random in it, so two different trims of
  one source within the same millisecond are written to the same path, and the second
  replaces the file the first has written.
\<close>

theorem trim_output_path_counterexample:
  "processVideo linux_platform failing_transcoder [(''uploads/17-5.raw'', replicate 34560000 7)]
       1700000000000 ''uploads/17-5.raw'' \<lparr>trimStart = Some (Finite 1), trimEnd = Some (Finite 1)\<rparr>
     = (Inr \<lparr>outputPath = ''uploads/17-5-trimmed-1700000000000.raw'', duration = Finite 3\<rparr>,
        [(''uploads/17-5.raw'', replicate 34560000 7),
         (''uploads/17-5-trimmed-1700000000000.raw'', replicate 20736000 7)]) \<and>
   processVideo linux_platform failing_transcoder
       [(''uploads/17-5.raw'', replicate 34560000 7),
        (''uploads/17-5-trimmed-1700000000000.raw'', replicate 20736000 7)]
       1700000000000 ''uploads/17-5.raw'' \<lparr>trimStart = Some (Finite 2), trimEnd = Some (Finite 1)\<rparr>
     = (Inr \<lparr>outputPath = ''uploads/17-5-trimmed-1700000000000.raw'', duration = Finite 2\<rparr>,
        [(''uploads/17-5.raw'', replicate 34560000 7),
         (''uploads/17-5-trimmed-1700000000000.raw'', replicate 13824000 7)]) \<and>
   ''uploads/17-5-trimmed-1700000000000.raw''
     = ''uploads/17-5'' @ ''-trimmed-'' @ string_of_nat 1700000000000 @ ''.raw''"
  by (simp add: trim_run_1 trim_run_2 string_of_nat.simps)

end
